theory Spec2Isabelle
  imports Main "HOL-Library.Signed_Division"
begin

section \<open>The command-line tool create\_state\_file\<close>

text \<open>
  \<^verbatim>\<open>main\<close> of \<^verbatim>\<open>create_state_file.cpp\<close> calls \<^verbatim>\<open>derecho::parse_view\<close> and
  \<^verbatim>\<open>derecho::persist_object\<close>, whose definitions are not among the sources. The
  outcome of each call is therefore an argument of the model: the call either returns
  or leaves by an exception. \<^verbatim>\<open>main\<close> has no handler, so an exception ends the process
  through \<^verbatim>\<open>std::terminate\<close> and not through an exit code chosen by \<^verbatim>\<open>main\<close>.
\<close>

datatype 'a outcome = Returned 'a | Threw

datatype exit_status = Exit int | Terminated

definition main :: "int \<Rightarrow> 'view outcome \<Rightarrow> unit outcome \<Rightarrow> string list \<times> exit_status" where
  "main argc parse_view persist_object =
     (if argc < 2 then ([''Usage: create_state_file <filename>''], Exit 1)
      else (case parse_view of
              Threw \<Rightarrow> ([], Terminated)
            | Returned view \<Rightarrow>
                (case persist_object of
                   Threw \<Rightarrow> ([], Terminated)
                 | Returned u \<Rightarrow> ([], Exit 0))))"

section \<open>Data model of the multicast group\<close>

type_synonym node_id_t = nat
type_synonym subgroup_id_t = nat

datatype Mode = ORDERED | RAW

text \<open>
  What a C++ call can do instead of returning: \<^verbatim>\<open>std::map::at\<close> on a missing key
  throws \<^verbatim>\<open>std::out_of_range\<close>, a failed \<^verbatim>\<open>assert\<close> aborts, the sender thread throws
  \<^verbatim>\<open>std::runtime_error\<close>; reading through a null buffer, the first element of an empty
  vector or \<^verbatim>\<open>begin()\<close> of an empty map has no defined behaviour.
\<close>

datatype error = OutOfRange | AssertionFailed | RuntimeError | Undefined_behaviour

definition map_at :: "('k \<rightharpoonup> 'v) \<Rightarrow> 'k \<Rightarrow> error + 'v" where
  "map_at m k = (case m k of None \<Rightarrow> Inl OutOfRange | Some v \<Rightarrow> Inr v)"

definition and_then :: "error + 'a \<Rightarrow> ('a \<Rightarrow> error + 'b) \<Rightarrow> error + 'b" where
  "and_then r f = (case r of Inl e \<Rightarrow> Inl e | Inr v \<Rightarrow> f v)"

text \<open>The message header that starts every buffer; the payload bytes are not modelled.\<close>

record header =
  header_size :: nat
  h_index :: int
  pause_sending_turns :: nat
  cooked_send :: bool

text \<open>
  Modelled from the spec: the declaration of \<^verbatim>\<open>struct header\<close> is in a header file that
  is not among the sources; the wire layout is
  \<^verbatim>\<open>header_size:u32 | index:i64 | pause_sending_turns:u32 | cooked_send:bool\<close>,
  that is 4 + 8 + 4 + 1 bytes.
\<close>

definition sizeof_header :: nat where
  "sizeof_header = 17"

text \<open>A registered buffer: its memory region and the header written at its start.\<close>

record MessageBuffer =
  mr :: nat
  contents :: header

record RDMCMessage =
  r_sender_id :: node_id_t
  r_index :: int
  r_size :: nat
  r_message_buffer :: "MessageBuffer option"

record SSTMessage =
  s_sender_id :: node_id_t
  s_index :: int
  s_size :: nat
  s_buf :: "header option"

record slot =
  next_seq :: int
  slot_size :: nat
  slot_buf :: header

text \<open>The columns of the table that a \<^verbatim>\<open>put\<close> names by offset and length.\<close>

datatype column =
    Seq_num subgroup_id_t
  | Stable_num subgroup_id_t
  | Delivered_num subgroup_id_t
  | Persisted_num subgroup_id_t
  | Num_received nat nat
  | Num_received_sst nat nat
  | Whole_row

text \<open>
  The effects a member function has on its collaborators, in the order in which the
  code performs them: upcalls, writes to the table, records handed to the file writer,
  notifications of the sender thread, RDMC calls and console output.
\<close>

datatype event =
    Global_stability_callback subgroup_id_t node_id_t int nat
  | Rpc_callback subgroup_id_t node_id_t nat
  | Local_persistence_callback subgroup_id_t node_id_t nat
  | Write_message nat int node_id_t int bool
  | Put "nat list option" column
  | Sync_with_members
  | Notify_all
  | Rdmc_send nat nat
  | Rdmc_destroy_group nat
  | Predicates_remove nat
  | Join_sender_thread
  | Sst_multicast_send subgroup_id_t
  | Stdout string

text \<open>
  The shared state table. A row is a member, \<open>seq_num sst row g\<close> is the entry of
  subgroup \<open>g\<close> in that row. Modelled from the spec: the class of the table and its
  predicate registry are not among the sources; \<open>predicates\<close> holds the handles that
  are registered, a trigger fires only while its handle is registered, and removing a
  handle that is not registered changes nothing.
\<close>

record DerechoSST =
  seq_num :: "nat \<Rightarrow> nat \<Rightarrow> int"
  stable_num :: "nat \<Rightarrow> nat \<Rightarrow> int"
  delivered_num :: "nat \<Rightarrow> nat \<Rightarrow> int"
  persisted_num :: "nat \<Rightarrow> nat \<Rightarrow> int"
  num_received :: "nat \<Rightarrow> nat \<Rightarrow> int"
  num_received_sst :: "nat \<Rightarrow> nat \<Rightarrow> int"
  num_received_size :: nat
  seq_num_size :: nat
  vid :: "nat \<Rightarrow> int"
  slots :: "nat \<Rightarrow> nat \<Rightarrow> slot"
  predicates :: "nat list"

definition predicates_remove :: "nat \<Rightarrow> DerechoSST \<Rightarrow> DerechoSST" where
  "predicates_remove h t = t\<lparr>predicates := removeAll h (predicates t)\<rparr>"

definition fires :: "DerechoSST \<Rightarrow> nat \<Rightarrow> bool" where
  "fires t h = (h \<in> set (predicates t))"

text \<open>
  The group. Vectors indexed by subgroup and maps read with \<^verbatim>\<open>operator[]\<close> are total
  functions; maps read with \<^verbatim>\<open>at\<close> are partial maps; a \<^verbatim>\<open>std::map\<close> from sequence
  numbers to messages is a list of pairs in increasing key order. \<open>subgroup_to_send\<close>
  is the local variable of the sender thread, \<open>trace\<close> the effects so far.
\<close>

record MulticastGroup =
  members :: "node_id_t list"
  member_index :: nat
  max_msg_size :: nat
  window_size :: nat
  total_num_subgroups :: nat
  subgroup_to_shard_and_rank :: "subgroup_id_t \<rightharpoonup> nat \<times> nat"
  subgroup_to_senders_and_sender_rank :: "subgroup_id_t \<rightharpoonup> int list \<times> int"
  subgroup_to_num_received_offset :: "subgroup_id_t \<rightharpoonup> nat"
  subgroup_to_membership :: "subgroup_id_t \<rightharpoonup> node_id_t list"
  subgroup_to_mode :: "subgroup_id_t \<rightharpoonup> Mode"
  node_id_to_sst_index :: "node_id_t \<rightharpoonup> nat"
  received_intervals :: "nat \<Rightarrow> int list"
  rdmc_group_num_offset :: nat
  subgroup_to_rdmc_group :: "subgroup_id_t \<Rightarrow> nat"
  future_message_indices :: "subgroup_id_t \<Rightarrow> int"
  next_sends :: "subgroup_id_t \<Rightarrow> RDMCMessage option"
  pending_sends :: "subgroup_id_t \<Rightarrow> RDMCMessage list"
  current_sends :: "subgroup_id_t \<Rightarrow> RDMCMessage option"
  next_message_to_deliver :: "subgroup_id_t \<Rightarrow> int"
  free_message_buffers :: "subgroup_id_t \<Rightarrow> MessageBuffer option list"
  current_receives :: "((subgroup_id_t \<times> int) \<times> RDMCMessage) list"
  locally_stable_rdmc_messages :: "subgroup_id_t \<Rightarrow> (int \<times> RDMCMessage) list"
  locally_stable_sst_messages :: "subgroup_id_t \<Rightarrow> (int \<times> SSTMessage) list"
  non_persistent_messages :: "subgroup_id_t \<Rightarrow> (int \<times> RDMCMessage) list"
  non_persistent_sst_messages :: "subgroup_id_t \<Rightarrow> (int \<times> SSTMessage) list"
  file_writer :: bool
  thread_shutdown :: bool
  rdmc_sst_groups_created :: bool
  sender_pred_handles :: "nat list"
  receiver_pred_handles :: "nat list"
  stability_pred_handles :: "nat list"
  delivery_pred_handles :: "nat list"
  last_transfer_medium :: "subgroup_id_t \<Rightarrow> bool"
  subgroup_to_send :: subgroup_id_t
  sender_thread_joinable :: bool
  sst :: DerechoSST
  trace :: "event list"

text \<open>
  The constructors set \<^verbatim>\<open>num_members\<close> to \<^verbatim>\<open>members.size()\<close> and \<^verbatim>\<open>member_index\<close> to
  the position of this node in \<open>members\<close>; both are constant afterwards.
\<close>

definition num_members :: "MulticastGroup \<Rightarrow> nat" where
  "num_members g = length (members g)"

definition my_node_id :: "MulticastGroup \<Rightarrow> node_id_t" where
  "my_node_id g = members g ! member_index g"

definition set_cell :: "(nat \<Rightarrow> nat \<Rightarrow> int) \<Rightarrow> nat \<Rightarrow> nat \<Rightarrow> int \<Rightarrow> nat \<Rightarrow> nat \<Rightarrow> int" where
  "set_cell col row j v = col(row := (col row)(j := v))"

section \<open>Containers\<close>

text \<open>
  \<^verbatim>\<open>std::map\<close> keyed by sequence number: \<^verbatim>\<open>m[k] = v\<close> inserts or overwrites,
  \<^verbatim>\<open>m.emplace(k, v)\<close> inserts only when the key is absent, \<^verbatim>\<open>m.find(k)\<close> is
  \<^const>\<open>map_of\<close>, \<^verbatim>\<open>m.begin()\<close> is the head of the list.
\<close>

fun map_assign :: "int \<Rightarrow> 'v \<Rightarrow> (int \<times> 'v) list \<Rightarrow> (int \<times> 'v) list" where
  "map_assign k v [] = [(k, v)]"
| "map_assign k v ((k', v') # xs) =
     (if k < k' then (k, v) # (k', v') # xs
      else if k = k' then (k, v) # xs
      else (k', v') # map_assign k v xs)"

fun map_emplace :: "int \<Rightarrow> 'v \<Rightarrow> (int \<times> 'v) list \<Rightarrow> (int \<times> 'v) list" where
  "map_emplace k v [] = [(k, v)]"
| "map_emplace k v ((k', v') # xs) =
     (if k < k' then (k, v) # (k', v') # xs
      else if k = k' then (k', v') # xs
      else (k', v') # map_emplace k v xs)"

text \<open>\<^verbatim>\<open>m[k] = v\<close> for the map of the receives in progress, whose order is not used.\<close>

fun assoc_assign :: "'k \<Rightarrow> 'v \<Rightarrow> ('k \<times> 'v) list \<Rightarrow> ('k \<times> 'v) list" where
  "assoc_assign k v [] = [(k, v)]"
| "assoc_assign k v ((k', v') # xs) =
     (if k = k' then (k, v) # xs else (k', v') # assoc_assign k v xs)"

definition map_erase :: "'k \<Rightarrow> ('k \<times> 'v) list \<Rightarrow> ('k \<times> 'v) list" where
  "map_erase k xs = filter (\<lambda>p. fst p \<noteq> k) xs"

section \<open>Helpers of the group\<close>

text \<open>
  Modelled from the spec: \<^verbatim>\<open>get_num_senders\<close> is declared in a header file that is not
  among the sources; \<open>num_shard_senders\<close> is the number of senders of the shard, that
  is the number of shard members whose flag in \<open>shard_senders\<close> is set.
\<close>

definition get_num_senders :: "int list \<Rightarrow> nat" where
  "get_num_senders shard_senders = length (filter (\<lambda>i. i \<noteq> 0) shard_senders)"

fun sst_indices_of :: "(node_id_t \<rightharpoonup> nat) \<Rightarrow> node_id_t list \<Rightarrow> error + nat list" where
  "sst_indices_of idx [] = Inr []"
| "sst_indices_of idx (m # ms) =
     (case idx m of
        None \<Rightarrow> Inl OutOfRange
      | Some row \<Rightarrow> (case sst_indices_of idx ms of Inl e \<Rightarrow> Inl e | Inr rows \<Rightarrow> Inr (row # rows)))"

definition get_shard_sst_indices :: "subgroup_id_t \<Rightarrow> MulticastGroup \<Rightarrow> error + nat list" where
  "get_shard_sst_indices subgroup_num g =
     and_then (map_at (subgroup_to_membership g) subgroup_num)
       (sst_indices_of (node_id_to_sst_index g))"

text \<open>
  The loops \<^verbatim>\<open>for(i < num_shard_members) if(cond(row of shard_members[i])) return ...\<close>:
  the result is \<open>True\<close> when some shard member, in order, meets the condition.
\<close>

fun any_shard_member ::
  "(node_id_t \<rightharpoonup> nat) \<Rightarrow> (nat \<Rightarrow> error + bool) \<Rightarrow> node_id_t list \<Rightarrow> error + bool" where
  "any_shard_member idx cond [] = Inr False"
| "any_shard_member idx cond (m # ms) =
     (case idx m of
        None \<Rightarrow> Inl OutOfRange
      | Some row \<Rightarrow>
          (case cond row of
             Inl e \<Rightarrow> Inl e
           | Inr b \<Rightarrow> if b then Inr True else any_shard_member idx cond ms))"

section \<open>initialize\_sst\_row\<close>

definition initialize_sst_row :: "MulticastGroup \<Rightarrow> MulticastGroup" where
  "initialize_sst_row g =
     (let t = sst g;
          reset_received = (\<lambda>old i j. if i < num_members g \<and> j < num_received_size t then - 1 else old i j);
          reset = (\<lambda>old i j. if i < num_members g \<and> j < seq_num_size t then - 1 else old i j)
      in g\<lparr>sst := t\<lparr>num_received := reset_received (num_received t),
                     seq_num := reset (seq_num t),
                     stable_num := reset (stable_num t),
                     delivered_num := reset (delivered_num t),
                     persisted_num := reset (persisted_num t)\<rparr>,
            trace := trace g @ [Put None Whole_row, Sync_with_members]\<rparr>)"

section \<open>get\_sendbuffer\_ptr and send\<close>

text \<open>
  The size of the message that \<^verbatim>\<open>get_sendbuffer_ptr\<close> asks for (the first statements of
  the function). \<open>payload_size\<close> is a 64-bit unsigned value, so the sum wraps.
\<close>

definition requested_msg_size :: "nat \<Rightarrow> bool \<Rightarrow> MulticastGroup \<Rightarrow> nat" where
  "requested_msg_size payload_size null_send g =
     (let msg_size = (payload_size + sizeof_header) mod 2 ^ 64;
          msg_size = (if payload_size = 0 then max_msg_size g else msg_size);
          msg_size = (if null_send then sizeof_header else msg_size)
      in msg_size)"

text \<open>
  The pointer that \<^verbatim>\<open>get_sendbuffer_ptr\<close> returns: into a registered buffer of the pool,
  or into a slot of the table. \<open>slot\<close> is what
  \<^verbatim>\<open>sst_multicast_group_ptrs[subgroup_num]->get_buffer(msg_size)\<close> returns, a class that
  is not among the sources: \<open>None\<close> is the null pointer.
\<close>

datatype sendbuffer = Bulk_buffer nat | Slot_buffer nat

definition fill_header :: "int \<Rightarrow> int \<Rightarrow> bool \<Rightarrow> header" where
  "fill_header idx pause cooked =
     \<lparr>header_size = sizeof_header, h_index = idx,
      pause_sending_turns = nat (pause mod 2 ^ 32), cooked_send = cooked\<rparr>"

definition get_sendbuffer_ptr ::
  "subgroup_id_t \<Rightarrow> nat \<Rightarrow> bool \<Rightarrow> int \<Rightarrow> bool \<Rightarrow> bool \<Rightarrow> nat option \<Rightarrow> MulticastGroup
     \<Rightarrow> error + (sendbuffer option \<times> MulticastGroup)" where
  "get_sendbuffer_ptr subgroup_num payload_size transfer_medium pause cooked null_send slot g =
     (if \<not> rdmc_sst_groups_created g then Inr (None, g)
      else let msg_size = requested_msg_size payload_size null_send g in
      if msg_size > max_msg_size g
      then Inr (None, g\<lparr>trace := trace g @ [Stdout ''Can't send messages of size larger than the maximum message size'']\<rparr>)
      else
      and_then (map_at (subgroup_to_shard_and_rank g) subgroup_num) (\<lambda>shard_and_rank.
      and_then (map_at (subgroup_to_membership g) subgroup_num) (\<lambda>shard_members.
      and_then (map_at (subgroup_to_senders_and_sender_rank g) subgroup_num) (\<lambda>(shard_senders, shard_sender_index).
      let num_shard_senders = get_num_senders shard_senders in
      if shard_sender_index < 0 then Inl AssertionFailed
      else
      and_then (map_at (subgroup_to_mode g) subgroup_num) (\<lambda>mode.
      and_then
        (if mode \<noteq> RAW
         then any_shard_member (node_id_to_sst_index g)
                (\<lambda>row. Inr (delivered_num (sst g) row subgroup_num
                     < (future_message_indices g subgroup_num - int (window_size g)) * int num_shard_senders
                         + shard_sender_index))
                shard_members
         else any_shard_member (node_id_to_sst_index g)
                (\<lambda>row. and_then (map_at (subgroup_to_num_received_offset g) subgroup_num)
                   (\<lambda>num_received_offset.
                      Inr (num_received (sst g) row (num_received_offset + nat shard_sender_index)
                             < future_message_indices g subgroup_num - int (window_size g))))
                shard_members)
        (\<lambda>window_full.
      if window_full then Inr (None, g)
      else if thread_shutdown g then Inr (None, g)
      else if transfer_medium then
        (if free_message_buffers g subgroup_num = [] then Inr (None, g)
         else case last (free_message_buffers g subgroup_num) of
           None \<Rightarrow> Inl Undefined_behaviour
         | Some b \<Rightarrow>
             let idx = future_message_indices g subgroup_num;
                 buf = b\<lparr>contents := fill_header idx pause cooked\<rparr>;
                 msg = \<lparr>r_sender_id = my_node_id g, r_index = idx,
                        r_size = msg_size, r_message_buffer = Some buf\<rparr>
             in Inr (Some (Bulk_buffer (mr buf)),
                  g\<lparr>free_message_buffers :=
                      (free_message_buffers g)
                        (subgroup_num := butlast (free_message_buffers g subgroup_num)),
                    next_sends := (next_sends g)(subgroup_num := Some msg),
                    future_message_indices :=
                      (future_message_indices g)(subgroup_num := idx + (pause + 1)),
                    last_transfer_medium := (last_transfer_medium g)(subgroup_num := transfer_medium)\<rparr>))
      else
        (case slot of
           None \<Rightarrow> Inr (None, g)
         | Some sl \<Rightarrow>
             Inr (Some (Slot_buffer sl),
               g\<lparr>future_message_indices :=
                    (future_message_indices g)
                      (subgroup_num := future_message_indices g subgroup_num + (pause + 1)),
                 last_transfer_medium := (last_transfer_medium g)(subgroup_num := transfer_medium)\<rparr>))))))))"

definition send :: "subgroup_id_t \<Rightarrow> MulticastGroup \<Rightarrow> error + (bool \<times> MulticastGroup)" where
  "send subgroup_num g =
     (if thread_shutdown g \<or> \<not> rdmc_sst_groups_created g then Inr (False, g)
      else if last_transfer_medium g subgroup_num then
        (case next_sends g subgroup_num of
           None \<Rightarrow> Inl AssertionFailed
         | Some msg \<Rightarrow>
             Inr (True,
               g\<lparr>pending_sends := (pending_sends g)(subgroup_num := pending_sends g subgroup_num @ [msg]),
                 next_sends := (next_sends g)(subgroup_num := None),
                 trace := trace g @ [Notify_all]\<rparr>))
      else Inr (True, g\<lparr>trace := trace g @ [Sst_multicast_send subgroup_num]\<rparr>))"

section \<open>wedge\<close>

text \<open>The loops that consume the handles of one kind, and the rest of \<^verbatim>\<open>wedge\<close>.\<close>

definition remove_handles :: "nat list \<Rightarrow> MulticastGroup \<Rightarrow> MulticastGroup" where
  "remove_handles hs g =
     g\<lparr>sst := fold predicates_remove hs (sst g), trace := trace g @ map Predicates_remove hs\<rparr>"

definition remove_sender_handles :: "MulticastGroup \<Rightarrow> MulticastGroup" where
  "remove_sender_handles g = (remove_handles (sender_pred_handles g) g)\<lparr>sender_pred_handles := []\<rparr>"

definition remove_receiver_handles :: "MulticastGroup \<Rightarrow> MulticastGroup" where
  "remove_receiver_handles g =
     (remove_handles (receiver_pred_handles g) g)\<lparr>receiver_pred_handles := []\<rparr>"

definition remove_stability_handles :: "MulticastGroup \<Rightarrow> MulticastGroup" where
  "remove_stability_handles g =
     (remove_handles (stability_pred_handles g) g)\<lparr>stability_pred_handles := []\<rparr>"

definition remove_delivery_handles :: "MulticastGroup \<Rightarrow> MulticastGroup" where
  "remove_delivery_handles g =
     (remove_handles (delivery_pred_handles g) g)\<lparr>delivery_pred_handles := []\<rparr>"

definition destroy_rdmc_groups :: "MulticastGroup \<Rightarrow> MulticastGroup" where
  "destroy_rdmc_groups g =
     g\<lparr>trace := trace g
          @ map (\<lambda>i. Rdmc_destroy_group (i + rdmc_group_num_offset g)) [0..<num_members g]\<rparr>"

definition stop_sender_thread :: "MulticastGroup \<Rightarrow> MulticastGroup" where
  "stop_sender_thread g =
     (if sender_thread_joinable g
      then g\<lparr>sender_thread_joinable := False, trace := trace g @ [Notify_all, Join_sender_thread]\<rparr>
      else g\<lparr>trace := trace g @ [Notify_all]\<rparr>)"

definition wedge :: "MulticastGroup \<Rightarrow> MulticastGroup" where
  "wedge g =
     (if thread_shutdown g then g
      else stop_sender_thread (destroy_rdmc_groups (remove_delivery_handles
             (remove_stability_handles (remove_receiver_handles (remove_sender_handles
                (g\<lparr>thread_shutdown := True\<rparr>)))))))"

section \<open>The sender thread\<close>

definition should_send_to_subgroup :: "subgroup_id_t \<Rightarrow> MulticastGroup \<Rightarrow> error + bool" where
  "should_send_to_subgroup subgroup_num g =
     (if \<not> rdmc_sst_groups_created g then Inr False
      else if pending_sends g subgroup_num = [] then Inr False
      else
      let msg = hd (pending_sends g subgroup_num) in
      and_then (map_at (subgroup_to_shard_and_rank g) subgroup_num) (\<lambda>shard_and_rank.
      and_then (map_at (subgroup_to_senders_and_sender_rank g) subgroup_num) (\<lambda>(shard_senders, shard_sender_index).
      let num_shard_senders = get_num_senders shard_senders in
      if shard_sender_index < 0 then Inl AssertionFailed
      else
      and_then (map_at (subgroup_to_num_received_offset g) subgroup_num) (\<lambda>num_received_offset.
      if num_received (sst g) (member_index g) (num_received_offset + nat shard_sender_index)
           < r_index msg - 1
      then Inr False
      else
      and_then (map_at (subgroup_to_membership g) subgroup_num) (\<lambda>shard_members.
      if length shard_members < 1 then Inl AssertionFailed
      else
      and_then (map_at (subgroup_to_mode g) subgroup_num) (\<lambda>mode.
      and_then
        (if mode \<noteq> RAW
         then any_shard_member (node_id_to_sst_index g)
                (\<lambda>row. Inr (delivered_num (sst g) row subgroup_num
                       < (r_index msg - int (window_size g)) * int num_shard_senders + shard_sender_index
                     \<or> (file_writer g
                        \<and> persisted_num (sst g) row subgroup_num
                            < (r_index msg - int (window_size g)) * int num_shard_senders
                                + shard_sender_index)))
                shard_members
         else any_shard_member (node_id_to_sst_index g)
                (\<lambda>row. Inr (num_received (sst g) row (num_received_offset + nat shard_sender_index)
                       < future_message_indices g subgroup_num - 1 - int (window_size g)))
                shard_members)
        (\<lambda>held_back. Inr (\<not> held_back))))))))"

text \<open>
  \<^verbatim>\<open>should_send\<close>: the subgroups after \<open>subgroup_to_send\<close>, round robin; the result is
  the subgroup that \<open>subgroup_to_send\<close> is set to, or \<open>None\<close> for \<^verbatim>\<open>false\<close>.
\<close>

fun should_send_from :: "MulticastGroup \<Rightarrow> nat list \<Rightarrow> error + subgroup_id_t option" where
  "should_send_from g [] = Inr None"
| "should_send_from g (i # is) =
     (let subgroup_num = (subgroup_to_send g + i) mod total_num_subgroups g in
      case should_send_to_subgroup subgroup_num g of
        Inl e \<Rightarrow> Inl e
      | Inr b \<Rightarrow> if b then Inr (Some subgroup_num) else should_send_from g is)"

definition should_send :: "MulticastGroup \<Rightarrow> error + subgroup_id_t option" where
  "should_send g = should_send_from g [1..<Suc (total_num_subgroups g)]"

text \<open>
  One pass of the loop of \<^verbatim>\<open>send_loop\<close>, from the wait on the condition variable to the
  end of the body. \<open>rdmc_send_ok\<close> is what \<^verbatim>\<open>rdmc::send\<close> returns. An exception is
  caught by the thread, which then ends; a failed assertion is not.
\<close>

datatype sender_status = Waiting | Issued subgroup_id_t int | Shut_down | Thread_failed

definition send_loop_step :: "bool \<Rightarrow> MulticastGroup \<Rightarrow> error + (sender_status \<times> MulticastGroup)" where
  "send_loop_step rdmc_send_ok g =
     (if thread_shutdown g
      then Inr (Shut_down, g\<lparr>trace := trace g @ [Stdout ''DerechoGroup send thread shutting down'']\<rparr>)
      else
        (case should_send g of
           Inl AssertionFailed \<Rightarrow> Inl AssertionFailed
         | Inl Undefined_behaviour \<Rightarrow> Inl Undefined_behaviour
         | Inl e \<Rightarrow>
             Inr (Thread_failed,
               g\<lparr>trace := trace g @ [Stdout ''DerechoGroup send thread had an exception'']\<rparr>)
         | Inr None \<Rightarrow> Inr (Waiting, g)
         | Inr (Some subgroup_num) \<Rightarrow>
             let g = g\<lparr>subgroup_to_send := subgroup_num\<rparr>;
                 msg = hd (pending_sends g subgroup_num);
                 g = g\<lparr>current_sends := (current_sends g)(subgroup_num := Some msg),
                       pending_sends := (pending_sends g)
                         (subgroup_num := msg\<lparr>r_message_buffer := None\<rparr> # tl (pending_sends g subgroup_num)),
                       trace := trace g @ [Rdmc_send (subgroup_to_rdmc_group g subgroup_num) (r_size msg)]\<rparr>
             in if \<not> rdmc_send_ok
                then Inr (Thread_failed,
                       g\<lparr>trace := trace g @ [Stdout ''DerechoGroup send thread had an exception'']\<rparr>)
                else Inr (Issued subgroup_num (r_index msg),
                       g\<lparr>pending_sends := (pending_sends g)
                            (subgroup_num := tl (pending_sends g subgroup_num))\<rparr>)))"

section \<open>deliver\_message\<close>

text \<open>
  The sender's rank among the senders of its shard, as the loop of \<^verbatim>\<open>deliver_message\<close>
  computes it: the number of senders before the first position of \<open>sender_id\<close> in
  \<open>shard_members\<close>. Reading \<open>shard_senders\<close> beyond its end is undefined.
\<close>

fun sender_rank_in_shard :: "node_id_t \<Rightarrow> node_id_t list \<Rightarrow> int list \<Rightarrow> error + nat" where
  "sender_rank_in_shard sender_id [] shard_senders = Inr 0"
| "sender_rank_in_shard sender_id (m # ms) shard_senders =
     (if m = sender_id then Inr 0
      else (case shard_senders of
              [] \<Rightarrow> Inl Undefined_behaviour
            | f # fs \<Rightarrow>
                (case sender_rank_in_shard sender_id ms fs of
                   Inl e \<Rightarrow> Inl e
                 | Inr r \<Rightarrow> Inr (if f \<noteq> 0 then Suc r else r))))"

definition payload_length :: "nat \<Rightarrow> header \<Rightarrow> nat" where
  "payload_length sz h = (sz + 2 ^ 64 - header_size h mod 2 ^ 64) mod 2 ^ 64"

definition upcall :: "subgroup_id_t \<Rightarrow> node_id_t \<Rightarrow> int \<Rightarrow> nat \<Rightarrow> header \<Rightarrow> event" where
  "upcall subgroup_num sender_id idx sz h =
     (if cooked_send h then Rpc_callback subgroup_num sender_id (payload_length sz h)
      else Global_stability_callback subgroup_num sender_id idx (payload_length sz h))"

definition persistence_sequence_number ::
  "subgroup_id_t \<Rightarrow> node_id_t \<Rightarrow> int \<Rightarrow> MulticastGroup \<Rightarrow> error + int" where
  "persistence_sequence_number subgroup_num sender_id idx g =
     and_then (map_at (subgroup_to_membership g) subgroup_num) (\<lambda>shard_members.
     and_then (map_at (subgroup_to_senders_and_sender_rank g) subgroup_num) (\<lambda>(shard_senders, r).
     let num_shard_senders = get_num_senders shard_senders in
     and_then (sender_rank_in_shard sender_id shard_members shard_senders) (\<lambda>sender_rank.
     Inr (idx * int num_shard_senders + int sender_rank))))"

definition deliver_message :: "RDMCMessage \<Rightarrow> subgroup_id_t \<Rightarrow> MulticastGroup \<Rightarrow> error + MulticastGroup" where
  "deliver_message msg subgroup_num g =
     (if r_size msg > 0 then
        (case r_message_buffer msg of
           None \<Rightarrow> Inl Undefined_behaviour
         | Some buf \<Rightarrow>
             let h = contents buf;
                 g = g\<lparr>trace := trace g
                        @ [upcall subgroup_num (r_sender_id msg) (r_index msg) (r_size msg) h]\<rparr>
             in if file_writer g then
                  and_then (persistence_sequence_number subgroup_num (r_sender_id msg) (r_index msg) g)
                    (\<lambda>sequence_number.
                       Inr (g\<lparr>non_persistent_messages := (non_persistent_messages g)
                                (subgroup_num :=
                                   map_emplace sequence_number msg (non_persistent_messages g subgroup_num)),
                              trace := trace g
                                @ [Write_message (r_size msg) (vid (sst g) (member_index g) mod 2 ^ 32)
                                     (r_sender_id msg) (r_index msg) (cooked_send h)]\<rparr>))
                else Inr (g\<lparr>free_message_buffers := (free_message_buffers g)
                              (subgroup_num := free_message_buffers g subgroup_num @ [Some buf])\<rparr>))
      else Inr g)"

definition deliver_message_sst :: "SSTMessage \<Rightarrow> subgroup_id_t \<Rightarrow> MulticastGroup \<Rightarrow> error + MulticastGroup" where
  "deliver_message_sst msg subgroup_num g =
     (if s_size msg > 0 then
        (case s_buf msg of
           None \<Rightarrow> Inl Undefined_behaviour
         | Some h \<Rightarrow>
             let g = g\<lparr>trace := trace g
                        @ [upcall subgroup_num (s_sender_id msg) (s_index msg) (s_size msg) h]\<rparr>
             in if file_writer g then
                  and_then (persistence_sequence_number subgroup_num (s_sender_id msg) (s_index msg) g)
                    (\<lambda>sequence_number.
                       Inr (g\<lparr>non_persistent_sst_messages := (non_persistent_sst_messages g)
                                (subgroup_num :=
                                   map_emplace sequence_number msg (non_persistent_sst_messages g subgroup_num)),
                              trace := trace g
                                @ [Write_message (s_size msg) (vid (sst g) (member_index g) mod 2 ^ 32)
                                     (s_sender_id msg) (s_index msg) (cooked_send h)]\<rparr>))
                else Inr g)
      else Inr g)"

section \<open>The stability, delivery and sender predicates\<close>

text \<open>
  The triggers are closures that \<^verbatim>\<open>register_predicates\<close> builds for one subgroup; what
  a closure captures is an argument here.
\<close>

fun min_over_members ::
  "(nat \<Rightarrow> int) \<Rightarrow> (node_id_t \<rightharpoonup> nat) \<Rightarrow> int \<Rightarrow> node_id_t list \<Rightarrow> error + int" where
  "min_over_members col idx acc [] = Inr acc"
| "min_over_members col idx acc (m # ms) =
     (case idx m of
        None \<Rightarrow> Inl OutOfRange
      | Some row \<Rightarrow> min_over_members col idx (if col row < acc then col row else acc) ms)"

definition min_of_shard ::
  "(nat \<Rightarrow> int) \<Rightarrow> node_id_t list \<Rightarrow> MulticastGroup \<Rightarrow> error + int" where
  "min_of_shard col shard_members g =
     (case shard_members of
        [] \<Rightarrow> Inl Undefined_behaviour
      | m0 # ms \<Rightarrow>
          and_then (map_at (node_id_to_sst_index g) m0) (\<lambda>row0.
            min_over_members col (node_id_to_sst_index g) (col row0) shard_members))"

definition stability_trig ::
  "subgroup_id_t \<Rightarrow> node_id_t list \<Rightarrow> nat list \<Rightarrow> MulticastGroup \<Rightarrow> error + MulticastGroup" where
  "stability_trig subgroup_num shard_members shard_sst_indices g =
     and_then (min_of_shard (\<lambda>row. seq_num (sst g) row subgroup_num) shard_members g)
       (\<lambda>min_seq_num.
          if min_seq_num > stable_num (sst g) (member_index g) subgroup_num
          then Inr (g\<lparr>sst := (sst g)\<lparr>stable_num :=
                          set_cell (stable_num (sst g)) (member_index g) subgroup_num min_seq_num\<rparr>,
                      trace := trace g @ [Put (Some shard_sst_indices) (Stable_num subgroup_num)]\<rparr>)
          else Inr g)"

definition LLONG_MAX :: int where
  "LLONG_MAX = 2 ^ 63 - 1"

definition least_undelivered :: "(int \<times> 'v) list \<Rightarrow> int" where
  "least_undelivered q = (case q of [] \<Rightarrow> LLONG_MAX | (k, v) # rest \<Rightarrow> k)"

text \<open>One pass of the \<^verbatim>\<open>while(true)\<close> loop of the delivery trigger; \<open>None\<close> is \<^verbatim>\<open>break\<close>.\<close>

definition delivery_step :: "subgroup_id_t \<Rightarrow> int \<Rightarrow> MulticastGroup \<Rightarrow> error + MulticastGroup option" where
  "delivery_step subgroup_num min_stable_num g =
     (if locally_stable_rdmc_messages g subgroup_num = [] \<and> locally_stable_sst_messages g subgroup_num = []
      then Inr None
      else
        let least_undelivered_rdmc_seq_num = least_undelivered (locally_stable_rdmc_messages g subgroup_num);
            least_undelivered_sst_seq_num = least_undelivered (locally_stable_sst_messages g subgroup_num)
        in if least_undelivered_rdmc_seq_num < least_undelivered_sst_seq_num
              \<and> least_undelivered_rdmc_seq_num \<le> min_stable_num
           then (case locally_stable_rdmc_messages g subgroup_num of
                   [] \<Rightarrow> Inl Undefined_behaviour
                 | (k, msg) # rest \<Rightarrow>
                     (case deliver_message msg subgroup_num g of
                        Inl e \<Rightarrow> Inl e
                      | Inr g \<Rightarrow>
                          Inr (Some (g\<lparr>sst := (sst g)\<lparr>delivered_num :=
                                 set_cell (delivered_num (sst g)) (member_index g) subgroup_num
                                   least_undelivered_rdmc_seq_num\<rparr>,
                               locally_stable_rdmc_messages :=
                                 (locally_stable_rdmc_messages g)(subgroup_num := rest)\<rparr>))))
           else if least_undelivered_sst_seq_num < least_undelivered_rdmc_seq_num
                   \<and> least_undelivered_sst_seq_num \<le> min_stable_num
           then (case locally_stable_sst_messages g subgroup_num of
                   [] \<Rightarrow> Inl Undefined_behaviour
                 | (k, msg) # rest \<Rightarrow>
                     (case deliver_message_sst msg subgroup_num g of
                        Inl e \<Rightarrow> Inl e
                      | Inr g \<Rightarrow>
                          Inr (Some (g\<lparr>sst := (sst g)\<lparr>delivered_num :=
                                 set_cell (delivered_num (sst g)) (member_index g) subgroup_num
                                   least_undelivered_sst_seq_num\<rparr>,
                               locally_stable_sst_messages :=
                                 (locally_stable_sst_messages g)(subgroup_num := rest)\<rparr>))))
           else Inr None)"

definition queued :: "subgroup_id_t \<Rightarrow> MulticastGroup \<Rightarrow> nat" where
  "queued subgroup_num g =
     length (locally_stable_rdmc_messages g subgroup_num)
       + length (locally_stable_sst_messages g subgroup_num)"

function delivery_loop ::
  "subgroup_id_t \<Rightarrow> int \<Rightarrow> bool \<Rightarrow> MulticastGroup \<Rightarrow> error + (bool \<times> MulticastGroup)" where
  "delivery_loop subgroup_num min_stable_num update_sst g =
     (case delivery_step subgroup_num min_stable_num g of
        Inl e \<Rightarrow> Inl e
      | Inr None \<Rightarrow> Inr (update_sst, g)
      | Inr (Some g') \<Rightarrow>
          delivery_loop subgroup_num min_stable_num True g')"
  by pat_completeness auto
termination
  apply (relation "measure (\<lambda>(subgroup_num, min_stable_num, update_sst, g). queued subgroup_num g)")
   apply simp
  apply (auto simp: delivery_step_def queued_def deliver_message_def deliver_message_sst_def and_then_def Let_def
      split: if_splits list.splits sum.splits option.splits)
  done

declare delivery_loop.simps [simp del]

definition delivery_trig ::
  "subgroup_id_t \<Rightarrow> node_id_t list \<Rightarrow> MulticastGroup \<Rightarrow> error + MulticastGroup" where
  "delivery_trig subgroup_num shard_members g =
     and_then (min_of_shard (\<lambda>row. stable_num (sst g) row subgroup_num) shard_members g)
       (\<lambda>min_stable_num.
     and_then (delivery_loop subgroup_num min_stable_num False g) (\<lambda>(update_sst, g).
       if update_sst
       then and_then (get_shard_sst_indices subgroup_num g) (\<lambda>shard_sst_indices.
              Inr (g\<lparr>trace := trace g @ [Put (Some shard_sst_indices) (Delivered_num subgroup_num)]\<rparr>))
       else Inr g))"

definition sender_pred ::
  "subgroup_id_t \<Rightarrow> node_id_t list \<Rightarrow> int \<Rightarrow> nat \<Rightarrow> MulticastGroup \<Rightarrow> error + bool" where
  "sender_pred subgroup_num shard_members shard_sender_index num_shard_senders g =
     (let seq = next_message_to_deliver g subgroup_num * int num_shard_senders + shard_sender_index in
      and_then
        (any_shard_member (node_id_to_sst_index g)
           (\<lambda>row. Inr (delivered_num (sst g) row subgroup_num < seq
                     \<or> (file_writer g \<and> persisted_num (sst g) row subgroup_num < seq)))
           shard_members)
        (\<lambda>behind. Inr (\<not> behind)))"

definition sender_trig :: "subgroup_id_t \<Rightarrow> MulticastGroup \<Rightarrow> MulticastGroup" where
  "sender_trig subgroup_num g =
     g\<lparr>trace := trace g @ [Notify_all],
       next_message_to_deliver :=
         (next_message_to_deliver g)(subgroup_num := next_message_to_deliver g subgroup_num + 1)\<rparr>"

definition sender_pred_raw ::
  "subgroup_id_t \<Rightarrow> node_id_t list \<Rightarrow> int \<Rightarrow> MulticastGroup \<Rightarrow> error + bool" where
  "sender_pred_raw subgroup_num shard_members shard_sender_index g =
     and_then
       (any_shard_member (node_id_to_sst_index g)
          (\<lambda>row. and_then (map_at (subgroup_to_num_received_offset g) subgroup_num)
             (\<lambda>num_received_offset.
                Inr (num_received (sst g) row (num_received_offset + nat shard_sender_index)
                       < future_message_indices g subgroup_num - 1 - int (window_size g))))
          shard_members)
       (\<lambda>behind. Inr (\<not> behind))"

definition sender_trig_raw :: "subgroup_id_t \<Rightarrow> MulticastGroup \<Rightarrow> MulticastGroup" where
  "sender_trig_raw subgroup_num g = g\<lparr>trace := trace g @ [Notify_all]\<rparr>"

section \<open>deliver\_messages\_upto\<close>

definition max_seq_num_upto :: "int list \<Rightarrow> nat \<Rightarrow> int \<Rightarrow> int" where
  "max_seq_num_upto max_indices_for_senders num_shard_senders curr_seq_num =
     fold (\<lambda>sender max_seq_num.
             max max_seq_num (max_indices_for_senders ! sender * int num_shard_senders + int sender))
       [0..<num_shard_senders] curr_seq_num"

text \<open>The body of the loop over \<open>seq_num\<close>.\<close>

definition deliver_upto_step :: "subgroup_id_t \<Rightarrow> int \<Rightarrow> MulticastGroup \<Rightarrow> error + MulticastGroup" where
  "deliver_upto_step subgroup_num seq g =
     (case map_of (locally_stable_rdmc_messages g subgroup_num) seq of
        Some msg \<Rightarrow>
          and_then (deliver_message msg subgroup_num g) (\<lambda>g.
            Inr (g\<lparr>locally_stable_rdmc_messages := (locally_stable_rdmc_messages g)
                     (subgroup_num := map_erase seq (locally_stable_rdmc_messages g subgroup_num))\<rparr>))
      | None \<Rightarrow>
          (case map_of (locally_stable_sst_messages g subgroup_num) seq of
             Some msg \<Rightarrow>
               and_then (deliver_message_sst msg subgroup_num g) (\<lambda>g.
                 Inr (g\<lparr>locally_stable_sst_messages := (locally_stable_sst_messages g)
                          (subgroup_num := map_erase seq (locally_stable_sst_messages g subgroup_num))\<rparr>))
           | None \<Rightarrow> Inr g))"

function deliver_range :: "subgroup_id_t \<Rightarrow> int \<Rightarrow> int \<Rightarrow> MulticastGroup \<Rightarrow> error + MulticastGroup" where
  "deliver_range subgroup_num seq max_seq_num g =
     (if seq \<le> max_seq_num
      then (case deliver_upto_step subgroup_num seq g of
              Inl e \<Rightarrow> Inl e
            | Inr g' \<Rightarrow> deliver_range subgroup_num (seq + 1) max_seq_num g')
      else Inr g)"
  by pat_completeness auto
termination
  by (relation "measure (\<lambda>(subgroup_num, seq, max_seq_num, g). nat (max_seq_num + 1 - seq))") auto

declare deliver_range.simps [simp del]

definition deliver_messages_upto ::
  "int list \<Rightarrow> subgroup_id_t \<Rightarrow> nat \<Rightarrow> MulticastGroup \<Rightarrow> error + MulticastGroup" where
  "deliver_messages_upto max_indices_for_senders subgroup_num num_shard_senders g =
     (if length max_indices_for_senders \<noteq> num_shard_senders then Inl AssertionFailed
      else
        let curr_seq_num = delivered_num (sst g) (member_index g) subgroup_num;
            max_seq_num = max_seq_num_upto max_indices_for_senders num_shard_senders curr_seq_num
        in deliver_range subgroup_num curr_seq_num max_seq_num g)"

section \<open>The callback of the file writer\<close>

text \<open>The record that the file writer hands back; \<open>pm_index\<close> is a 64-bit unsigned value.\<close>

record persistence_message =
  pm_subgroup_num :: subgroup_id_t
  pm_sender :: node_id_t
  pm_index :: nat
  pm_length :: nat

fun index_of :: "'a list \<Rightarrow> 'a \<Rightarrow> nat" where
  "index_of [] elem = 0"
| "index_of (x # xs) elem = (if x = elem then 0 else Suc (index_of xs elem))"

definition to_long_long :: "nat \<Rightarrow> int" where
  "to_long_long u = (if u mod 2 ^ 64 < 2 ^ 63 then int (u mod 2 ^ 64) else int (u mod 2 ^ 64) - 2 ^ 64)"

definition file_written_callback :: "persistence_message \<Rightarrow> MulticastGroup \<Rightarrow> error + MulticastGroup" where
  "file_written_callback m g =
     (let g = g\<lparr>trace := trace g
                  @ [Local_persistence_callback (pm_subgroup_num m) (pm_sender m) (pm_index m)]\<rparr>;
          sender_rank = index_of (members g) (pm_sender m);
          sequence_number = to_long_long (pm_index m * num_members g + sender_rank)
      in case map_of (non_persistent_messages g (pm_subgroup_num m)) sequence_number of
           None \<Rightarrow> Inl AssertionFailed
         | Some m_msg \<Rightarrow>
             let g = g\<lparr>free_message_buffers := (free_message_buffers g)
                        (pm_subgroup_num m :=
                           free_message_buffers g (pm_subgroup_num m) @ [r_message_buffer m_msg]),
                      non_persistent_messages := (non_persistent_messages g)
                        (pm_subgroup_num m :=
                           map_erase sequence_number (non_persistent_messages g (pm_subgroup_num m))),
                      sst := (sst g)\<lparr>persisted_num :=
                        set_cell (persisted_num (sst g)) (member_index g) (pm_subgroup_num m)
                          sequence_number\<rparr>\<rparr>
             in and_then (get_shard_sst_indices (pm_subgroup_num m) g) (\<lambda>shard_sst_indices.
                  Inr (g\<lparr>trace := trace g
                         @ [Put (Some shard_sst_indices) (Persisted_num (pm_subgroup_num m))]\<rparr>)))"

section \<open>The receive handlers\<close>

text \<open>
  \<^verbatim>\<open>resolve_num_received\<close> is declared in a header file and defined in no source file
  that is present. It is an argument of the handlers: from \<open>beg_index\<close>, \<open>end_index\<close>,
  the entry of \<open>num_received\<close> and the group it gives the new value of that entry and
  the new \<open>received_intervals\<close>, its own bookkeeping.
\<close>

type_synonym resolver = "int \<Rightarrow> int \<Rightarrow> nat \<Rightarrow> MulticastGroup \<Rightarrow> int \<times> (nat \<Rightarrow> int list)"

text \<open>\<^verbatim>\<open>std::min_element\<close> on the entries from \<open>first\<close> up to, not including, \<open>past_end\<close>: the first least one.\<close>

definition min_element :: "(nat \<Rightarrow> int) \<Rightarrow> nat \<Rightarrow> nat \<Rightarrow> nat" where
  "min_element a first past_end =
     fold (\<lambda>i smallest. if a i < a smallest then i else smallest) [Suc first..<past_end] first"

definition new_seq_num_of :: "nat \<Rightarrow> nat \<Rightarrow> MulticastGroup \<Rightarrow> int" where
  "new_seq_num_of num_received_offset num_shard_senders g =
     (let row = num_received (sst g) (member_index g);
          min_ptr = min_element row num_received_offset (num_received_offset + num_shard_senders);
          min_index = min_ptr - num_received_offset
      in (row min_ptr + 1) * int num_shard_senders + int min_index - 1)"

definition skipped_turn_rdmc :: "node_id_t \<Rightarrow> int \<Rightarrow> RDMCMessage" where
  "skipped_turn_rdmc node_id idx =
     \<lparr>r_sender_id = node_id, r_index = idx, r_size = 0, r_message_buffer = None\<rparr>"

definition skipped_turn_sst :: "node_id_t \<Rightarrow> int \<Rightarrow> SSTMessage" where
  "skipped_turn_sst node_id idx =
     \<lparr>s_sender_id = node_id, s_index = idx, s_size = 0, s_buf = None\<rparr>"

text \<open>
  The loop of the handlers in raw mode, for one value of \<open>i\<close>: the upcall for the
  message at the head of a queue. The counter \<open>i\<close> is a 32-bit unsigned value in the
  source and an integer here.
\<close>

definition raw_deliver_one :: "subgroup_id_t \<Rightarrow> int \<Rightarrow> MulticastGroup \<Rightarrow> error + MulticastGroup" where
  "raw_deliver_one subgroup_num seq g =
     (if locally_stable_sst_messages g subgroup_num \<noteq> []
         \<and> fst (hd (locally_stable_sst_messages g subgroup_num)) = seq
      then
        let msg = snd (hd (locally_stable_sst_messages g subgroup_num)) in
        and_then
          (if s_size msg > 0
           then (case s_buf msg of
                   None \<Rightarrow> Inl Undefined_behaviour
                 | Some h \<Rightarrow>
                     Inr (g\<lparr>trace := trace g
                            @ [Global_stability_callback subgroup_num (s_sender_id msg) (s_index msg)
                                 (payload_length (s_size msg) h)]\<rparr>))
           else Inr g)
          (\<lambda>g. Inr (g\<lparr>locally_stable_sst_messages := (locally_stable_sst_messages g)
                        (subgroup_num := tl (locally_stable_sst_messages g subgroup_num))\<rparr>))
      else
        (case locally_stable_rdmc_messages g subgroup_num of
           [] \<Rightarrow> Inl AssertionFailed
         | (k, msg) # rest \<Rightarrow>
             if k \<noteq> seq then Inl AssertionFailed
             else
               and_then
                 (if r_size msg > 0
                  then (case r_message_buffer msg of
                          None \<Rightarrow> Inl Undefined_behaviour
                        | Some buf \<Rightarrow>
                            Inr (g\<lparr>trace := trace g
                                   @ [Global_stability_callback subgroup_num (r_sender_id msg) (r_index msg)
                                        (payload_length (r_size msg) (contents buf))],
                                  free_message_buffers := (free_message_buffers g)
                                    (subgroup_num := free_message_buffers g subgroup_num @ [Some buf])\<rparr>))
                  else Inr g)
                 (\<lambda>g. Inr (g\<lparr>locally_stable_rdmc_messages :=
                               (locally_stable_rdmc_messages g)(subgroup_num := rest)\<rparr>))))"

fun raw_deliver ::
  "subgroup_id_t \<Rightarrow> nat \<Rightarrow> nat \<Rightarrow> int list \<Rightarrow> MulticastGroup \<Rightarrow> error + MulticastGroup" where
  "raw_deliver subgroup_num num_shard_senders sender_rank [] g = Inr g"
| "raw_deliver subgroup_num num_shard_senders sender_rank (i # is) g =
     (case raw_deliver_one subgroup_num (i * int num_shard_senders + int sender_rank) g of
        Inl e \<Rightarrow> Inl e
      | Inr g' \<Rightarrow> raw_deliver subgroup_num num_shard_senders sender_rank is g')"

definition raw_mode_upcalls ::
  "subgroup_id_t \<Rightarrow> nat \<Rightarrow> nat \<Rightarrow> nat \<Rightarrow> int \<Rightarrow> MulticastGroup \<Rightarrow> error + MulticastGroup" where
  "raw_mode_upcalls subgroup_num num_shard_senders sender_rank entry new_num_received g =
     and_then (map_at (subgroup_to_mode g) subgroup_num) (\<lambda>mode.
       if mode = RAW
       then raw_deliver subgroup_num num_shard_senders sender_rank
              [num_received (sst g) (member_index g) entry + 1..new_num_received] g
       else Inr g)"

text \<open>
  The handler that RDMC calls when a bulk message has arrived, in the order of the
  source: the message moves to the locally stable messages, the turns that the sender
  skips get empty messages, raw mode issues its upcalls, and an advance of
  \<open>num_received\<close> is published. The argument \<^verbatim>\<open>data\<close> of the handler points at the
  buffer of the message, so the header \<open>h\<close> that the handler reads there is the header
  in that buffer.
\<close>

definition received_into :: "header \<Rightarrow> RDMCMessage \<Rightarrow> RDMCMessage" where
  "received_into h msg =
     msg\<lparr>r_message_buffer := map_option (\<lambda>buf. buf\<lparr>contents := h\<rparr>) (r_message_buffer msg)\<rparr>"

definition move_to_locally_stable ::
  "subgroup_id_t \<Rightarrow> node_id_t \<Rightarrow> int \<Rightarrow> header \<Rightarrow> MulticastGroup \<Rightarrow> error + MulticastGroup" where
  "move_to_locally_stable subgroup_num node_id sequence_number h g =
     (if node_id = my_node_id g
      then (case current_sends g subgroup_num of
              None \<Rightarrow> Inl AssertionFailed
            | Some msg \<Rightarrow>
                Inr (g\<lparr>locally_stable_rdmc_messages := (locally_stable_rdmc_messages g)
                         (subgroup_num :=
                            map_assign sequence_number (received_into h msg)
                              (locally_stable_rdmc_messages g subgroup_num)),
                       current_sends := (current_sends g)(subgroup_num := None)\<rparr>))
      else (case map_of (current_receives g) (subgroup_num, sequence_number) of
              None \<Rightarrow> Inl AssertionFailed
            | Some msg \<Rightarrow>
                Inr (g\<lparr>locally_stable_rdmc_messages := (locally_stable_rdmc_messages g)
                         (subgroup_num :=
                            map_emplace sequence_number (received_into h msg)
                              (locally_stable_rdmc_messages g subgroup_num)),
                       current_receives :=
                         map_erase (subgroup_num, sequence_number) (current_receives g)\<rparr>)))"

definition skipped_turns_rdmc ::
  "subgroup_id_t \<Rightarrow> node_id_t \<Rightarrow> nat \<Rightarrow> int \<Rightarrow> int \<Rightarrow> nat \<Rightarrow> MulticastGroup \<Rightarrow> MulticastGroup" where
  "skipped_turns_rdmc subgroup_num node_id num_shard_senders sequence_number beg_index turns g =
     fold (\<lambda>j g. g\<lparr>locally_stable_rdmc_messages := (locally_stable_rdmc_messages g)
                  (subgroup_num :=
                     map_assign (sequence_number + int j * int num_shard_senders)
                       (skipped_turn_rdmc node_id (beg_index + int j))
                       (locally_stable_rdmc_messages g subgroup_num))\<rparr>)
       [1..<Suc turns] g"

definition publish_num_received ::
  "subgroup_id_t \<Rightarrow> nat \<Rightarrow> nat \<Rightarrow> nat \<Rightarrow> nat list \<Rightarrow> int \<Rightarrow> MulticastGroup \<Rightarrow> MulticastGroup" where
  "publish_num_received subgroup_num num_received_offset sender_rank num_shard_senders
       shard_sst_indices new_num_received g =
     (let entry = num_received_offset + sender_rank in
      if new_num_received > num_received (sst g) (member_index g) entry
      then
        let g = g\<lparr>sst := (sst g)\<lparr>num_received :=
                     set_cell (num_received (sst g)) (member_index g) entry new_num_received\<rparr>\<rparr>;
            new_seq_num = new_seq_num_of num_received_offset num_shard_senders g;
            g = (if new_seq_num > seq_num (sst g) (member_index g) subgroup_num
                 then g\<lparr>sst := (sst g)\<lparr>seq_num :=
                           set_cell (seq_num (sst g)) (member_index g) subgroup_num new_seq_num\<rparr>,
                        trace := trace g @ [Put (Some shard_sst_indices) (Seq_num subgroup_num)]\<rparr>
                 else g)
        in g\<lparr>trace := trace g @ [Put (Some shard_sst_indices) (Num_received entry 1)]\<rparr>
      else g)"

definition rdmc_receive_handler ::
  "resolver \<Rightarrow> subgroup_id_t \<Rightarrow> nat \<Rightarrow> node_id_t \<Rightarrow> nat \<Rightarrow> nat list \<Rightarrow> header \<Rightarrow> MulticastGroup
     \<Rightarrow> error + MulticastGroup" where
  "rdmc_receive_handler resolve_num_received subgroup_num sender_rank node_id num_shard_senders
       shard_sst_indices h g =
     and_then (map_at (subgroup_to_num_received_offset g) subgroup_num) (\<lambda>num_received_offset.
     let beg_index = h_index h;
         sequence_number = beg_index * int num_shard_senders + int sender_rank
     in
     and_then (move_to_locally_stable subgroup_num node_id sequence_number h g) (\<lambda>g.
     let g = skipped_turns_rdmc subgroup_num node_id num_shard_senders sequence_number beg_index
               (pause_sending_turns h) g;
         index = beg_index + int (pause_sending_turns h);
         entry = num_received_offset + sender_rank;
         (new_num_received, intervals) = resolve_num_received beg_index index entry g;
         g = g\<lparr>received_intervals := intervals\<rparr>
     in
     and_then (raw_mode_upcalls subgroup_num num_shard_senders sender_rank entry new_num_received g)
       (\<lambda>g.
     Inr (publish_num_received subgroup_num num_received_offset sender_rank num_shard_senders
            shard_sst_indices new_num_received g))))"

text \<open>
  The completion callback of the RDMC group in which this node is the sender: the
  handler, and then the notification of the sender thread.
\<close>

definition receive_handler_plus_notify ::
  "resolver \<Rightarrow> subgroup_id_t \<Rightarrow> nat \<Rightarrow> node_id_t \<Rightarrow> nat \<Rightarrow> nat list \<Rightarrow> header \<Rightarrow> MulticastGroup
     \<Rightarrow> error + MulticastGroup" where
  "receive_handler_plus_notify resolve_num_received subgroup_num sender_rank node_id
       num_shard_senders shard_sst_indices h g =
     and_then (rdmc_receive_handler resolve_num_received subgroup_num sender_rank node_id
                 num_shard_senders shard_sst_indices h g)
       (\<lambda>g. Inr (g\<lparr>trace := trace g @ [Notify_all]\<rparr>))"

text \<open>
  The slot path. \<open>shard_ranks_by_sender_rank\<close> is the map that \<^verbatim>\<open>register_predicates\<close>
  builds from the sender flags of the shard; the closures capture it.
\<close>

definition sender_node :: "(nat \<rightharpoonup> nat) \<Rightarrow> node_id_t list \<Rightarrow> nat \<Rightarrow> error + node_id_t" where
  "sender_node shard_ranks_by_sender_rank shard_members j =
     and_then (map_at shard_ranks_by_sender_rank j) (\<lambda>shard_rank.
       if shard_rank < length shard_members then Inr (shard_members ! shard_rank)
       else Inl Undefined_behaviour)"

definition skipped_turns_sst ::
  "subgroup_id_t \<Rightarrow> node_id_t \<Rightarrow> nat \<Rightarrow> int \<Rightarrow> int \<Rightarrow> nat \<Rightarrow> MulticastGroup \<Rightarrow> MulticastGroup" where
  "skipped_turns_sst subgroup_num node_id num_shard_senders sequence_number beg_index turns g =
     fold (\<lambda>j g. g\<lparr>locally_stable_sst_messages := (locally_stable_sst_messages g)
                  (subgroup_num :=
                     map_assign (sequence_number + int j * int num_shard_senders)
                       (skipped_turn_sst node_id (beg_index + int j))
                       (locally_stable_sst_messages g subgroup_num))\<rparr>)
       [1..<Suc turns] g"

definition sst_receive_handler ::
  "resolver \<Rightarrow> subgroup_id_t \<Rightarrow> node_id_t list \<Rightarrow> (nat \<rightharpoonup> nat) \<Rightarrow> nat \<Rightarrow> nat \<Rightarrow>
     nat \<Rightarrow> header \<Rightarrow> nat \<Rightarrow> MulticastGroup \<Rightarrow> error + MulticastGroup" where
  "sst_receive_handler resolve_num_received subgroup_num shard_members shard_ranks_by_sender_rank
       num_shard_senders num_received_offset sender_rank h sz g =
     (let beg_index = h_index h;
          sequence_number = beg_index * int num_shard_senders + int sender_rank
      in
      and_then (sender_node shard_ranks_by_sender_rank shard_members sender_rank) (\<lambda>node_id.
      let g = g\<lparr>locally_stable_sst_messages := (locally_stable_sst_messages g)
                  (subgroup_num :=
                     map_assign sequence_number
                       \<lparr>s_sender_id = node_id, s_index = beg_index, s_size = sz, s_buf = Some h\<rparr>
                       (locally_stable_sst_messages g subgroup_num))\<rparr>;
          g = skipped_turns_sst subgroup_num node_id num_shard_senders sequence_number beg_index
                (pause_sending_turns h) g;
          index = beg_index + int (pause_sending_turns h);
          entry = num_received_offset + sender_rank;
          (new_num_received, intervals) = resolve_num_received beg_index index entry g;
          g = g\<lparr>received_intervals := intervals\<rparr>
      in
      and_then (raw_mode_upcalls subgroup_num num_shard_senders sender_rank entry new_num_received g)
        (\<lambda>g.
      Inr (g\<lparr>sst := (sst g)\<lparr>num_received :=
                 set_cell (num_received (sst g)) (member_index g) entry new_num_received\<rparr>\<rparr>))))"

text \<open>
  The slot that the receiver predicate and trigger look at for sender \<open>j\<close>, and
  whether it holds the next message. The window size is at least one by the
  assertion of the constructor; a division by zero is undefined.
\<close>

definition next_slot ::
  "subgroup_id_t \<Rightarrow> node_id_t list \<Rightarrow> (nat \<rightharpoonup> nat) \<Rightarrow> nat \<Rightarrow> nat \<Rightarrow> MulticastGroup
     \<Rightarrow> error + (bool \<times> int \<times> slot)" where
  "next_slot subgroup_num shard_members shard_ranks_by_sender_rank num_received_offset j g =
     (if window_size g = 0 then Inl Undefined_behaviour
      else
        let num_rcvd = num_received_sst (sst g) (member_index g) (num_received_offset + j) + 1;
            slot_num = nat ((num_rcvd smod int (window_size g)) mod 2 ^ 32)
        in
        and_then (sender_node shard_ranks_by_sender_rank shard_members j) (\<lambda>node_id.
        and_then (map_at (node_id_to_sst_index g) node_id) (\<lambda>row.
        let sl = slots (sst g) row (subgroup_num * window_size g + slot_num)
        in Inr (next_seq sl = num_rcvd sdiv int (window_size g) + 1, num_rcvd, sl))))"

fun receiver_pred_from ::
  "subgroup_id_t \<Rightarrow> node_id_t list \<Rightarrow> (nat \<rightharpoonup> nat) \<Rightarrow> nat \<Rightarrow> nat list \<Rightarrow> MulticastGroup
     \<Rightarrow> error + bool" where
  "receiver_pred_from subgroup_num shard_members ranks num_received_offset [] g = Inr False"
| "receiver_pred_from subgroup_num shard_members ranks num_received_offset (j # js) g =
     (case next_slot subgroup_num shard_members ranks num_received_offset j g of
        Inl e \<Rightarrow> Inl e
      | Inr (ready, num_rcvd, sl) \<Rightarrow>
          if ready then Inr True
          else receiver_pred_from subgroup_num shard_members ranks num_received_offset js g)"

definition receiver_pred ::
  "subgroup_id_t \<Rightarrow> node_id_t list \<Rightarrow> (nat \<rightharpoonup> nat) \<Rightarrow> nat \<Rightarrow> nat \<Rightarrow> MulticastGroup \<Rightarrow> error + bool" where
  "receiver_pred subgroup_num shard_members ranks num_shard_senders num_received_offset g =
     receiver_pred_from subgroup_num shard_members ranks num_received_offset [0..<num_shard_senders] g"

fun receive_from_senders ::
  "resolver \<Rightarrow> subgroup_id_t \<Rightarrow> node_id_t list \<Rightarrow> (nat \<rightharpoonup> nat) \<Rightarrow> nat \<Rightarrow> nat \<Rightarrow> nat list
     \<Rightarrow> MulticastGroup \<Rightarrow> error + MulticastGroup" where
  "receive_from_senders resolve subgroup_num shard_members ranks num_shard_senders num_received_offset [] g =
     Inr g"
| "receive_from_senders resolve subgroup_num shard_members ranks num_shard_senders num_received_offset
       (j # js) g =
     (case next_slot subgroup_num shard_members ranks num_received_offset j g of
        Inl e \<Rightarrow> Inl e
      | Inr (ready, num_rcvd, sl) \<Rightarrow>
          (case (if ready
                 then and_then
                        (sst_receive_handler resolve subgroup_num shard_members ranks num_shard_senders
                           num_received_offset j (slot_buf sl) (slot_size sl) g)
                        (\<lambda>g. Inr (g\<lparr>sst := (sst g)\<lparr>num_received_sst :=
                                 set_cell (num_received_sst (sst g)) (member_index g)
                                   (num_received_offset + j) num_rcvd\<rparr>\<rparr>))
                 else Inr g) of
             Inl e \<Rightarrow> Inl e
           | Inr g' \<Rightarrow>
               receive_from_senders resolve subgroup_num shard_members ranks num_shard_senders
                 num_received_offset js g'))"

fun receive_rounds ::
  "resolver \<Rightarrow> subgroup_id_t \<Rightarrow> node_id_t list \<Rightarrow> (nat \<rightharpoonup> nat) \<Rightarrow> nat \<Rightarrow> nat \<Rightarrow> nat
     \<Rightarrow> MulticastGroup \<Rightarrow> error + MulticastGroup" where
  "receive_rounds resolve subgroup_num shard_members ranks num_shard_senders num_received_offset 0 g =
     Inr g"
| "receive_rounds resolve subgroup_num shard_members ranks num_shard_senders num_received_offset
       (Suc n) g =
     (case receive_from_senders resolve subgroup_num shard_members ranks num_shard_senders
             num_received_offset [0..<num_shard_senders] g of
        Inl e \<Rightarrow> Inl e
      | Inr g' \<Rightarrow>
          receive_rounds resolve subgroup_num shard_members ranks num_shard_senders
            num_received_offset n g')"

text \<open>The end of the receiver trigger: the new sequence number and the three writes.\<close>

definition publish_received_slots ::
  "subgroup_id_t \<Rightarrow> nat \<Rightarrow> nat \<Rightarrow> MulticastGroup \<Rightarrow> MulticastGroup" where
  "publish_received_slots subgroup_num num_received_offset num_shard_senders g =
     (let g = g\<lparr>trace := trace g @ [Put None (Num_received_sst num_received_offset num_shard_senders)]\<rparr>;
          new_seq_num = new_seq_num_of num_received_offset num_shard_senders g;
          g = (if new_seq_num > seq_num (sst g) (member_index g) subgroup_num
               then g\<lparr>sst := (sst g)\<lparr>seq_num :=
                         set_cell (seq_num (sst g)) (member_index g) subgroup_num new_seq_num\<rparr>,
                      trace := trace g @ [Put None (Seq_num subgroup_num)]\<rparr>
               else g)
      in g\<lparr>trace := trace g @ [Put None (Num_received num_received_offset num_shard_senders)]\<rparr>)"

definition receiver_trig ::
  "resolver \<Rightarrow> subgroup_id_t \<Rightarrow> node_id_t list \<Rightarrow> (nat \<rightharpoonup> nat) \<Rightarrow> nat \<Rightarrow> nat \<Rightarrow> MulticastGroup
     \<Rightarrow> error + MulticastGroup" where
  "receiver_trig resolve subgroup_num shard_members ranks num_shard_senders num_received_offset g =
     (let num_times = (if window_size g div 2 = 0 then 1 else window_size g div 2) in
      and_then (receive_rounds resolve subgroup_num shard_members ranks num_shard_senders
                  num_received_offset num_times g) (\<lambda>g.
      Inr (publish_received_slots subgroup_num num_received_offset num_shard_senders g)))"

text \<open>
  The destination callback that the group gives to RDMC for the stream of one remote
  sender: it takes a buffer of the pool for the incoming message of \<open>len\<close> bytes.
\<close>

definition rdmc_incoming ::
  "subgroup_id_t \<Rightarrow> node_id_t \<Rightarrow> nat \<Rightarrow> nat \<Rightarrow> nat \<Rightarrow> MulticastGroup \<Rightarrow> error + MulticastGroup" where
  "rdmc_incoming subgroup_num node_id sender_rank num_shard_senders len g =
     (if free_message_buffers g subgroup_num = [] then Inl AssertionFailed
      else
        and_then (map_at (subgroup_to_num_received_offset g) subgroup_num) (\<lambda>num_received_offset.
        let msg = \<lparr>r_sender_id = node_id,
                   r_index = num_received (sst g) (member_index g) (num_received_offset + sender_rank) + 1,
                   r_size = len,
                   r_message_buffer = last (free_message_buffers g subgroup_num)\<rparr>;
            sequence_number = r_index msg * int num_shard_senders + int sender_rank
        in case r_message_buffer msg of
             None \<Rightarrow> Inl AssertionFailed
           | Some buf \<Rightarrow>
               Inr (g\<lparr>free_message_buffers := (free_message_buffers g)
                        (subgroup_num := butlast (free_message_buffers g subgroup_num)),
                      current_receives :=
                        assoc_assign (subgroup_num, sequence_number) msg (current_receives g)\<rparr>)))"

section \<open>Runs of a group\<close>

text \<open>
  What can happen to a group between two quiescent moments: a predicate of the table
  fires, RDMC or the file writer calls back, the sender thread makes a pass, a caller
  uses a public member function, or other members write their rows of the table.
  \<^verbatim>\<open>register_predicates\<close> builds the closures of a subgroup of this node from the maps
  of the group, read with \<^verbatim>\<open>at\<close>; the stability and delivery predicates are always true.
  RDMC calls \<^verbatim>\<open>receive_handler_plus_notify\<close> for the group in which this node is the
  sender and \<^verbatim>\<open>rdmc_receive_handler\<close> for the groups of the other senders. The registry
  of the table, which decides whether a trigger still runs, is not among the sources:
  an action runs a trigger whether or not its handle is registered, so the runs of the
  code are among the runs of the actions.
\<close>

datatype action =
    Remote_write DerechoSST
  | Get_sendbuffer_ptr subgroup_id_t nat bool int bool bool "nat option"
  | Send subgroup_id_t
  | Send_loop_step bool
  | Rdmc_incoming subgroup_id_t node_id_t nat nat nat
  | Rdmc_receive subgroup_id_t nat node_id_t nat "nat list" header
  | Receiver_trig subgroup_id_t
  | Stability_trig subgroup_id_t
  | Delivery_trig subgroup_id_t
  | Sender_trig subgroup_id_t
  | Deliver_messages_upto "int list" subgroup_id_t nat
  | File_written persistence_message
  | Wedge

text \<open>
  A write by other members: every row but the own one is taken from \<open>t\<close>. A row has
  one writer, its member, so the own row and the registry stay as they are.
\<close>

definition keep_own_row :: "nat \<Rightarrow> (nat \<Rightarrow> 'a) \<Rightarrow> (nat \<Rightarrow> 'a) \<Rightarrow> nat \<Rightarrow> 'a" where
  "keep_own_row me mine theirs row = (if row = me then mine row else theirs row)"

definition remote_write :: "DerechoSST \<Rightarrow> MulticastGroup \<Rightarrow> MulticastGroup" where
  "remote_write t g =
     g\<lparr>sst := (sst g)
         \<lparr>seq_num := keep_own_row (member_index g) (seq_num (sst g)) (seq_num t),
          stable_num := keep_own_row (member_index g) (stable_num (sst g)) (stable_num t),
          delivered_num := keep_own_row (member_index g) (delivered_num (sst g)) (delivered_num t),
          persisted_num := keep_own_row (member_index g) (persisted_num (sst g)) (persisted_num t),
          num_received := keep_own_row (member_index g) (num_received (sst g)) (num_received t),
          num_received_sst :=
            keep_own_row (member_index g) (num_received_sst (sst g)) (num_received_sst t),
          vid := keep_own_row (member_index g) (vid (sst g)) (vid t),
          slots := keep_own_row (member_index g) (slots (sst g)) (slots t)\<rparr>\<rparr>"

definition shard_ranks_by_sender_rank :: "int list \<Rightarrow> nat \<Rightarrow> nat \<rightharpoonup> nat" where
  "shard_ranks_by_sender_rank shard_senders num_shard_members =
     (let ranks = filter (\<lambda>j. shard_senders ! j \<noteq> 0) [0..<num_shard_members]
      in (\<lambda>l. if l < length ranks then Some (ranks ! l) else None))"

definition perform :: "resolver \<Rightarrow> action \<Rightarrow> MulticastGroup \<Rightarrow> error + MulticastGroup" where
  "perform resolve a g =
     (case a of
        Remote_write t \<Rightarrow> Inr (remote_write t g)
      | Get_sendbuffer_ptr subgroup_num payload_size medium pause cooked null_send slot \<Rightarrow>
          and_then (get_sendbuffer_ptr subgroup_num payload_size medium pause cooked null_send slot g)
            (\<lambda>(buf, g). Inr g)
      | Send subgroup_num \<Rightarrow> and_then (send subgroup_num g) (\<lambda>(sent, g). Inr g)
      | Send_loop_step rdmc_send_ok \<Rightarrow>
          and_then (send_loop_step rdmc_send_ok g) (\<lambda>(status, g). Inr g)
      | Rdmc_incoming subgroup_num node_id sender_rank num_shard_senders len \<Rightarrow>
          rdmc_incoming subgroup_num node_id sender_rank num_shard_senders len g
      | Rdmc_receive subgroup_num sender_rank node_id num_shard_senders shard_sst_indices h \<Rightarrow>
          if node_id = my_node_id g
          then receive_handler_plus_notify resolve subgroup_num sender_rank node_id
                 num_shard_senders shard_sst_indices h g
          else rdmc_receive_handler resolve subgroup_num sender_rank node_id num_shard_senders
                 shard_sst_indices h g
      | Receiver_trig subgroup_num \<Rightarrow>
          and_then (map_at (subgroup_to_shard_and_rank g) subgroup_num) (\<lambda>shard_and_rank.
          and_then (map_at (subgroup_to_membership g) subgroup_num) (\<lambda>shard_members.
          and_then (map_at (subgroup_to_num_received_offset g) subgroup_num) (\<lambda>num_received_offset.
          and_then (map_at (subgroup_to_senders_and_sender_rank g) subgroup_num) (\<lambda>(shard_senders, r).
          let num_shard_senders = get_num_senders shard_senders;
              ranks = shard_ranks_by_sender_rank shard_senders (length shard_members)
          in
          and_then (receiver_pred subgroup_num shard_members ranks num_shard_senders num_received_offset g)
            (\<lambda>ready.
               if ready
               then receiver_trig resolve subgroup_num shard_members ranks num_shard_senders
                      num_received_offset g
               else Inr g)))))
      | Stability_trig subgroup_num \<Rightarrow>
          and_then (map_at (subgroup_to_shard_and_rank g) subgroup_num) (\<lambda>shard_and_rank.
          and_then (map_at (subgroup_to_membership g) subgroup_num) (\<lambda>shard_members.
          and_then (map_at (subgroup_to_mode g) subgroup_num) (\<lambda>mode.
          if mode = RAW then Inr g
          else
          and_then (get_shard_sst_indices subgroup_num g) (\<lambda>shard_sst_indices.
          stability_trig subgroup_num shard_members shard_sst_indices g))))
      | Delivery_trig subgroup_num \<Rightarrow>
          and_then (map_at (subgroup_to_shard_and_rank g) subgroup_num) (\<lambda>shard_and_rank.
          and_then (map_at (subgroup_to_membership g) subgroup_num) (\<lambda>shard_members.
          and_then (map_at (subgroup_to_mode g) subgroup_num) (\<lambda>mode.
          if mode = RAW then Inr g
          else delivery_trig subgroup_num shard_members g)))
      | Sender_trig subgroup_num \<Rightarrow>
          and_then (map_at (subgroup_to_shard_and_rank g) subgroup_num) (\<lambda>shard_and_rank.
          and_then (map_at (subgroup_to_membership g) subgroup_num) (\<lambda>shard_members.
          and_then (map_at (subgroup_to_mode g) subgroup_num) (\<lambda>mode.
          and_then (map_at (subgroup_to_senders_and_sender_rank g) subgroup_num)
            (\<lambda>(shard_senders, shard_sender_index).
          if shard_sender_index < 0 then Inr g
          else if mode = RAW
          then and_then (sender_pred_raw subgroup_num shard_members shard_sender_index g)
                 (\<lambda>ready. Inr (if ready then sender_trig_raw subgroup_num g else g))
          else and_then (sender_pred subgroup_num shard_members shard_sender_index
                           (get_num_senders shard_senders) g)
                 (\<lambda>ready. Inr (if ready then sender_trig subgroup_num g else g))))))
      | Deliver_messages_upto max_indices_for_senders subgroup_num num_shard_senders \<Rightarrow>
          deliver_messages_upto max_indices_for_senders subgroup_num num_shard_senders g
      | File_written m \<Rightarrow> file_written_callback m g
      | Wedge \<Rightarrow> Inr (wedge g))"

fun run :: "resolver \<Rightarrow> action list \<Rightarrow> MulticastGroup \<Rightarrow> error + MulticastGroup" where
  "run resolve [] g = Inr g"
| "run resolve (a # as) g =
     (case perform resolve a g of Inl e \<Rightarrow> Inl e | Inr g' \<Rightarrow> run resolve as g')"

text \<open>
  The quiescent states of a group that was built from \<open>g0\<close>: the constructor
  initializes the rows of the table and then the actions run one after the other.
\<close>

definition reachable :: "resolver \<Rightarrow> MulticastGroup \<Rightarrow> MulticastGroup \<Rightarrow> bool" where
  "reachable resolve g0 g = (\<exists>as. run resolve as (initialize_sst_row g0) = Inr g)"

text \<open>
  This node is a member of the shard of every subgroup for which it registers
  predicates, and its row of the table is the one at \<open>member_index\<close>.
\<close>

definition own_row_in_shards :: "MulticastGroup \<Rightarrow> bool" where
  "own_row_in_shards g =
     (\<forall>subgroup_num shard_members.
        subgroup_to_shard_and_rank g subgroup_num \<noteq> None
        \<and> subgroup_to_membership g subgroup_num = Some shard_members
        \<longrightarrow> (\<exists>m \<in> set shard_members. node_id_to_sst_index g m = Some (member_index g)))"

section \<open>What the member functions leave alone\<close>

text \<open>
  The members that the constructor sets and no member function assigns, the members
  that only \<^verbatim>\<open>wedge\<close> assigns, and the four counters of the table.
\<close>

definition settings where
  "settings g =
     (members g, member_index g, max_msg_size g, window_size g, total_num_subgroups g,
      subgroup_to_shard_and_rank g, subgroup_to_senders_and_sender_rank g,
      subgroup_to_num_received_offset g, subgroup_to_membership g, subgroup_to_mode g,
      node_id_to_sst_index g, file_writer g, rdmc_sst_groups_created g,
      num_received_size (sst g), seq_num_size (sst g))"

definition group_handles :: "MulticastGroup \<Rightarrow> nat list" where
  "group_handles g =
     sender_pred_handles g @ receiver_pred_handles g @ stability_pred_handles g
       @ delivery_pred_handles g"

definition control where
  "control g =
     (thread_shutdown g, predicates (sst g), sender_pred_handles g, receiver_pred_handles g,
      stability_pred_handles g, delivery_pred_handles g)"

definition counters where
  "counters g =
     (seq_num (sst g) (member_index g), stable_num (sst g) (member_index g),
      delivered_num (sst g) (member_index g), persisted_num (sst g) (member_index g))"

section \<open>Example groups\<close>

text \<open>
  Modelled from the spec: \<open>resolve_num_received\<close> for a sender whose messages arrive in
  order, the case in which the spec gives the result: the larger of the current value
  and \<open>end_index\<close>, and the current value when \<open>beg_index\<close> leaves a hole.
\<close>

definition resolve_in_order :: resolver where
  "resolve_in_order beg_index end_index entry g =
     (let current = num_received (sst g) (member_index g) entry
      in (if beg_index \<le> current + 1 then max current end_index else current, received_intervals g))"

definition empty_header :: header where
  "empty_header = \<lparr>header_size = 0, h_index = 0, pause_sending_turns = 0, cooked_send = False\<rparr>"

definition example_sst :: DerechoSST where
  "example_sst =
     \<lparr>seq_num = (\<lambda>i j. 0), stable_num = (\<lambda>i j. 0), delivered_num = (\<lambda>i j. 0),
      persisted_num = (\<lambda>i j. 0), num_received = (\<lambda>i j. 0), num_received_sst = (\<lambda>i j. - 1),
      num_received_size = 2, seq_num_size = 1, vid = (\<lambda>i. 0),
      slots = (\<lambda>i j. \<lparr>next_seq = 0, slot_size = 0, slot_buf = empty_header\<rparr>),
      predicates = [0, 1, 2, 3]\<rparr>"

text \<open>
  A group of the nodes 0 and 1, seen from node 0, with one ordered subgroup whose shard
  is the whole group: \<open>senders\<close> are the sender flags of the two members and
  \<open>sender_rank\<close> is the rank of node 0 among the senders (-1 when it does not send).
  The window is 2 messages and the pool holds window times shard size buffers. The
  constructor has created one RDMC group for each sender, counting from 0.
  \<open>unbuilt_group\<close> is the group before the constructor initializes the rows.
\<close>

definition unbuilt_group :: "int list \<Rightarrow> int \<Rightarrow> bool \<Rightarrow> MulticastGroup" where
  "unbuilt_group senders sender_rank persistent =
       \<lparr>members = [0, 1], member_index = 0, max_msg_size = 1024, window_size = 2,
        total_num_subgroups = 1,
        subgroup_to_shard_and_rank = [0 \<mapsto> (0, 0)],
        subgroup_to_senders_and_sender_rank = [0 \<mapsto> (senders, sender_rank)],
        subgroup_to_num_received_offset = [0 \<mapsto> 0],
        subgroup_to_membership = [0 \<mapsto> [0, 1]],
        subgroup_to_mode = [0 \<mapsto> ORDERED],
        node_id_to_sst_index = [0 \<mapsto> 0, 1 \<mapsto> 1],
        received_intervals = (\<lambda>i. [- 1, - 1]),
        rdmc_group_num_offset = get_num_senders senders,
        subgroup_to_rdmc_group = (\<lambda>g. 0),
        future_message_indices = (\<lambda>g. 0),
        next_sends = (\<lambda>g. None),
        pending_sends = (\<lambda>g. []),
        current_sends = (\<lambda>g. None),
        next_message_to_deliver = (\<lambda>g. 0),
        free_message_buffers =
          (\<lambda>g. [Some \<lparr>mr = 0, contents = empty_header\<rparr>, Some \<lparr>mr = 1, contents = empty_header\<rparr>,
                Some \<lparr>mr = 2, contents = empty_header\<rparr>, Some \<lparr>mr = 3, contents = empty_header\<rparr>]),
        current_receives = [],
        locally_stable_rdmc_messages = (\<lambda>g. []),
        locally_stable_sst_messages = (\<lambda>g. []),
        non_persistent_messages = (\<lambda>g. []),
        non_persistent_sst_messages = (\<lambda>g. []),
        file_writer = persistent,
        thread_shutdown = False,
        rdmc_sst_groups_created = True,
        sender_pred_handles = [0],
        receiver_pred_handles = [1],
        stability_pred_handles = [2],
        delivery_pred_handles = [3],
        last_transfer_medium = (\<lambda>g. False),
        subgroup_to_send = 0,
        sender_thread_joinable = True,
        sst = example_sst,
        trace = []\<rparr>"

definition example_group :: "int list \<Rightarrow> int \<Rightarrow> bool \<Rightarrow> MulticastGroup" where
  "example_group senders sender_rank persistent =
     initialize_sst_row (unbuilt_group senders sender_rank persistent)"

section \<open>Notions that the properties use\<close>

text \<open>
  The order of the counters of the own row: what was delivered is stable, what is
  stable was received.
\<close>

definition chain_holds :: "MulticastGroup \<Rightarrow> bool" where
  "chain_holds g =
     (\<forall>j < seq_num_size (sst g).
        delivered_num (sst g) (member_index g) j \<le> stable_num (sst g) (member_index g) j
        \<and> stable_num (sst g) (member_index g) j \<le> seq_num (sst g) (member_index g) j)"

text \<open>
  The words of the spec for the new sequence number: \<open>min_index\<close> is the position,
  among the senders of the shard, of the first least entry of \<open>num_received\<close>, and the
  sequence number is that least entry plus one, times the number of senders, plus the
  position, minus one.
\<close>

definition first_least :: "(nat \<Rightarrow> int) \<Rightarrow> nat \<Rightarrow> nat \<Rightarrow> nat \<Rightarrow> bool" where
  "first_least row num_received_offset num_shard_senders min_index =
     (min_index < num_shard_senders
      \<and> (\<forall>i < num_shard_senders. row (num_received_offset + min_index) \<le> row (num_received_offset + i))
      \<and> (\<forall>i < min_index. row (num_received_offset + min_index) < row (num_received_offset + i)))"

definition spec_seq_num :: "(nat \<Rightarrow> int) \<Rightarrow> nat \<Rightarrow> nat \<Rightarrow> nat \<Rightarrow> int" where
  "spec_seq_num row num_received_offset num_shard_senders min_index =
     (row (num_received_offset + min_index) + 1) * int num_shard_senders + int min_index - 1"

text \<open>The writes to the table among the effects of a member function, in their order.\<close>

definition is_put :: "event \<Rightarrow> bool" where
  "is_put e = (case e of Put target col \<Rightarrow> True | _ \<Rightarrow> False)"

definition puts :: "event list \<Rightarrow> event list" where
  "puts es = filter is_put es"

text \<open>
  A subgroup for which this node may call \<^verbatim>\<open>get_sendbuffer_ptr\<close>: the maps of the group
  know the subgroup, the node is one of its senders, and every member of its shard has
  a row of the table.
\<close>

definition sender_of_subgroup :: "subgroup_id_t \<Rightarrow> MulticastGroup \<Rightarrow> bool" where
  "sender_of_subgroup subgroup_num g =
     (case (subgroup_to_shard_and_rank g subgroup_num, subgroup_to_membership g subgroup_num,
            subgroup_to_senders_and_sender_rank g subgroup_num, subgroup_to_mode g subgroup_num,
            subgroup_to_num_received_offset g subgroup_num) of
        (Some shard_and_rank, Some shard_members, Some (shard_senders, shard_sender_index),
         Some mode, Some num_received_offset) \<Rightarrow>
          0 \<le> shard_sender_index \<and> list_all (\<lambda>m. node_id_to_sst_index g m \<noteq> None) shard_members
      | _ \<Rightarrow> False)"

text \<open>
  A run of the example group with persistence: node 0 sends its message 0 and receives
  it, the view change delivers it with \<^verbatim>\<open>deliver_messages_upto\<close>, the file writer reports
  it, and the stability predicate fires.
\<close>

definition forced_delivery_run :: "action list" where
  "forced_delivery_run =
     [Get_sendbuffer_ptr 0 10 True 0 False False None, Send 0, Send_loop_step True,
      Rdmc_receive 0 0 0 2 [0, 1] (fill_header 0 0 False),
      Deliver_messages_upto [0, - 1] 0 2,
      File_written \<lparr>pm_subgroup_num = 0, pm_sender = 0, pm_index = 0, pm_length = 27\<rparr>,
      Stability_trig 0]"

text \<open>
  A run of the example group with persistence in which the file writer lags: node 0
  sends its message 0, both members receive and deliver it (\<open>peer_caught_up\<close> is what
  node 1 writes into its row), and node 0 prepares and sends its message 1. Message 0
  is with the file writer, which has reported nothing yet.
\<close>

definition peer_caught_up :: DerechoSST where
  "peer_caught_up =
     example_sst\<lparr>seq_num := (\<lambda>i j. 0), stable_num := (\<lambda>i j. 0), delivered_num := (\<lambda>i j. 0),
                 persisted_num := (\<lambda>i j. - 1), num_received := (\<lambda>i j. if j = 0 then 0 else - 1)\<rparr>"


text \<open>
  A null send of node 0 in the example group with persistence, received and delivered
  by both members.
\<close>

definition null_send_run :: "action list" where
  "null_send_run =
     [Get_sendbuffer_ptr 0 0 True 0 False True None, Send 0, Send_loop_step True,
      Rdmc_receive 0 0 0 2 [0, 1] (fill_header 0 0 False),
      Remote_write peer_caught_up,
      Stability_trig 0, Delivery_trig 0]"

text \<open>
  A message of node 0, the only sender of the example group, that skips one turn: the
  message has sequence number 0 and the skipped turn has sequence number 1. Node 1 has
  received the message only, so that the delivery trigger delivers the message and
  leaves the empty message of the skipped turn at the head of the queue.
\<close>

definition skipped_turn_run :: "action list" where
  "skipped_turn_run =
     [Get_sendbuffer_ptr 0 10 True 1 False False None, Send 0, Send_loop_step True,
      Rdmc_receive 0 0 0 1 [0, 1] (fill_header 0 1 False),
      Remote_write peer_caught_up,
      Stability_trig 0, Delivery_trig 0]"

text \<open>
  The ragged edge of a view change in the example group in which both nodes send: node 0
  has sent its messages 0 and 1 and holds both as locally stable, with the sequence
  numbers 0 and 2. The bounds of the cleanup are index 0 for sender 0 and index 2 for
  sender 1.
\<close>

definition ragged_edge_run :: "action list" where
  "ragged_edge_run =
     [Get_sendbuffer_ptr 0 10 True 0 False False None, Send 0, Send_loop_step True,
      Rdmc_receive 0 0 0 2 [0, 1] (fill_header 0 0 False),
      Get_sendbuffer_ptr 0 10 True 0 False False None, Send 0, Send_loop_step True,
      Rdmc_receive 0 0 0 2 [0, 1] (fill_header 1 0 False),
      Deliver_messages_upto [0, 2] 0 2]"

text \<open>
  Persistence in the example group in which node 1 is the only sender: node 0 receives
  the messages 0 and 1 of node 1, with the sequence numbers 0 and 1, and delivers both,
  which hands them to the file writer. The file writer then reports message 0.
\<close>

definition peer_sent_two :: DerechoSST where
  "peer_sent_two =
     example_sst\<lparr>seq_num := (\<lambda>i j. 1), stable_num := (\<lambda>i j. 1), delivered_num := (\<lambda>i j. 1),
                 persisted_num := (\<lambda>i j. - 1), num_received := (\<lambda>i j. if j = 0 then 1 else - 1)\<rparr>"

definition persisted_run :: "action list" where
  "persisted_run =
     [Rdmc_incoming 0 1 0 1 27, Rdmc_receive 0 0 1 1 [0, 1] (fill_header 0 0 False),
      Rdmc_incoming 0 1 0 1 27, Rdmc_receive 0 0 1 1 [0, 1] (fill_header 1 0 False),
      Remote_write peer_sent_two,
      Stability_trig 0, Delivery_trig 0]"

definition report_of_message_0 :: persistence_message where
  "report_of_message_0 = \<lparr>pm_subgroup_num = 0, pm_sender = 1, pm_index = 0, pm_length = 27\<rparr>"

definition report_of_message_1 :: persistence_message where
  "report_of_message_1 = \<lparr>pm_subgroup_num = 0, pm_sender = 1, pm_index = 1, pm_length = 27\<rparr>"

text \<open>
  The example group in which both nodes send, when the first message that node 0
  receives is message 0 of node 1, the sender of rank 1; and the same on the slot
  path, where node 1 has written the message into slot 0 of its row.
\<close>

definition second_sender_first_run :: "action list" where
  "second_sender_first_run =
     [Rdmc_incoming 0 1 1 2 27, Rdmc_receive 0 1 1 2 [0, 1] (fill_header 0 0 False)]"

definition peer_wrote_slot :: DerechoSST where
  "peer_wrote_slot =
     example_sst\<lparr>seq_num := (\<lambda>i j. - 1), stable_num := (\<lambda>i j. - 1), delivered_num := (\<lambda>i j. - 1),
                 persisted_num := (\<lambda>i j. - 1), num_received := (\<lambda>i j. - 1),
                 slots := (\<lambda>i j. if j = 0
                                  then \<lparr>next_seq = 1, slot_size = 27, slot_buf = fill_header 0 0 False\<rparr>
                                  else \<lparr>next_seq = 0, slot_size = 0, slot_buf = empty_header\<rparr>)\<rparr>"

definition second_sender_first_slot_run :: "action list" where
  "second_sender_first_slot_run = [Remote_write peer_wrote_slot, Receiver_trig 0]"

section \<open>Facts about the example groups\<close>

lemma example_group_fields:
  "members (example_group ss r p) = [0, 1]"
  "member_index (example_group ss r p) = 0"
  "max_msg_size (example_group ss r p) = 1024"
  "window_size (example_group ss r p) = 2"
  "total_num_subgroups (example_group ss r p) = 1"
  "subgroup_to_shard_and_rank (example_group ss r p) = [0 \<mapsto> (0, 0)]"
  "subgroup_to_senders_and_sender_rank (example_group ss r p) = [0 \<mapsto> (ss, r)]"
  "subgroup_to_num_received_offset (example_group ss r p) = [0 \<mapsto> 0]"
  "subgroup_to_membership (example_group ss r p) = [0 \<mapsto> [0, 1]]"
  "subgroup_to_mode (example_group ss r p) = [0 \<mapsto> ORDERED]"
  "node_id_to_sst_index (example_group ss r p) = [0 \<mapsto> 0, 1 \<mapsto> 1]"
  "rdmc_group_num_offset (example_group ss r p) = get_num_senders ss"
  "subgroup_to_rdmc_group (example_group ss r p) = (\<lambda>g. 0)"
  "future_message_indices (example_group ss r p) = (\<lambda>g. 0)"
  "next_sends (example_group ss r p) = (\<lambda>g. None)"
  "pending_sends (example_group ss r p) = (\<lambda>g. [])"
  "current_sends (example_group ss r p) = (\<lambda>g. None)"
  "next_message_to_deliver (example_group ss r p) = (\<lambda>g. 0)"
  "free_message_buffers (example_group ss r p) =
          (\<lambda>g. [Some \<lparr>mr = 0, contents = empty_header\<rparr>, Some \<lparr>mr = 1, contents = empty_header\<rparr>,
                Some \<lparr>mr = 2, contents = empty_header\<rparr>, Some \<lparr>mr = 3, contents = empty_header\<rparr>])"
  "current_receives (example_group ss r p) = []"
  "locally_stable_rdmc_messages (example_group ss r p) = (\<lambda>g. [])"
  "locally_stable_sst_messages (example_group ss r p) = (\<lambda>g. [])"
  "non_persistent_messages (example_group ss r p) = (\<lambda>g. [])"
  "non_persistent_sst_messages (example_group ss r p) = (\<lambda>g. [])"
  "file_writer (example_group ss r p) = p"
  "thread_shutdown (example_group ss r p) = False"
  "rdmc_sst_groups_created (example_group ss r p) = True"
  "sender_pred_handles (example_group ss r p) = [0]"
  "receiver_pred_handles (example_group ss r p) = [1]"
  "stability_pred_handles (example_group ss r p) = [2]"
  "delivery_pred_handles (example_group ss r p) = [3]"
  "last_transfer_medium (example_group ss r p) = (\<lambda>g. False)"
  "subgroup_to_send (example_group ss r p) = 0"
  "sender_thread_joinable (example_group ss r p) = True"
  "trace (example_group ss r p) = [Put None Whole_row, Sync_with_members]"
  "predicates (sst (example_group ss r p)) = [0, 1, 2, 3]"
  "seq_num (sst (example_group ss r p)) i j = (if i < 2 \<and> j < 1 then - 1 else 0)"
  "stable_num (sst (example_group ss r p)) i j = (if i < 2 \<and> j < 1 then - 1 else 0)"
  "delivered_num (sst (example_group ss r p)) i j = (if i < 2 \<and> j < 1 then - 1 else 0)"
  "persisted_num (sst (example_group ss r p)) i j = (if i < 2 \<and> j < 1 then - 1 else 0)"
  "num_received (sst (example_group ss r p)) i j = (if i < 2 \<and> j < 2 then - 1 else 0)"
  "num_received_sst (sst (example_group ss r p)) = (\<lambda>i j. - 1)"
  "slots (sst (example_group ss r p)) = (\<lambda>i j. \<lparr>next_seq = 0, slot_size = 0, slot_buf = empty_header\<rparr>)"
  "vid (sst (example_group ss r p)) = (\<lambda>i. 0)"
  by (simp_all add: example_group_def unbuilt_group_def initialize_sst_row_def example_sst_def
      num_members_def Let_def)

lemmas wedge_parts =
  remove_handles_def remove_sender_handles_def remove_receiver_handles_def
  remove_stability_handles_def remove_delivery_handles_def destroy_rdmc_groups_def
  stop_sender_thread_def

section \<open>The exit codes of create\_state\_file\<close>

text \<open>
  C9, as the code has it. \<^verbatim>\<open>main\<close> exits with code 1 when it is given fewer than two
  arguments and with code 0 when \<^verbatim>\<open>parse_view\<close> and \<^verbatim>\<open>persist_object\<close> return. It never
  exits with code 2: it checks no result of either call, and an exception of either
  call ends the process without an exit code of \<^verbatim>\<open>main\<close>.
\<close>

theorem main_exit_codes:
  "snd (main argc parse_view persist_object) =
     (if argc < 2 then Exit 1
      else if parse_view = Threw \<or> persist_object = Threw then Terminated
      else Exit 0)
   \<and> snd (main argc parse_view persist_object) \<noteq> Exit 2"
  by (cases parse_view; cases persist_object) (simp_all add: main_def)

theorem main_exit_codes_witness:
  "snd (main 1 (Returned ()) (Returned ())) = Exit 1
   \<and> snd (main 2 (Returned ()) (Returned ())) = Exit 0
   \<and> snd (main 2 (Returned ()) Threw) = Terminated"
  using main_exit_codes [of 1 "Returned ()" "Returned ()"]
    main_exit_codes [of 2 "Returned ()" "Returned ()"]
    main_exit_codes [of 2 "Returned ()" Threw]
  by simp

text \<open>
  C9 as stated fails: when writing the file fails, by an exception of
  \<^verbatim>\<open>persist_object\<close> or unnoticed, the exit code is not 2.
\<close>

theorem main_io_error_counterexample:
  "snd (main 2 (Returned ()) Threw) \<noteq> Exit 2 \<and> snd (main 2 (Returned ()) (Returned ())) \<noteq> Exit 2"
  by (simp add: main_def)

section \<open>wedge\<close>

text \<open>
  C8: a call of \<^verbatim>\<open>wedge\<close> on a group that is already wedged returns the group as it
  is: no predicate is removed, no RDMC group destroyed, nothing notified. A first call
  leaves the group wedged, so every later call is such a call.
\<close>

theorem wedge_again_is_noop:
  "(thread_shutdown g \<longrightarrow> wedge g = g) \<and> thread_shutdown (wedge g) \<and> wedge (wedge g) = wedge g"
proof -
  have shut: "thread_shutdown (wedge g)"
    by (simp add: wedge_def wedge_parts)
  have noop: "thread_shutdown h \<Longrightarrow> wedge h = h" for h
    by (simp add: wedge_def)
  from shut noop [of g] noop [of "wedge g"] show ?thesis by blast
qed

theorem wedge_again_is_noop_witness:
  "\<not> thread_shutdown (example_group [1, 1] 0 False)
   \<and> thread_shutdown (wedge (example_group [1, 1] 0 False))
   \<and> trace (wedge (example_group [1, 1] 0 False)) \<noteq> trace (example_group [1, 1] 0 False)
   \<and> wedge (wedge (example_group [1, 1] 0 False)) = wedge (example_group [1, 1] 0 False)"
  using wedge_again_is_noop [of "wedge (example_group [1, 1] 0 False)"]
  by (simp add: example_group_fields wedge_def wedge_parts)

section \<open>The size of the message that get\_sendbuffer\_ptr prepares\<close>

text \<open>
  C10: with a payload size of 0 and no null send the size of the message is
  \<open>max_msg_size\<close>, which the size check lets through, and the message of a bulk send
  has that size; a null send has the size of the header, whatever the payload size.
\<close>

theorem zero_payload_requests_max_msg_size:
  "requested_msg_size 0 False g = max_msg_size g
   \<and> \<not> requested_msg_size 0 False g > max_msg_size g
   \<and> requested_msg_size payload_size True g = sizeof_header
   \<and> (get_sendbuffer_ptr subgroup_num 0 True pause cooked False slot g = Inr (Some b, g')
        \<longrightarrow> map_option r_size (next_sends g' subgroup_num) = Some (max_msg_size g)
            \<and> max_msg_size g' = max_msg_size g)
   \<and> (get_sendbuffer_ptr subgroup_num payload_size True pause cooked True slot g = Inr (Some b, g')
        \<longrightarrow> map_option r_size (next_sends g' subgroup_num) = Some sizeof_header)"
  by (auto simp: requested_msg_size_def get_sendbuffer_ptr_def and_then_def map_at_def Let_def
      split: if_splits option.splits sum.splits prod.splits)

theorem zero_payload_requests_max_msg_size_witness:
  "\<exists>b g'. get_sendbuffer_ptr 0 0 True 0 False False None (example_group [1, 1] 0 False) = Inr (Some b, g')
     \<and> map_option r_size (next_sends g' 0) = Some 1024"
proof -
  obtain b g' where
    step: "get_sendbuffer_ptr 0 0 True 0 False False None (example_group [1, 1] 0 False) = Inr (Some b, g')"
    by (simp add: get_sendbuffer_ptr_def requested_msg_size_def sizeof_header_def and_then_def
        map_at_def get_num_senders_def Let_def example_group_fields)
  with zero_payload_requests_max_msg_size [of "example_group [1, 1] 0 False" 0 0 0 False None b g']
  show ?thesis by (simp add: example_group_fields)
qed


section \<open>Frame lemmas\<close>

lemma and_then_Inr: "and_then r f = Inr y \<longleftrightarrow> (\<exists>v. r = Inr v \<and> f v = Inr y)"
  by (cases r) (simp_all add: and_then_def)

lemma map_at_Inr: "map_at m k = Inr v \<longleftrightarrow> m k = Some v"
  by (simp add: map_at_def split: option.splits)

lemma get_sendbuffer_ptr_frame:
  "get_sendbuffer_ptr sg ps tm pause cooked ns slot g = Inr (b, g') \<Longrightarrow>
     settings g' = settings g \<and> control g' = control g \<and> sst g' = sst g"
  unfolding get_sendbuffer_ptr_def
  by (auto simp: and_then_Inr Let_def settings_def control_def split: if_splits option.splits prod.splits)

lemma send_frame:
  "send sg g = Inr (b, g') \<Longrightarrow> settings g' = settings g \<and> control g' = control g \<and> sst g' = sst g"
  unfolding send_def
  by (auto simp: settings_def control_def split: if_splits option.splits)

lemma send_loop_step_frame:
  "send_loop_step ok g = Inr (b, g') \<Longrightarrow>
     settings g' = settings g \<and> control g' = control g \<and> sst g' = sst g"
  unfolding send_loop_step_def
  by (auto simp: settings_def control_def Let_def split: if_splits option.splits sum.splits error.splits)

lemma rdmc_incoming_frame:
  "rdmc_incoming sg node_id sender_rank nss len g = Inr g' \<Longrightarrow>
     settings g' = settings g \<and> control g' = control g \<and> sst g' = sst g"
  unfolding rdmc_incoming_def
  by (auto simp: and_then_Inr Let_def settings_def control_def split: if_splits option.splits)

lemma deliver_message_frame:
  "deliver_message msg sg g = Inr g' \<Longrightarrow>
     settings g' = settings g \<and> control g' = control g \<and> sst g' = sst g"
  unfolding deliver_message_def
  by (auto simp: and_then_Inr Let_def settings_def control_def split: if_splits option.splits)

lemma deliver_message_sst_frame:
  "deliver_message_sst msg sg g = Inr g' \<Longrightarrow>
     settings g' = settings g \<and> control g' = control g \<and> sst g' = sst g"
  unfolding deliver_message_sst_def
  by (auto simp: and_then_Inr Let_def settings_def control_def split: if_splits option.splits)

lemma deliver_upto_step_frame:
  "deliver_upto_step sg seq g = Inr g' \<Longrightarrow>
     settings g' = settings g \<and> control g' = control g \<and> sst g' = sst g"
  unfolding deliver_upto_step_def
  by (auto simp: and_then_Inr settings_def control_def
      dest!: deliver_message_frame deliver_message_sst_frame split: option.splits)

lemma deliver_range_frame:
  "deliver_range sg seq max_seq g = Inr g' \<Longrightarrow>
     settings g' = settings g \<and> control g' = control g \<and> sst g' = sst g"
proof (induction sg seq max_seq g rule: deliver_range.induct)
  case (1 sg seq max_seq g)
  show ?case
  proof (cases "seq \<le> max_seq")
    case False
    with "1.prems" show ?thesis by (simp add: deliver_range.simps)
  next
    case True
    with "1.prems" obtain g1 where
      step: "deliver_upto_step sg seq g = Inr g1" and
      rest: "deliver_range sg (seq + 1) max_seq g1 = Inr g'"
      by (subst (asm) deliver_range.simps) (auto split: sum.splits)
    from "1.IH" [OF True step rest] deliver_upto_step_frame [OF step]
    show ?thesis by simp
  qed
qed

lemma deliver_messages_upto_frame:
  "deliver_messages_upto max_indices sg nss g = Inr g' \<Longrightarrow>
     settings g' = settings g \<and> control g' = control g \<and> sst g' = sst g"
  unfolding deliver_messages_upto_def
  by (auto simp: Let_def dest: deliver_range_frame split: if_splits)

lemma file_written_callback_frame:
  "file_written_callback m g = Inr g' \<Longrightarrow>
     settings g' = settings g \<and> control g' = control g
     \<and> seq_num (sst g') = seq_num (sst g) \<and> stable_num (sst g') = stable_num (sst g)
     \<and> delivered_num (sst g') = delivered_num (sst g)"
  unfolding file_written_callback_def
  by (auto simp: and_then_Inr Let_def settings_def control_def split: option.splits)

lemma sender_trig_frame:
  "settings (sender_trig sg g) = settings g \<and> control (sender_trig sg g) = control g
   \<and> sst (sender_trig sg g) = sst g"
  "settings (sender_trig_raw sg g) = settings g \<and> control (sender_trig_raw sg g) = control g
   \<and> sst (sender_trig_raw sg g) = sst g"
  by (simp_all add: sender_trig_def sender_trig_raw_def settings_def control_def)

lemma remote_write_frame:
  "settings (remote_write t g) = settings g \<and> control (remote_write t g) = control g
   \<and> counters (remote_write t g) = counters g"
  by (simp add: remote_write_def settings_def control_def counters_def keep_own_row_def)

lemma min_over_members_le:
  "min_over_members col idx acc ms = Inr v \<Longrightarrow>
     v \<le> acc \<and> (\<forall>m \<in> set ms. \<forall>row. idx m = Some row \<longrightarrow> v \<le> col row)"
proof (induction ms arbitrary: acc)
  case Nil
  then show ?case by simp
next
  case (Cons m ms)
  then obtain row where row: "idx m = Some row"
    and rest: "min_over_members col idx (if col row < acc then col row else acc) ms = Inr v"
    by (auto split: option.splits)
  from Cons.IH [OF rest] row show ?case by (auto split: if_splits)
qed

lemma min_of_shard_le:
  assumes "min_of_shard col ms g = Inr v" and "m \<in> set ms"
    and "node_id_to_sst_index g m = Some row"
  shows "v \<le> col row"
  using assms min_over_members_le [of col "node_id_to_sst_index g" _ ms v]
  by (auto simp: min_of_shard_def and_then_Inr split: list.splits)

lemma stability_trig_effect:
  assumes "stability_trig sg ms idx g = Inr g'"
  shows "settings g' = settings g \<and> control g' = control g
     \<and> seq_num (sst g') = seq_num (sst g) \<and> delivered_num (sst g') = delivered_num (sst g)
     \<and> persisted_num (sst g') = persisted_num (sst g)
     \<and> (\<forall>i j. stable_num (sst g') i j = stable_num (sst g) i j
           \<or> (i = member_index g \<and> j = sg \<and> stable_num (sst g) i j < stable_num (sst g') i j
              \<and> min_of_shard (\<lambda>row. seq_num (sst g) row sg) ms g = Inr (stable_num (sst g') i j)))"
  using assms unfolding stability_trig_def
  by (auto simp: and_then_Inr settings_def control_def set_cell_def split: if_splits)

lemma delivery_step_effect:
  assumes "delivery_step sg v g = Inr (Some g')"
  shows "settings g' = settings g \<and> control g' = control g
     \<and> seq_num (sst g') = seq_num (sst g) \<and> stable_num (sst g') = stable_num (sst g)
     \<and> persisted_num (sst g') = persisted_num (sst g)
     \<and> (\<forall>i j. delivered_num (sst g') i j = delivered_num (sst g) i j
           \<or> (i = member_index g \<and> j = sg \<and> delivered_num (sst g') i j \<le> v))"
proof -
  have a: "deliver_message msg sg g = Inr g1 \<Longrightarrow>
      settings g1 = settings g \<and> control g1 = control g \<and> sst g1 = sst g \<and> member_index g1 = member_index g"
    for msg g1
    using deliver_message_frame [of msg sg g g1] by (auto simp: settings_def)
  have b: "deliver_message_sst msg sg g = Inr g1 \<Longrightarrow>
      settings g1 = settings g \<and> control g1 = control g \<and> sst g1 = sst g \<and> member_index g1 = member_index g"
    for msg g1
    using deliver_message_sst_frame [of msg sg g g1] by (auto simp: settings_def)
  show ?thesis
    using assms unfolding delivery_step_def Let_def
    by (auto simp: settings_def control_def set_cell_def dest!: a b
        split: if_splits list.splits sum.splits)
qed

lemma delivery_loop_effect:
  "delivery_loop sg v u g = Inr (u', g') \<Longrightarrow>
     settings g' = settings g \<and> control g' = control g
     \<and> seq_num (sst g') = seq_num (sst g) \<and> stable_num (sst g') = stable_num (sst g)
     \<and> persisted_num (sst g') = persisted_num (sst g)
     \<and> (\<forall>i j. delivered_num (sst g') i j = delivered_num (sst g) i j
           \<or> (i = member_index g \<and> j = sg \<and> delivered_num (sst g') i j \<le> v))"
proof (induction sg v u g rule: delivery_loop.induct)
  case (1 sg v u g)
  from "1.prems" consider
    (stop) "delivery_step sg v g = Inr None" "g' = g"
    | (go) g1 where "delivery_step sg v g = Inr (Some g1)" "delivery_loop sg v True g1 = Inr (u', g')"
    by (subst (asm) delivery_loop.simps) (auto split: sum.splits option.splits)
  then show ?case
  proof cases
    case stop
    then show ?thesis by simp
  next
    case go
    from "1.IH" [OF go(1) refl go(2)] delivery_step_effect [OF go(1)]
    have s: "settings g1 = settings g" and "member_index g1 = member_index g"
      by (auto simp: settings_def)
    with "1.IH" [OF go(1) refl go(2)] delivery_step_effect [OF go(1)]
    show ?thesis by (metis (no_types, lifting))
  qed
qed

lemma delivery_trig_effect:
  assumes "delivery_trig sg ms g = Inr g'"
  shows "settings g' = settings g \<and> control g' = control g
     \<and> seq_num (sst g') = seq_num (sst g) \<and> stable_num (sst g') = stable_num (sst g)
     \<and> persisted_num (sst g') = persisted_num (sst g)
     \<and> (\<forall>i j. delivered_num (sst g') i j = delivered_num (sst g) i j
           \<or> (i = member_index g \<and> j = sg
              \<and> (\<exists>v. min_of_shard (\<lambda>row. stable_num (sst g) row sg) ms g = Inr v
                    \<and> delivered_num (sst g') i j \<le> v)))"
proof -
  from assms obtain v u g1 where
    v: "min_of_shard (\<lambda>row. stable_num (sst g) row sg) ms g = Inr v" and
    loop: "delivery_loop sg v False g = Inr (u, g1)" and
    fin: "g' = g1 \<or> (\<exists>idx. g' = g1\<lparr>trace := trace g1 @ [Put (Some idx) (Delivered_num sg)]\<rparr>)"
    unfolding delivery_trig_def by (auto simp: and_then_Inr split: if_splits)
  from fin have same: "settings g' = settings g1 \<and> control g' = control g1 \<and> sst g' = sst g1"
    by (auto simp: settings_def control_def)
  with delivery_loop_effect [OF loop] v show ?thesis by (metis (no_types, lifting))
qed

lemma fold_keeps:
  assumes "\<And>j g. h (f j g) = h g"
  shows "h (fold f js g) = h g"
  using assms by (induction js arbitrary: g) simp_all

lemma skipped_turns_rdmc_frame:
  "settings (skipped_turns_rdmc sg node nss seq beg turns g) = settings g
   \<and> control (skipped_turns_rdmc sg node nss seq beg turns g) = control g
   \<and> sst (skipped_turns_rdmc sg node nss seq beg turns g) = sst g"
  unfolding skipped_turns_rdmc_def
  by (intro conjI fold_keeps) (simp_all add: settings_def control_def)

lemma skipped_turns_sst_frame:
  "settings (skipped_turns_sst sg node nss seq beg turns g) = settings g
   \<and> control (skipped_turns_sst sg node nss seq beg turns g) = control g
   \<and> sst (skipped_turns_sst sg node nss seq beg turns g) = sst g"
  unfolding skipped_turns_sst_def
  by (intro conjI fold_keeps) (simp_all add: settings_def control_def)

lemma move_to_locally_stable_frame:
  "move_to_locally_stable sg node seq h g = Inr g' \<Longrightarrow>
     settings g' = settings g \<and> control g' = control g \<and> sst g' = sst g"
  unfolding move_to_locally_stable_def
  by (auto simp: settings_def control_def split: if_splits option.splits)

lemma raw_deliver_one_frame:
  "raw_deliver_one sg seq g = Inr g' \<Longrightarrow>
     settings g' = settings g \<and> control g' = control g \<and> sst g' = sst g"
  unfolding raw_deliver_one_def
  by (auto simp: and_then_Inr Let_def settings_def control_def
      split: if_splits option.splits list.splits)

lemma raw_deliver_frame:
  "raw_deliver sg nss sr is g = Inr g' \<Longrightarrow>
     settings g' = settings g \<and> control g' = control g \<and> sst g' = sst g"
proof (induction "is" arbitrary: g)
  case Nil
  then show ?case by simp
next
  case (Cons i "is")
  from Cons.prems obtain g1 where one: "raw_deliver_one sg (i * int nss + int sr) g = Inr g1"
    and rest: "raw_deliver sg nss sr is g1 = Inr g'"
    by (auto split: sum.splits)
  from Cons.IH [OF rest] raw_deliver_one_frame [OF one] show ?case by simp
qed

lemma raw_mode_upcalls_frame:
  "raw_mode_upcalls sg nss sr entry new g = Inr g' \<Longrightarrow>
     settings g' = settings g \<and> control g' = control g \<and> sst g' = sst g"
  unfolding raw_mode_upcalls_def
  by (auto simp: and_then_Inr dest: raw_deliver_frame split: if_splits)

lemma publish_num_received_effect:
  "settings (publish_num_received sg off sr nss idx new g) = settings g
   \<and> control (publish_num_received sg off sr nss idx new g) = control g
   \<and> stable_num (sst (publish_num_received sg off sr nss idx new g)) = stable_num (sst g)
   \<and> delivered_num (sst (publish_num_received sg off sr nss idx new g)) = delivered_num (sst g)
   \<and> persisted_num (sst (publish_num_received sg off sr nss idx new g)) = persisted_num (sst g)
   \<and> (\<forall>i j. seq_num (sst (publish_num_received sg off sr nss idx new g)) i j = seq_num (sst g) i j
         \<or> (i = member_index g \<and> j = sg
            \<and> seq_num (sst g) i j < seq_num (sst (publish_num_received sg off sr nss idx new g)) i j))"
  by (simp add: publish_num_received_def Let_def settings_def control_def set_cell_def)

lemma publish_received_slots_effect:
  "settings (publish_received_slots sg off nss g) = settings g
   \<and> control (publish_received_slots sg off nss g) = control g
   \<and> stable_num (sst (publish_received_slots sg off nss g)) = stable_num (sst g)
   \<and> delivered_num (sst (publish_received_slots sg off nss g)) = delivered_num (sst g)
   \<and> persisted_num (sst (publish_received_slots sg off nss g)) = persisted_num (sst g)
   \<and> (\<forall>i j. seq_num (sst (publish_received_slots sg off nss g)) i j = seq_num (sst g) i j
         \<or> (i = member_index g \<and> j = sg
            \<and> seq_num (sst g) i j < seq_num (sst (publish_received_slots sg off nss g)) i j))"
  by (simp add: publish_received_slots_def Let_def settings_def control_def set_cell_def)

lemma rdmc_receive_handler_effect:
  assumes "rdmc_receive_handler resolve sg sr node nss idx h g = Inr g'"
  shows "settings g' = settings g \<and> control g' = control g
     \<and> stable_num (sst g') = stable_num (sst g) \<and> delivered_num (sst g') = delivered_num (sst g)
     \<and> persisted_num (sst g') = persisted_num (sst g)
     \<and> (\<forall>i j. seq_num (sst g') i j = seq_num (sst g) i j
           \<or> (i = member_index g \<and> j = sg \<and> seq_num (sst g) i j < seq_num (sst g') i j))"
proof -
  from assms obtain off g1 new iv g4 where
    g1: "move_to_locally_stable sg node (h_index h * int nss + int sr) h g = Inr g1" and
    g4: "raw_mode_upcalls sg nss sr (off + sr) new
           ((skipped_turns_rdmc sg node nss (h_index h * int nss + int sr) (h_index h)
               (pause_sending_turns h) g1)\<lparr>received_intervals := iv\<rparr>) = Inr g4" and
    g': "g' = publish_num_received sg off sr nss idx new g4"
    unfolding rdmc_receive_handler_def Let_def
    by (auto simp: and_then_Inr case_prod_beta)
  let ?g2 = "skipped_turns_rdmc sg node nss (h_index h * int nss + int sr) (h_index h)
               (pause_sending_turns h) g1"
  have g3: "settings (?g2\<lparr>received_intervals := iv\<rparr>) = settings g
      \<and> control (?g2\<lparr>received_intervals := iv\<rparr>) = control g
      \<and> sst (?g2\<lparr>received_intervals := iv\<rparr>) = sst g"
    using move_to_locally_stable_frame [OF g1]
      skipped_turns_rdmc_frame [of sg node nss "h_index h * int nss + int sr" "h_index h"
        "pause_sending_turns h" g1]
    by (simp add: settings_def control_def)
  with raw_mode_upcalls_frame [OF g4]
  have "settings g4 = settings g \<and> control g4 = control g \<and> sst g4 = sst g"
    by simp
  moreover from this have "member_index g4 = member_index g"
    by (simp add: settings_def)
  ultimately show ?thesis
    using publish_num_received_effect [of sg off sr nss idx new g4] unfolding g' by simp
qed

lemma receive_handler_plus_notify_effect:
  assumes "receive_handler_plus_notify resolve sg sr node nss idx h g = Inr g'"
  shows "settings g' = settings g \<and> control g' = control g
     \<and> stable_num (sst g') = stable_num (sst g) \<and> delivered_num (sst g') = delivered_num (sst g)
     \<and> persisted_num (sst g') = persisted_num (sst g)
     \<and> (\<forall>i j. seq_num (sst g') i j = seq_num (sst g) i j
           \<or> (i = member_index g \<and> j = sg \<and> seq_num (sst g) i j < seq_num (sst g') i j))"
proof -
  from assms obtain g1 where
    g1: "rdmc_receive_handler resolve sg sr node nss idx h g = Inr g1" and
    g': "g' = g1\<lparr>trace := trace g1 @ [Notify_all]\<rparr>"
    unfolding receive_handler_plus_notify_def by (auto simp: and_then_Inr)
  have "settings g' = settings g1 \<and> control g' = control g1 \<and> sst g' = sst g1"
    unfolding g' by (simp add: settings_def control_def)
  with rdmc_receive_handler_effect [OF g1] show ?thesis by simp
qed

lemma sst_receive_handler_frame:
  assumes "sst_receive_handler resolve sg ms ranks nss off sr h sz g = Inr g'"
  shows "settings g' = settings g \<and> control g' = control g
     \<and> seq_num (sst g') = seq_num (sst g) \<and> stable_num (sst g') = stable_num (sst g)
     \<and> delivered_num (sst g') = delivered_num (sst g)
     \<and> persisted_num (sst g') = persisted_num (sst g)"
proof -
  from assms obtain node new iv g4 where
    g4: "raw_mode_upcalls sg nss sr (off + sr) new
           ((skipped_turns_sst sg node nss (h_index h * int nss + int sr) (h_index h)
               (pause_sending_turns h)
               (g\<lparr>locally_stable_sst_messages := (locally_stable_sst_messages g)
                    (sg := map_assign (h_index h * int nss + int sr)
                       \<lparr>s_sender_id = node, s_index = h_index h, s_size = sz, s_buf = Some h\<rparr>
                       (locally_stable_sst_messages g sg))\<rparr>))\<lparr>received_intervals := iv\<rparr>) = Inr g4" and
    g': "g' = g4\<lparr>sst := (sst g4)\<lparr>num_received :=
                 set_cell (num_received (sst g4)) (member_index g4) (off + sr) new\<rparr>\<rparr>"
    unfolding sst_receive_handler_def Let_def
    by (auto simp: and_then_Inr case_prod_beta)
  let ?g1 = "g\<lparr>locally_stable_sst_messages := (locally_stable_sst_messages g)
                    (sg := map_assign (h_index h * int nss + int sr)
                       \<lparr>s_sender_id = node, s_index = h_index h, s_size = sz, s_buf = Some h\<rparr>
                       (locally_stable_sst_messages g sg))\<rparr>"
  let ?g2 = "skipped_turns_sst sg node nss (h_index h * int nss + int sr) (h_index h)
               (pause_sending_turns h) ?g1"
  have "settings (?g2\<lparr>received_intervals := iv\<rparr>) = settings g
      \<and> control (?g2\<lparr>received_intervals := iv\<rparr>) = control g
      \<and> sst (?g2\<lparr>received_intervals := iv\<rparr>) = sst g"
    using skipped_turns_sst_frame [of sg node nss "h_index h * int nss + int sr" "h_index h"
        "pause_sending_turns h" ?g1]
    by (simp add: settings_def control_def)
  with raw_mode_upcalls_frame [OF g4]
  have "settings g4 = settings g \<and> control g4 = control g \<and> sst g4 = sst g"
    by simp
  then show ?thesis unfolding g' by (simp add: settings_def control_def)
qed

lemma receive_from_senders_frame:
  "receive_from_senders resolve sg ms ranks nss off js g = Inr g' \<Longrightarrow>
     settings g' = settings g \<and> control g' = control g
     \<and> seq_num (sst g') = seq_num (sst g) \<and> stable_num (sst g') = stable_num (sst g)
     \<and> delivered_num (sst g') = delivered_num (sst g)
     \<and> persisted_num (sst g') = persisted_num (sst g)"
proof (induction js arbitrary: g)
  case Nil
  then show ?case by simp
next
  case (Cons j js)
  from Cons.prems obtain ready n sl where
    slot: "next_slot sg ms ranks off j g = Inr (ready, n, sl)"
    by (auto split: sum.splits)
  show ?case
  proof (cases ready)
    case False
    with Cons.prems slot have "receive_from_senders resolve sg ms ranks nss off js g = Inr g'"
      by simp
    from Cons.IH [OF this] show ?thesis .
  next
    case True
    with Cons.prems slot obtain g0 where
      h: "sst_receive_handler resolve sg ms ranks nss off j (slot_buf sl) (slot_size sl) g = Inr g0" and
      rest: "receive_from_senders resolve sg ms ranks nss off js
               (g0\<lparr>sst := (sst g0)\<lparr>num_received_sst :=
                   set_cell (num_received_sst (sst g0)) (member_index g0) (off + j) n\<rparr>\<rparr>) = Inr g'"
      by (auto simp: and_then_Inr split: sum.splits)
    from Cons.IH [OF rest] sst_receive_handler_frame [OF h] show ?thesis
      by (simp add: settings_def control_def)
  qed
qed

lemma receive_rounds_frame:
  "receive_rounds resolve sg ms ranks nss off n g = Inr g' \<Longrightarrow>
     settings g' = settings g \<and> control g' = control g
     \<and> seq_num (sst g') = seq_num (sst g) \<and> stable_num (sst g') = stable_num (sst g)
     \<and> delivered_num (sst g') = delivered_num (sst g)
     \<and> persisted_num (sst g') = persisted_num (sst g)"
proof (induction n arbitrary: g)
  case 0
  then show ?case by simp
next
  case (Suc n)
  from Suc.prems obtain g1 where
    one: "receive_from_senders resolve sg ms ranks nss off [0..<nss] g = Inr g1" and
    rest: "receive_rounds resolve sg ms ranks nss off n g1 = Inr g'"
    by (auto split: sum.splits)
  from Suc.IH [OF rest] receive_from_senders_frame [OF one] show ?case by simp
qed

lemma receiver_trig_effect:
  assumes "receiver_trig resolve sg ms ranks nss off g = Inr g'"
  shows "settings g' = settings g \<and> control g' = control g
     \<and> stable_num (sst g') = stable_num (sst g) \<and> delivered_num (sst g') = delivered_num (sst g)
     \<and> persisted_num (sst g') = persisted_num (sst g)
     \<and> (\<forall>i j. seq_num (sst g') i j = seq_num (sst g) i j
           \<or> (i = member_index g \<and> j = sg \<and> seq_num (sst g) i j < seq_num (sst g') i j))"
proof -
  from assms obtain n g1 where
    rounds: "receive_rounds resolve sg ms ranks nss off n g = Inr g1" and
    g': "g' = publish_received_slots sg off nss g1"
    unfolding receiver_trig_def Let_def by (auto simp: and_then_Inr)
  from receive_rounds_frame [OF rounds]
  have "settings g1 = settings g \<and> control g1 = control g
     \<and> seq_num (sst g1) = seq_num (sst g) \<and> stable_num (sst g1) = stable_num (sst g)
     \<and> delivered_num (sst g1) = delivered_num (sst g)
     \<and> persisted_num (sst g1) = persisted_num (sst g)" .
  moreover from this have "member_index g1 = member_index g"
    by (simp add: settings_def)
  ultimately show ?thesis
    using publish_received_slots_effect [of sg off nss g1] unfolding g' by simp
qed

lemma wedge_settings:
  "settings (wedge g) = settings g \<and> counters (wedge g) = counters g"
proof -
  have fold_remove: "seq_num (fold predicates_remove hs t) = seq_num t
      \<and> stable_num (fold predicates_remove hs t) = stable_num t
      \<and> delivered_num (fold predicates_remove hs t) = delivered_num t
      \<and> persisted_num (fold predicates_remove hs t) = persisted_num t
      \<and> num_received_size (fold predicates_remove hs t) = num_received_size t
      \<and> seq_num_size (fold predicates_remove hs t) = seq_num_size t" for hs t
    by (intro conjI fold_keeps) (simp_all add: predicates_remove_def)
  show ?thesis
    unfolding wedge_def
    by (simp add: remove_handles_def remove_sender_handles_def remove_receiver_handles_def
        remove_stability_handles_def remove_delivery_handles_def destroy_rdmc_groups_def
        stop_sender_thread_def settings_def counters_def fold_remove num_members_def)
qed

lemma file_written_callback_persisted:
  "file_written_callback m g = Inr g' \<Longrightarrow>
     persisted_num (sst g') i j = persisted_num (sst g) i j
     \<or> (i = member_index g \<and> j = pm_subgroup_num m)"
  unfolding file_written_callback_def
  by (auto simp: and_then_Inr Let_def set_cell_def num_members_def split: option.splits if_splits)

lemma unchanged_table:
  assumes "settings g' = settings g \<and> control g' = control g \<and> sst g' = sst g"
  shows "settings g' = settings g \<and> (a \<noteq> Wedge \<longrightarrow> control g' = control g)
     \<and> (\<forall>j. seq_num (sst g') (member_index g) j = seq_num (sst g) (member_index g) j \<or> P j)
     \<and> (\<forall>j. stable_num (sst g') (member_index g) j = stable_num (sst g) (member_index g) j \<or> Q j)
     \<and> (\<forall>j. delivered_num (sst g') (member_index g) j = delivered_num (sst g) (member_index g) j \<or> R j)
     \<and> (\<forall>j. persisted_num (sst g') (member_index g) j = persisted_num (sst g) (member_index g) j \<or> S j)"
  using assms by simp

lemma perform_effect:
  assumes "perform resolve a g = Inr g'"
  shows "settings g' = settings g \<and> (a \<noteq> Wedge \<longrightarrow> control g' = control g)
     \<and> (\<forall>j. seq_num (sst g') (member_index g) j = seq_num (sst g) (member_index g) j
           \<or> (((\<exists>sr node nss idx h. a = Rdmc_receive j sr node nss idx h) \<or> a = Receiver_trig j)
              \<and> seq_num (sst g) (member_index g) j < seq_num (sst g') (member_index g) j))
     \<and> (\<forall>j. stable_num (sst g') (member_index g) j = stable_num (sst g) (member_index g) j
           \<or> (a = Stability_trig j
              \<and> stable_num (sst g) (member_index g) j < stable_num (sst g') (member_index g) j
              \<and> (\<exists>ms. subgroup_to_shard_and_rank g j \<noteq> None \<and> subgroup_to_membership g j = Some ms
                    \<and> min_of_shard (\<lambda>row. seq_num (sst g) row j) ms g
                        = Inr (stable_num (sst g') (member_index g) j))))
     \<and> (\<forall>j. delivered_num (sst g') (member_index g) j = delivered_num (sst g) (member_index g) j
           \<or> (a = Delivery_trig j
              \<and> (\<exists>ms v. subgroup_to_shard_and_rank g j \<noteq> None \<and> subgroup_to_membership g j = Some ms
                    \<and> min_of_shard (\<lambda>row. stable_num (sst g) row j) ms g = Inr v
                    \<and> delivered_num (sst g') (member_index g) j \<le> v)))
     \<and> (\<forall>j. persisted_num (sst g') (member_index g) j = persisted_num (sst g) (member_index g) j
           \<or> (\<exists>m. a = File_written m \<and> pm_subgroup_num m = j))"
proof (cases a)
  case (Remote_write t)
  with assms have "g' = remote_write t g" by (simp add: perform_def)
  moreover have "member_index (remote_write t g) = member_index g"
    by (simp add: remote_write_def)
  ultimately show ?thesis
    using remote_write_frame [of t g] by (simp add: counters_def)
next
  case (Get_sendbuffer_ptr sg ps tm pause cooked ns slot)
  with assms obtain b where "get_sendbuffer_ptr sg ps tm pause cooked ns slot g = Inr (b, g')"
    by (auto simp: perform_def and_then_Inr)
  from unchanged_table [OF get_sendbuffer_ptr_frame [OF this]] show ?thesis .
next
  case (Send sg)
  with assms obtain b where "send sg g = Inr (b, g')"
    by (auto simp: perform_def and_then_Inr)
  from unchanged_table [OF send_frame [OF this]] show ?thesis .
next
  case (Send_loop_step ok)
  with assms obtain b where "send_loop_step ok g = Inr (b, g')"
    by (auto simp: perform_def and_then_Inr)
  from unchanged_table [OF send_loop_step_frame [OF this]] show ?thesis .
next
  case (Rdmc_incoming sg node sr nss len)
  with assms have "rdmc_incoming sg node sr nss len g = Inr g'"
    by (simp add: perform_def)
  from unchanged_table [OF rdmc_incoming_frame [OF this]] show ?thesis .
next
  case (Rdmc_receive sg sr node nss idx h)
  with assms consider "receive_handler_plus_notify resolve sg sr node nss idx h g = Inr g'"
    | "rdmc_receive_handler resolve sg sr node nss idx h g = Inr g'"
    by (auto simp: perform_def split: if_splits)
  then show ?thesis
  proof cases
    case 1
    from receive_handler_plus_notify_effect [OF this] Rdmc_receive show ?thesis
      by auto
  next
    case 2
    from rdmc_receive_handler_effect [OF this] Rdmc_receive show ?thesis
      by auto
  qed
next
  case (Receiver_trig sg)
  with assms consider "g' = g"
    | ms ranks nss off where "receiver_trig resolve sg ms ranks nss off g = Inr g'"
    by (auto simp: perform_def and_then_Inr Let_def split: if_splits)
  then show ?thesis
  proof cases
    case 1
    then show ?thesis by simp
  next
    case 2
    from receiver_trig_effect [OF this] Receiver_trig show ?thesis by auto
  qed
next
  case (Stability_trig sg)
  with assms consider "g' = g"
    | ms idx where "subgroup_to_shard_and_rank g sg \<noteq> None" "subgroup_to_membership g sg = Some ms"
      "stability_trig sg ms idx g = Inr g'"
    by (auto simp: perform_def and_then_Inr map_at_Inr split: if_splits)
  then show ?thesis
  proof cases
    case 1
    then show ?thesis by simp
  next
    case 2
    from stability_trig_effect [OF 2(3)] 2(1,2) Stability_trig show ?thesis
      by (auto; metis)
  qed
next
  case (Delivery_trig sg)
  with assms consider "g' = g"
    | ms where "subgroup_to_shard_and_rank g sg \<noteq> None" "subgroup_to_membership g sg = Some ms"
      "delivery_trig sg ms g = Inr g'"
    by (auto simp: perform_def and_then_Inr map_at_Inr split: if_splits)
  then show ?thesis
  proof cases
    case 1
    then show ?thesis by simp
  next
    case 2
    from delivery_trig_effect [OF 2(3)] 2(1,2) Delivery_trig show ?thesis
      by (auto; metis)
  qed
next
  case (Sender_trig sg)
  with assms have "g' = g \<or> g' = sender_trig sg g \<or> g' = sender_trig_raw sg g"
    by (auto simp: perform_def and_then_Inr split: if_splits)
  then have "settings g' = settings g \<and> control g' = control g \<and> sst g' = sst g"
    using sender_trig_frame [of sg g] by auto
  from unchanged_table [OF this] show ?thesis .
next
  case (Deliver_messages_upto max_indices sg nss)
  with assms have "deliver_messages_upto max_indices sg nss g = Inr g'"
    by (simp add: perform_def)
  from unchanged_table [OF deliver_messages_upto_frame [OF this]] show ?thesis .
next
  case (File_written m)
  with assms have cb: "file_written_callback m g = Inr g'"
    by (simp add: perform_def)
  from file_written_callback_frame [OF cb] file_written_callback_persisted [OF cb] File_written
  show ?thesis by auto
next
  case Wedge
  with assms have "g' = wedge g" by (simp add: perform_def)
  moreover from wedge_settings [of g] have "member_index (wedge g) = member_index g"
    by (simp add: settings_def)
  ultimately show ?thesis
    using wedge_settings [of g] Wedge by (simp add: counters_def)
qed

section \<open>The order of the counters\<close>

lemma initialize_sst_row_settings:
  "settings (initialize_sst_row g) = settings g"
  by (simp add: initialize_sst_row_def settings_def Let_def)

lemma initialize_sst_row_counters:
  assumes "i < num_members g" and "j < seq_num_size (sst g)"
  shows "seq_num (sst (initialize_sst_row g)) i j = - 1
     \<and> stable_num (sst (initialize_sst_row g)) i j = - 1
     \<and> delivered_num (sst (initialize_sst_row g)) i j = - 1
     \<and> persisted_num (sst (initialize_sst_row g)) i j = - 1"
  using assms by (simp add: initialize_sst_row_def Let_def)

lemma own_row_in_shards_settings:
  "settings g' = settings g \<Longrightarrow> own_row_in_shards g' = own_row_in_shards g"
  by (simp add: settings_def own_row_in_shards_def)

lemma perform_chain:
  assumes step: "perform resolve a g = Inr g'" and own: "own_row_in_shards g"
    and chain: "chain_holds g"
  shows "chain_holds g'"
  unfolding chain_holds_def
proof (intro allI impI)
  fix j
  assume "j < seq_num_size (sst g')"
  note eff = perform_effect [OF step]
  from eff have same: "settings g' = settings g" by simp
  then have me: "member_index g' = member_index g" and "seq_num_size (sst g') = seq_num_size (sst g)"
    by (simp_all add: settings_def)
  with \<open>j < seq_num_size (sst g')\<close> chain
  have old: "delivered_num (sst g) (member_index g) j \<le> stable_num (sst g) (member_index g) j"
    "stable_num (sst g) (member_index g) j \<le> seq_num (sst g) (member_index g) j"
    by (simp_all add: chain_holds_def)
  have below: "v \<le> col (member_index g)"
    if "subgroup_to_shard_and_rank g j \<noteq> None" "subgroup_to_membership g j = Some ms"
      "min_of_shard col ms g = Inr v" for col ms v
  proof -
    from own that(1,2) obtain m where "m \<in> set ms"
      "node_id_to_sst_index g m = Some (member_index g)"
      unfolding own_row_in_shards_def by blast
    from min_of_shard_le [OF that(3) this] show ?thesis .
  qed
  from eff have eff1: "\<forall>j. seq_num (sst g') (member_index g) j = seq_num (sst g) (member_index g) j
           \<or> (((\<exists>sr node nss idx h. a = Rdmc_receive j sr node nss idx h) \<or> a = Receiver_trig j)
              \<and> seq_num (sst g) (member_index g) j < seq_num (sst g') (member_index g) j)"
    by (elim conjE)
  from eff have eff2: "\<forall>j. stable_num (sst g') (member_index g) j = stable_num (sst g) (member_index g) j
           \<or> (a = Stability_trig j
              \<and> stable_num (sst g) (member_index g) j < stable_num (sst g') (member_index g) j
              \<and> (\<exists>ms. subgroup_to_shard_and_rank g j \<noteq> None \<and> subgroup_to_membership g j = Some ms
                    \<and> min_of_shard (\<lambda>row. seq_num (sst g) row j) ms g
                        = Inr (stable_num (sst g') (member_index g) j)))"
    by (elim conjE)
  from eff have eff3: "\<forall>j. delivered_num (sst g') (member_index g) j = delivered_num (sst g) (member_index g) j
           \<or> (a = Delivery_trig j
              \<and> (\<exists>ms v. subgroup_to_shard_and_rank g j \<noteq> None \<and> subgroup_to_membership g j = Some ms
                    \<and> min_of_shard (\<lambda>row. stable_num (sst g) row j) ms g = Inr v
                    \<and> delivered_num (sst g') (member_index g) j \<le> v))"
    by (elim conjE)
  note seq = eff1 [rule_format, of j] and stable = eff2 [rule_format, of j]
    and delivered = eff3 [rule_format, of j]
  from stable have stable_up:
    "stable_num (sst g) (member_index g) j \<le> stable_num (sst g') (member_index g) j"
    by auto
  have "stable_num (sst g') (member_index g) j \<le> seq_num (sst g') (member_index g) j"
  proof (cases "a = Stability_trig j")
    case True
    with seq have "seq_num (sst g') (member_index g) j = seq_num (sst g) (member_index g) j"
      by auto
    moreover have "stable_num (sst g') (member_index g) j \<le> seq_num (sst g) (member_index g) j"
    proof (cases "stable_num (sst g') (member_index g) j = stable_num (sst g) (member_index g) j")
      case True
      with old(2) show ?thesis by simp
    next
      case False
      with stable obtain ms where
        "subgroup_to_shard_and_rank g j \<noteq> None" "subgroup_to_membership g j = Some ms"
        "min_of_shard (\<lambda>row. seq_num (sst g) row j) ms g
           = Inr (stable_num (sst g') (member_index g) j)"
        by blast
      from below [OF this] show ?thesis .
    qed
    ultimately show ?thesis by simp
  next
    case False
    with stable have "stable_num (sst g') (member_index g) j = stable_num (sst g) (member_index g) j"
      by auto
    with seq old(2) show ?thesis by auto
  qed
  moreover have "delivered_num (sst g') (member_index g) j \<le> stable_num (sst g') (member_index g) j"
  proof (cases "a = Delivery_trig j")
    case True
    with stable have "stable_num (sst g') (member_index g) j = stable_num (sst g) (member_index g) j"
      by auto
    moreover have "delivered_num (sst g') (member_index g) j \<le> stable_num (sst g) (member_index g) j"
    proof (cases "delivered_num (sst g') (member_index g) j = delivered_num (sst g) (member_index g) j")
      case True
      with old(1) show ?thesis by simp
    next
      case False
      with delivered obtain ms v where
        "subgroup_to_shard_and_rank g j \<noteq> None" "subgroup_to_membership g j = Some ms"
        "min_of_shard (\<lambda>row. stable_num (sst g) row j) ms g = Inr v" and
        le: "delivered_num (sst g') (member_index g) j \<le> v"
        by blast
      from below [OF this(1-3)] le show ?thesis by simp
    qed
    ultimately show ?thesis by simp
  next
    case False
    with delivered
    have "delivered_num (sst g') (member_index g) j = delivered_num (sst g) (member_index g) j"
      by auto
    with stable_up old(1) show ?thesis by simp
  qed
  ultimately show "delivered_num (sst g') (member_index g') j \<le> stable_num (sst g') (member_index g') j
    \<and> stable_num (sst g') (member_index g') j \<le> seq_num (sst g') (member_index g') j"
    using me by simp
qed

lemma run_chain:
  "run resolve as g = Inr g' \<Longrightarrow> own_row_in_shards g \<Longrightarrow> chain_holds g \<Longrightarrow> chain_holds g'"
proof (induction as arbitrary: g)
  case Nil
  then show ?case by simp
next
  case (Cons a as)
  from Cons.prems(1) obtain g1 where
    one: "perform resolve a g = Inr g1" and rest: "run resolve as g1 = Inr g'"
    by (auto split: sum.splits)
  from perform_effect [OF one] have "settings g1 = settings g" by simp
  from own_row_in_shards_settings [OF this] Cons.prems(2) have "own_row_in_shards g1"
    by simp
  from Cons.IH [OF rest this perform_chain [OF one Cons.prems(2,3)]] show ?case .
qed

lemmas run_defs = perform_def get_sendbuffer_ptr_def requested_msg_size_def sizeof_header_def
  and_then_def map_at_def get_num_senders_def Let_def num_members_def my_node_id_def fill_header_def
  send_def send_loop_step_def should_send_def should_send_to_subgroup_def
  rdmc_receive_handler_def receive_handler_plus_notify_def move_to_locally_stable_def skipped_turns_rdmc_def publish_num_received_def
  resolve_in_order_def raw_mode_upcalls_def new_seq_num_of_def min_element_def set_cell_def
  deliver_messages_upto_def max_seq_num_upto_def deliver_range.simps deliver_upto_step_def
  deliver_message_def persistence_sequence_number_def map_erase_def upcall_def payload_length_def
  file_written_callback_def to_long_long_def get_shard_sst_indices_def
  stability_trig_def min_of_shard_def upt_conv_Cons example_group_fields
  delivery_trig_def delivery_loop.simps delivery_step_def least_undelivered_def LLONG_MAX_def
  remote_write_def keep_own_row_def rdmc_incoming_def received_into_def
  receiver_pred_def receiver_trig_def next_slot_def sender_node_def shard_ranks_by_sender_rank_def
  sst_receive_handler_def skipped_turns_sst_def publish_received_slots_def

text \<open>
  C1, as the code has it. The constructor sets the four counters of every row to -1.
  At every quiescent moment of a node, for every subgroup, the counters of its own row
  satisfy \<open>delivered_num \<le> stable_num \<le> seq_num\<close>. An action changes a counter of
  the own row only as follows: \<open>seq_num\<close> grows in a receive handler, \<open>stable_num\<close>
  grows to the least \<open>seq_num\<close> of the shard in the stability trigger, \<open>delivered_num\<close>
  is set to at most the least \<open>stable_num\<close> of the shard in the delivery trigger, and
  \<open>persisted_num\<close> is set in the callback of the file writer. Nothing is said about
  \<open>persisted_num \<le> delivered_num\<close>.
\<close>

theorem counters_chain_of_own_row:
  "(\<forall>i < num_members g0. \<forall>j < seq_num_size (sst g0).
      seq_num (sst (initialize_sst_row g0)) i j = - 1
      \<and> stable_num (sst (initialize_sst_row g0)) i j = - 1
      \<and> delivered_num (sst (initialize_sst_row g0)) i j = - 1
      \<and> persisted_num (sst (initialize_sst_row g0)) i j = - 1)
   \<and> (member_index g0 < num_members g0 \<and> own_row_in_shards g0 \<and> reachable resolve g0 g
        \<longrightarrow> chain_holds g)
   \<and> (perform resolve a g = Inr g' \<longrightarrow>
        (\<forall>j. seq_num (sst g') (member_index g) j = seq_num (sst g) (member_index g) j
           \<or> (((\<exists>sr node nss idx h. a = Rdmc_receive j sr node nss idx h) \<or> a = Receiver_trig j)
              \<and> seq_num (sst g) (member_index g) j < seq_num (sst g') (member_index g) j))
        \<and> (\<forall>j. stable_num (sst g') (member_index g) j = stable_num (sst g) (member_index g) j
           \<or> (a = Stability_trig j
              \<and> stable_num (sst g) (member_index g) j < stable_num (sst g') (member_index g) j
              \<and> (\<exists>ms. subgroup_to_shard_and_rank g j \<noteq> None \<and> subgroup_to_membership g j = Some ms
                    \<and> min_of_shard (\<lambda>row. seq_num (sst g) row j) ms g
                        = Inr (stable_num (sst g') (member_index g) j))))
        \<and> (\<forall>j. delivered_num (sst g') (member_index g) j = delivered_num (sst g) (member_index g) j
           \<or> (a = Delivery_trig j
              \<and> (\<exists>ms v. subgroup_to_shard_and_rank g j \<noteq> None \<and> subgroup_to_membership g j = Some ms
                    \<and> min_of_shard (\<lambda>row. stable_num (sst g) row j) ms g = Inr v
                    \<and> delivered_num (sst g') (member_index g) j \<le> v)))
        \<and> (\<forall>j. persisted_num (sst g') (member_index g) j = persisted_num (sst g) (member_index g) j
           \<or> (\<exists>m. a = File_written m \<and> pm_subgroup_num m = j)))"
proof (intro conjI allI impI)
  fix i j
  assume "i < num_members g0" "j < seq_num_size (sst g0)"
  from initialize_sst_row_counters [OF this]
  show "seq_num (sst (initialize_sst_row g0)) i j = - 1"
    "stable_num (sst (initialize_sst_row g0)) i j = - 1"
    "delivered_num (sst (initialize_sst_row g0)) i j = - 1"
    "persisted_num (sst (initialize_sst_row g0)) i j = - 1"
    by simp_all
next
  assume a: "member_index g0 < num_members g0 \<and> own_row_in_shards g0 \<and> reachable resolve g0 g"
  then obtain as where run: "run resolve as (initialize_sst_row g0) = Inr g"
    by (auto simp: reachable_def)
  have same: "settings (initialize_sst_row g0) = settings g0"
    by (rule initialize_sst_row_settings)
  then have me: "member_index (initialize_sst_row g0) = member_index g0"
    and sz: "seq_num_size (sst (initialize_sst_row g0)) = seq_num_size (sst g0)"
    by (simp_all add: settings_def)
  from a have "chain_holds (initialize_sst_row g0)"
    unfolding chain_holds_def me sz
    using initialize_sst_row_counters [of "member_index g0" g0] by simp
  moreover from a own_row_in_shards_settings [OF same]
  have "own_row_in_shards (initialize_sst_row g0)" by simp
  ultimately show "chain_holds g" using run_chain [OF run] by simp
next
  assume "perform resolve a g = Inr g'"
  note eff = perform_effect [OF this]
  fix j
  from eff show "seq_num (sst g') (member_index g) j = seq_num (sst g) (member_index g) j
           \<or> (((\<exists>sr node nss idx h. a = Rdmc_receive j sr node nss idx h) \<or> a = Receiver_trig j)
              \<and> seq_num (sst g) (member_index g) j < seq_num (sst g') (member_index g) j)"
    by (elim conjE allE [of _ j])
  from eff show "stable_num (sst g') (member_index g) j = stable_num (sst g) (member_index g) j
           \<or> (a = Stability_trig j
              \<and> stable_num (sst g) (member_index g) j < stable_num (sst g') (member_index g) j
              \<and> (\<exists>ms. subgroup_to_shard_and_rank g j \<noteq> None \<and> subgroup_to_membership g j = Some ms
                    \<and> min_of_shard (\<lambda>row. seq_num (sst g) row j) ms g
                        = Inr (stable_num (sst g') (member_index g) j)))"
    by (elim conjE allE [of _ j])
  from eff show "delivered_num (sst g') (member_index g) j = delivered_num (sst g) (member_index g) j
           \<or> (a = Delivery_trig j
              \<and> (\<exists>ms v. subgroup_to_shard_and_rank g j \<noteq> None \<and> subgroup_to_membership g j = Some ms
                    \<and> min_of_shard (\<lambda>row. stable_num (sst g) row j) ms g = Inr v
                    \<and> delivered_num (sst g') (member_index g) j \<le> v))"
    by (elim conjE allE [of _ j])
  from eff show "persisted_num (sst g') (member_index g) j = persisted_num (sst g) (member_index g) j
           \<or> (\<exists>m. a = File_written m \<and> pm_subgroup_num m = j)"
    by (elim conjE allE [of _ j])
qed

theorem counters_chain_of_own_row_witness:
  "member_index (unbuilt_group [1, 1] 0 True) < num_members (unbuilt_group [1, 1] 0 True)
   \<and> own_row_in_shards (unbuilt_group [1, 1] 0 True)
   \<and> (\<exists>g. run resolve_in_order forced_delivery_run (example_group [1, 1] 0 True) = Inr g
         \<and> seq_num (sst g) 0 0 = 0 \<and> chain_holds g)"
proof -
  have wf: "member_index (unbuilt_group [1, 1] 0 True) < num_members (unbuilt_group [1, 1] 0 True)"
    "own_row_in_shards (unbuilt_group [1, 1] 0 True)"
    by (simp_all add: unbuilt_group_def num_members_def own_row_in_shards_def)
  obtain g where
    run: "run resolve_in_order forced_delivery_run (example_group [1, 1] 0 True) = Inr g"
    and seq: "seq_num (sst g) 0 0 = 0"
    by (simp add: forced_delivery_run_def run_defs)
  from run have "reachable resolve_in_order (unbuilt_group [1, 1] 0 True) g"
    unfolding reachable_def example_group_def by blast
  with wf counters_chain_of_own_row [of "unbuilt_group [1, 1] 0 True" resolve_in_order g]
  have "chain_holds g" by blast
  with wf run seq show ?thesis by blast
qed

text \<open>
  C1 as stated fails. In the example group with persistence, node 0 sends and receives
  its message 0, \<^verbatim>\<open>deliver_messages_upto\<close> delivers it, which hands it to the file writer
  and leaves \<open>delivered_num\<close> as it is, the file writer reports the message, and the
  stability predicate fires: then \<open>persisted_num\<close> is 0 and \<open>delivered_num\<close> and
  \<open>stable_num\<close> are still -1.
\<close>

theorem forced_delivery_counterexample:
  "(case run resolve_in_order forced_delivery_run (example_group [1, 1] 0 True) of
      Inl e \<Rightarrow> False
    | Inr g \<Rightarrow> persisted_num (sst g) 0 0 = 0 \<and> delivered_num (sst g) 0 0 = - 1
        \<and> stable_num (sst g) 0 0 = - 1 \<and> seq_num (sst g) 0 0 = 0
        \<and> \<not> persisted_num (sst g) 0 0 \<le> delivered_num (sst g) 0 0)"
  by (simp add: forced_delivery_run_def run_defs)


section \<open>A wedged group\<close>

lemma predicates_after_removal:
  "set (predicates (fold predicates_remove hs t)) = set (predicates t) - set hs"
  by (induction hs arbitrary: t) (auto simp: predicates_remove_def)

lemma remove_handles_fields:
  "thread_shutdown (remove_handles hs g) = thread_shutdown g"
  "sender_pred_handles (remove_handles hs g) = sender_pred_handles g"
  "receiver_pred_handles (remove_handles hs g) = receiver_pred_handles g"
  "stability_pred_handles (remove_handles hs g) = stability_pred_handles g"
  "delivery_pred_handles (remove_handles hs g) = delivery_pred_handles g"
  "set (predicates (sst (remove_handles hs g))) = set (predicates (sst g)) - set hs"
  by (simp_all add: remove_handles_def predicates_after_removal)

lemma wedge_control:
  assumes "\<not> thread_shutdown g"
  shows "thread_shutdown (wedge g) \<and> group_handles (wedge g) = []
     \<and> set (predicates (sst (wedge g))) = set (predicates (sst g)) - set (group_handles g)"
  using assms
  by (auto simp: wedge_def group_handles_def remove_sender_handles_def remove_receiver_handles_def
      remove_stability_handles_def remove_delivery_handles_def destroy_rdmc_groups_def
      stop_sender_thread_def remove_handles_fields)

lemma run_control:
  "run resolve as g = Inr g' \<Longrightarrow> thread_shutdown g \<Longrightarrow> control g' = control g"
proof (induction as arbitrary: g)
  case Nil
  then show ?case by simp
next
  case (Cons a as)
  from Cons.prems(1) obtain g1 where
    one: "perform resolve a g = Inr g1" and rest: "run resolve as g1 = Inr g'"
    by (auto split: sum.splits)
  have "control g1 = control g"
  proof (cases "a = Wedge")
    case True
    with one Cons.prems(2) show ?thesis by (simp add: perform_def wedge_def)
  next
    case False
    with perform_effect [OF one] show ?thesis by simp
  qed
  moreover from this Cons.prems(2) have "thread_shutdown g1"
    by (simp add: control_def)
  ultimately show ?case using Cons.IH [OF rest] by simp
qed

lemma get_sendbuffer_ptr_shutdown:
  assumes "thread_shutdown g"
    and "get_sendbuffer_ptr sg ps tm pause cooked ns slot g = Inr (b, g')"
  shows "b = None"
  using assms unfolding get_sendbuffer_ptr_def
  by (auto simp: and_then_def Let_def split: if_splits prod.splits sum.splits)

lemma any_shard_member_total:
  assumes "list_all (\<lambda>m. idx m \<noteq> None) ms" and "\<And>row. \<exists>b. cond row = Inr b"
  shows "\<exists>b. any_shard_member idx cond ms = Inr b"
  using assms(1)
proof (induction ms)
  case Nil
  have "any_shard_member idx cond [] = Inr False" by simp
  then show ?case ..
next
  case (Cons m ms)
  then obtain row where row: "idx m = Some row" by auto
  from assms(2) obtain b where b: "cond row = Inr b" by blast
  from Cons obtain b' where "any_shard_member idx cond ms = Inr b'" by auto
  with row b show ?case by (cases b) auto
qed

lemma get_sendbuffer_ptr_null:
  assumes "thread_shutdown g" and "sender_of_subgroup sg g"
  shows "\<exists>g'. get_sendbuffer_ptr sg ps tm pause cooked ns slot g = Inr (None, g')"
proof -
  from assms(2) obtain sr ms ss r mode off where
    cfg: "subgroup_to_shard_and_rank g sg = Some sr" "subgroup_to_membership g sg = Some ms"
      "subgroup_to_senders_and_sender_rank g sg = Some (ss, r)" "subgroup_to_mode g sg = Some mode"
      "subgroup_to_num_received_offset g sg = Some off" "0 \<le> r"
    and rows: "list_all (\<lambda>m. node_id_to_sst_index g m \<noteq> None) ms"
    unfolding sender_of_subgroup_def by (auto split: option.splits prod.splits)
  obtain b1 where b1: "any_shard_member (node_id_to_sst_index g)
      (\<lambda>row. Inr (delivered_num (sst g) row sg
          < (future_message_indices g sg - int (window_size g)) * int (get_num_senders ss) + r)) ms
      = Inr b1"
    using any_shard_member_total [OF rows, of "\<lambda>row. Inr (delivered_num (sst g) row sg
          < (future_message_indices g sg - int (window_size g)) * int (get_num_senders ss) + r)"]
    by blast
  obtain b2 where b2: "any_shard_member (node_id_to_sst_index g)
      (\<lambda>row. Inr (num_received (sst g) row (off + nat r)
          < future_message_indices g sg - int (window_size g))) ms = Inr b2"
    using any_shard_member_total [OF rows, of "\<lambda>row. Inr (num_received (sst g) row (off + nat r)
          < future_message_indices g sg - int (window_size g))"]
    by blast
  from cfg b1 b2 assms(1) show ?thesis
    unfolding get_sendbuffer_ptr_def
    by (simp add: and_then_def map_at_def Let_def)
qed

text \<open>
  C7: once a first call of \<^verbatim>\<open>wedge\<close> has returned, whatever runs afterwards, \<^verbatim>\<open>send\<close>
  returns false and changes nothing, \<^verbatim>\<open>get_sendbuffer_ptr\<close> hands out no buffer (it
  returns null whenever it returns, and it returns for a subgroup of which the node is
  a sender), the group holds no predicate handle, and none of the handles it held is
  registered, so that none of its triggers fires.
\<close>

theorem wedged_group_refuses:
  assumes "\<not> thread_shutdown g" and "run resolve as (wedge g) = Inr g'"
  shows "send subgroup_num g' = Inr (False, g')
     \<and> (\<forall>b g''. get_sendbuffer_ptr subgroup_num payload_size medium pause cooked null_send slot g'
                   = Inr (b, g'') \<longrightarrow> b = None)
     \<and> (sender_of_subgroup subgroup_num g'
          \<longrightarrow> (\<exists>g''. get_sendbuffer_ptr subgroup_num payload_size medium pause cooked null_send slot g'
                   = Inr (None, g'')))
     \<and> group_handles g' = []
     \<and> (\<forall>h \<in> set (group_handles g). \<not> fires (sst g') h)"
proof -
  from wedge_control [OF assms(1)] have w: "thread_shutdown (wedge g)"
    "group_handles (wedge g) = []"
    "set (predicates (sst (wedge g))) = set (predicates (sst g)) - set (group_handles g)"
    by simp_all
  from run_control [OF assms(2) w(1)] have same: "control g' = control (wedge g)" .
  with w have shut: "thread_shutdown g'" and none: "group_handles g' = []"
    and regs: "set (predicates (sst g')) = set (predicates (sst g)) - set (group_handles g)"
    by (simp_all add: control_def group_handles_def)
  from shut have "send subgroup_num g' = Inr (False, g')"
    by (simp add: send_def)
  moreover from shut get_sendbuffer_ptr_shutdown
  have "\<forall>b g''. get_sendbuffer_ptr subgroup_num payload_size medium pause cooked null_send slot g'
                   = Inr (b, g'') \<longrightarrow> b = None"
    by blast
  moreover from shut get_sendbuffer_ptr_null
  have "sender_of_subgroup subgroup_num g'
          \<longrightarrow> (\<exists>g''. get_sendbuffer_ptr subgroup_num payload_size medium pause cooked null_send slot g'
                   = Inr (None, g''))"
    by blast
  moreover from regs have "\<forall>h \<in> set (group_handles g). \<not> fires (sst g') h"
    by (simp add: fires_def)
  ultimately show ?thesis using none by blast
qed

theorem wedged_group_refuses_witness:
  "\<not> thread_shutdown (example_group [1, 1] 0 False)
   \<and> (\<exists>g'. run resolve_in_order [Stability_trig 0] (wedge (example_group [1, 1] 0 False)) = Inr g'
         \<and> sender_of_subgroup 0 g'
         \<and> send 0 g' = Inr (False, g')
         \<and> (\<exists>g''. get_sendbuffer_ptr 0 10 True 0 False False None g' = Inr (None, g''))
         \<and> group_handles (example_group [1, 1] 0 False) = [0, 1, 2, 3]
         \<and> fires (sst (example_group [1, 1] 0 False)) 2
         \<and> \<not> fires (sst g') 2)"
proof -
  have open_group: "\<not> thread_shutdown (example_group [1, 1] 0 False)"
    by (simp add: example_group_fields)
  have run: "run resolve_in_order [Stability_trig 0] (wedge (example_group [1, 1] 0 False))
      = Inr (wedge (example_group [1, 1] 0 False))"
    by (simp add: run_defs wedge_def wedge_parts predicates_remove_def)
  have sender: "sender_of_subgroup 0 (wedge (example_group [1, 1] 0 False))"
    by (simp add: sender_of_subgroup_def wedge_def wedge_parts example_group_fields)
  have handles: "group_handles (example_group [1, 1] 0 False) = [0, 1, 2, 3]"
    "fires (sst (example_group [1, 1] 0 False)) 2"
    by (simp_all add: group_handles_def fires_def example_group_fields)
  from wedged_group_refuses [OF open_group run, of 0 10 True 0 False False None] sender handles
    open_group run
  show ?thesis by simp
qed


section \<open>The gate of the sender\<close>










section \<open>Messages of size zero\<close>

text \<open>
  C6, as the code has it. A message of size zero, which is what the receive handlers
  insert for a turn that the sender skips, makes no upcall and is not handed to the
  file writer: \<^verbatim>\<open>deliver_message\<close> leaves the group as it is. When such a message is the
  least undelivered one and is stable, a pass of the delivery trigger removes it from
  its queue and sets \<open>delivered_num\<close> to its sequence number, and does nothing else.
  A null send is not such a message: its size is the size of the header.
\<close>

theorem zero_size_delivery:
  "(r_size msg = 0 \<longrightarrow> deliver_message msg sg g = Inr g)
   \<and> (s_size smsg = 0 \<longrightarrow> deliver_message_sst smsg sg g = Inr g)
   \<and> r_size (skipped_turn_rdmc node_id idx) = 0 \<and> s_size (skipped_turn_sst node_id idx) = 0
   \<and> (locally_stable_rdmc_messages g sg = (k, msg) # rest \<and> r_size msg = 0
        \<and> k < least_undelivered (locally_stable_sst_messages g sg) \<and> k \<le> min_stable_num
        \<longrightarrow> delivery_step sg min_stable_num g =
              Inr (Some (g\<lparr>sst := (sst g)\<lparr>delivered_num :=
                             set_cell (delivered_num (sst g)) (member_index g) sg k\<rparr>,
                           locally_stable_rdmc_messages :=
                             (locally_stable_rdmc_messages g)(sg := rest)\<rparr>)))
   \<and> (locally_stable_sst_messages g sg = (k, smsg) # srest \<and> s_size smsg = 0
        \<and> k < least_undelivered (locally_stable_rdmc_messages g sg) \<and> k \<le> min_stable_num
        \<longrightarrow> delivery_step sg min_stable_num g =
              Inr (Some (g\<lparr>sst := (sst g)\<lparr>delivered_num :=
                             set_cell (delivered_num (sst g)) (member_index g) sg k\<rparr>,
                           locally_stable_sst_messages :=
                             (locally_stable_sst_messages g)(sg := srest)\<rparr>)))
   \<and> requested_msg_size payload_size True g = sizeof_header \<and> 0 < sizeof_header"
proof -
  have rdmc: "r_size msg = 0 \<Longrightarrow> deliver_message msg sg g = Inr g"
    and slot: "s_size smsg = 0 \<Longrightarrow> deliver_message_sst smsg sg g = Inr g"
    by (simp_all add: deliver_message_def deliver_message_sst_def)
  have "delivery_step sg min_stable_num g =
      Inr (Some (g\<lparr>sst := (sst g)\<lparr>delivered_num :=
                     set_cell (delivered_num (sst g)) (member_index g) sg k\<rparr>,
                   locally_stable_rdmc_messages := (locally_stable_rdmc_messages g)(sg := rest)\<rparr>))"
    if "locally_stable_rdmc_messages g sg = (k, msg) # rest" "r_size msg = 0"
      "k < least_undelivered (locally_stable_sst_messages g sg)" "k \<le> min_stable_num"
    using that rdmc by (simp add: delivery_step_def Let_def least_undelivered_def)
  moreover have "delivery_step sg min_stable_num g =
      Inr (Some (g\<lparr>sst := (sst g)\<lparr>delivered_num :=
                     set_cell (delivered_num (sst g)) (member_index g) sg k\<rparr>,
                   locally_stable_sst_messages := (locally_stable_sst_messages g)(sg := srest)\<rparr>))"
    if "locally_stable_sst_messages g sg = (k, smsg) # srest" "s_size smsg = 0"
      "k < least_undelivered (locally_stable_rdmc_messages g sg)" "k \<le> min_stable_num"
    using that slot by (simp add: delivery_step_def Let_def least_undelivered_def)
  moreover have "requested_msg_size payload_size True g = sizeof_header" "0 < sizeof_header"
    by (simp_all add: requested_msg_size_def sizeof_header_def)
  ultimately show ?thesis
    using rdmc slot by (simp add: skipped_turn_rdmc_def skipped_turn_sst_def)
qed

theorem zero_size_delivery_witness:
  "\<exists>g g'. run resolve_in_order skipped_turn_run (example_group [1, 0] 0 False) = Inr g
     \<and> locally_stable_rdmc_messages g 0 = [(1, skipped_turn_rdmc 0 1)]
     \<and> delivery_step 0 1 g = Inr (Some g')
     \<and> delivered_num (sst g) 0 0 = 0 \<and> delivered_num (sst g') 0 0 = 1
     \<and> trace g' = trace g \<and> locally_stable_rdmc_messages g' 0 = []"
proof -
  obtain g where
    run: "run resolve_in_order skipped_turn_run (example_group [1, 0] 0 False) = Inr g"
    and queue: "locally_stable_rdmc_messages g 0 = (1, skipped_turn_rdmc 0 1) # []"
    and none: "locally_stable_sst_messages g 0 = []"
    and before: "delivered_num (sst g) 0 0 = 0" "member_index g = 0"
    by (simp add: skipped_turn_run_def run_defs peer_caught_up_def example_sst_def
        skipped_turn_rdmc_def)
  have "r_size (skipped_turn_rdmc 0 1) = 0"
    by (simp add: skipped_turn_rdmc_def)
  with zero_size_delivery [of "skipped_turn_rdmc 0 1" 0 g _ 0 1 1 "[]" 1] queue none
  have "delivery_step 0 1 g =
      Inr (Some (g\<lparr>sst := (sst g)\<lparr>delivered_num :=
                     set_cell (delivered_num (sst g)) (member_index g) 0 1\<rparr>,
                   locally_stable_rdmc_messages := (locally_stable_rdmc_messages g)(0 := [])\<rparr>))"
    by (simp add: least_undelivered_def LLONG_MAX_def)
  with run queue before show ?thesis
    by (simp add: set_cell_def)
qed

text \<open>
  C6 as stated fails for a null send. Node 0 makes a null send in the example group
  with persistence; when the message is delivered, the stability callback is called
  for it with a payload of length 0, and the message is handed to the file writer.
\<close>

theorem null_send_counterexample:
  "(case run resolve_in_order null_send_run (example_group [1, 1] 0 True) of
      Inl e \<Rightarrow> False
    | Inr g \<Rightarrow>
        delivered_num (sst g) 0 0 = 0
        \<and> Global_stability_callback 0 0 0 0 \<in> set (trace g)
        \<and> Write_message 17 0 0 0 False \<in> set (trace g))"
  by (simp add: null_send_run_def run_defs peer_caught_up_def example_sst_def)


section \<open>Forced delivery at the ragged edge\<close>

text \<open>
  C5 at the ragged edge of the example group: the bound of sender 0 is index 0, and
  \<^verbatim>\<open>deliver_messages_upto\<close> delivers message 1 of sender 0 all the same, because its
  sequence number 2 is below the largest sequence number of all bounds, 5.
\<close>

theorem ragged_edge_delivers_beyond_bound:
  "(case run resolve_in_order ragged_edge_run (example_group [1, 1] 0 False) of
      Inl e \<Rightarrow> False
    | Inr g \<Rightarrow>
        max_seq_num_upto [0, 2] 2 (- 1) = 5
        \<and> Global_stability_callback 0 0 1 10 \<in> set (trace g)
        \<and> locally_stable_rdmc_messages g 0 = []
        \<and> delivered_num (sst g) 0 0 = - 1)"
  by (simp add: ragged_edge_run_def run_defs)

section \<open>The report of the file writer\<close>

text \<open>
  C4 in the example group in which node 1 is the only sender. Node 0 has delivered the
  messages 0 and 1 of node 1, with the sequence numbers 0 and 1. When the file writer
  reports message 0, the callback computes the sequence number 1 from the size of the
  group and the position of the sender in it: it removes the entry of message 1, keeps
  that of message 0, and sets \<open>persisted_num\<close> to 1. When the file writer then reports
  message 1, the callback computes 3 and its assertion fails.
\<close>

theorem report_removes_other_message:
  "(case run resolve_in_order (persisted_run @ [File_written report_of_message_0])
           (example_group [0, 1] (- 1) True) of
      Inl e \<Rightarrow> False
    | Inr g \<Rightarrow>
        persistence_sequence_number 0 1 0 g = Inr 0
        \<and> persisted_num (sst g) 0 0 = 1
        \<and> map (\<lambda>(k, msg). (k, r_index msg)) (non_persistent_messages g 0) = [(0, 0)]
        \<and> file_written_callback report_of_message_1 g = Inl AssertionFailed)"
  by (simp add: persisted_run_def run_defs peer_sent_two_def example_sst_def
      report_of_message_0_def report_of_message_1_def)


section \<open>The new sequence number\<close>

lemma min_element_one: "min_element a first (Suc first) = first"
  by (simp add: min_element_def)

lemma min_element_Suc:
  assumes "0 < n"
  shows "min_element a first (first + Suc n) =
     (if a (first + n) < a (min_element a first (first + n)) then first + n
      else min_element a first (first + n))"
proof -
  from assms have "[Suc first..<first + Suc n] = [Suc first..<first + n] @ [first + n]"
    by simp
  then show ?thesis by (simp add: min_element_def)
qed

lemma min_element_first_least:
  assumes "0 < n"
  shows "first \<le> min_element a first (first + n) \<and> min_element a first (first + n) < first + n
     \<and> (\<forall>i. first \<le> i \<and> i < first + n \<longrightarrow> a (min_element a first (first + n)) \<le> a i)
     \<and> (\<forall>i. first \<le> i \<and> i < min_element a first (first + n)
            \<longrightarrow> a (min_element a first (first + n)) < a i)"
  using assms
proof (induction n)
  case 0
  then show ?case by simp
next
  case (Suc n)
  show ?case
  proof (cases "n = 0")
    case True
    then show ?thesis
      using min_element_one [of a first] by (auto simp: le_less_Suc_eq)
  next
    case False
    then have pos: "0 < n" by simp
    let ?p = "min_element a first (first + n)"
    from Suc.IH [OF pos] have ih: "first \<le> ?p" "?p < first + n"
      "\<And>i. first \<le> i \<Longrightarrow> i < first + n \<Longrightarrow> a ?p \<le> a i"
      "\<And>i. first \<le> i \<Longrightarrow> i < ?p \<Longrightarrow> a ?p < a i"
      by blast+
    show ?thesis
    proof (cases "a (first + n) < a ?p")
      case True
      then have eq: "min_element a first (first + Suc n) = first + n"
        using min_element_Suc [OF pos, where a = a and first = first] by simp
      have "a (first + n) \<le> a i" if "first \<le> i" "i < first + Suc n" for i
      proof (cases "i = first + n")
        case True
        then show ?thesis by simp
      next
        case False
        with that have "i < first + n" by simp
        from ih(3) [OF that(1) this] \<open>a (first + n) < a ?p\<close> show ?thesis by simp
      qed
      moreover have "a (first + n) < a i" if "first \<le> i" "i < first + n" for i
        using ih(3) [OF that] \<open>a (first + n) < a ?p\<close> by simp
      ultimately show ?thesis unfolding eq by simp
    next
      case False
      then have eq: "min_element a first (first + Suc n) = ?p"
        using min_element_Suc [OF pos, where a = a and first = first] by simp
      have "a ?p \<le> a i" if "first \<le> i" "i < first + Suc n" for i
      proof (cases "i = first + n")
        case True
        with False show ?thesis by simp
      next
        case False
        with that have "i < first + n" by simp
        from ih(3) [OF that(1) this] show ?thesis .
      qed
      with ih show ?thesis unfolding eq by simp
    qed
  qed
qed

lemma new_seq_num_of_first_least:
  assumes "0 < nss"
  shows "\<exists>min_index < nss.
     (\<forall>i < nss. num_received (sst g) (member_index g) (off + min_index)
                  \<le> num_received (sst g) (member_index g) (off + i))
     \<and> (\<forall>i < min_index. num_received (sst g) (member_index g) (off + min_index)
                  < num_received (sst g) (member_index g) (off + i))
     \<and> new_seq_num_of off nss g =
         (num_received (sst g) (member_index g) (off + min_index) + 1) * int nss + int min_index - 1"
proof -
  let ?a = "num_received (sst g) (member_index g)"
  let ?p = "min_element ?a off (off + nss)"
  from min_element_first_least [OF assms, where first = off and a = ?a] have p: "off \<le> ?p" "?p < off + nss"
    "\<And>i. off \<le> i \<Longrightarrow> i < off + nss \<Longrightarrow> ?a ?p \<le> ?a i"
    "\<And>i. off \<le> i \<Longrightarrow> i < ?p \<Longrightarrow> ?a ?p < ?a i"
    by blast+
  from p(1) have shift: "off + (?p - off) = ?p" by simp
  have "?p - off < nss" using p(1,2) by simp
  moreover have "\<forall>i < nss. ?a (off + (?p - off)) \<le> ?a (off + i)"
    unfolding shift using p(3) by simp
  moreover have "\<forall>i < ?p - off. ?a (off + (?p - off)) < ?a (off + i)"
    unfolding shift using p(4) by (simp add: less_diff_conv add.commute)
  moreover have "new_seq_num_of off nss g = (?a (off + (?p - off)) + 1) * int nss + int (?p - off) - 1"
    unfolding shift by (simp add: new_seq_num_of_def Let_def)
  ultimately show ?thesis by blast
qed

lemma new_seq_num_of_spec:
  assumes "0 < nss"
  shows "\<exists>min_index. first_least (num_received (sst g) (member_index g)) off nss min_index
     \<and> new_seq_num_of off nss g = spec_seq_num (num_received (sst g) (member_index g)) off nss min_index"
  using new_seq_num_of_first_least [OF assms, of g off]
  unfolding first_least_def spec_seq_num_def by blast

lemma set_cell_same: "set_cell col row j (col row j) = col"
  by (simp add: set_cell_def)

lemma puts_append: "puts (xs @ ys) = puts xs @ puts ys"
  by (simp add: puts_def)

lemma raw_deliver_one_trace:
  "raw_deliver_one sg seq g = Inr g' \<Longrightarrow> \<exists>ups. trace g' = trace g @ ups \<and> puts ups = []"
  unfolding raw_deliver_one_def
  by (auto simp: and_then_Inr Let_def puts_def is_put_def
      split: if_splits option.splits list.splits)

lemma raw_deliver_trace:
  "raw_deliver sg nss sr is g = Inr g' \<Longrightarrow> \<exists>ups. trace g' = trace g @ ups \<and> puts ups = []"
proof (induction "is" arbitrary: g)
  case Nil
  then show ?case by (simp add: puts_def)
next
  case (Cons i "is")
  from Cons.prems obtain g1 where one: "raw_deliver_one sg (i * int nss + int sr) g = Inr g1"
    and rest: "raw_deliver sg nss sr is g1 = Inr g'"
    by (auto split: sum.splits)
  from raw_deliver_one_trace [OF one] obtain ups1 where
    ups1: "trace g1 = trace g @ ups1" "puts ups1 = []"
    by blast
  from Cons.IH [OF rest] obtain ups2 where
    ups2: "trace g' = trace g1 @ ups2" "puts ups2 = []"
    by blast
  from ups1 ups2 have "trace g' = trace g @ (ups1 @ ups2) \<and> puts (ups1 @ ups2) = []"
    by (simp add: puts_append)
  then show ?case ..
qed

lemma raw_mode_upcalls_trace:
  assumes "raw_mode_upcalls sg nss sr entry new g = Inr g'"
  shows "\<exists>ups. trace g' = trace g @ ups \<and> puts ups = []
     \<and> (subgroup_to_mode g sg \<noteq> Some RAW \<longrightarrow> ups = [])"
proof (cases "subgroup_to_mode g sg = Some RAW")
  case True
  with assms have "raw_deliver sg nss sr [num_received (sst g) (member_index g) entry + 1..new] g
      = Inr g'"
    by (simp add: raw_mode_upcalls_def and_then_def map_at_def)
  from raw_deliver_trace [OF this] True show ?thesis
    by simp
next
  case False
  with assms have "g' = g"
    by (auto simp: raw_mode_upcalls_def and_then_Inr map_at_Inr split: if_splits)
  with False have "trace g' = trace g @ [] \<and> puts [] = [] \<and> (subgroup_to_mode g sg \<noteq> Some RAW \<longrightarrow> [] = [])"
    by (simp add: puts_def)
  then show ?thesis by blast
qed

lemma move_to_locally_stable_trace:
  "move_to_locally_stable sg node seq h g = Inr g' \<Longrightarrow> trace g' = trace g"
  unfolding move_to_locally_stable_def
  by (auto split: if_splits option.splits)

lemma skipped_turns_rdmc_trace:
  "trace (skipped_turns_rdmc sg node nss seq beg turns g) = trace g"
  unfolding skipped_turns_rdmc_def by (rule fold_keeps) simp

lemma skipped_turns_sst_trace:
  "trace (skipped_turns_sst sg node nss seq beg turns g) = trace g"
  unfolding skipped_turns_sst_def by (rule fold_keeps) simp

lemma sst_receive_handler_trace:
  assumes "sst_receive_handler resolve sg ms ranks nss off sr h sz g = Inr g'"
  shows "\<exists>ups. trace g' = trace g @ ups \<and> puts ups = []
     \<and> (subgroup_to_mode g sg \<noteq> Some RAW \<longrightarrow> ups = [])"
proof -
  from assms obtain node new iv g4 where
    g4: "raw_mode_upcalls sg nss sr (off + sr) new
           ((skipped_turns_sst sg node nss (h_index h * int nss + int sr) (h_index h)
               (pause_sending_turns h)
               (g\<lparr>locally_stable_sst_messages := (locally_stable_sst_messages g)
                    (sg := map_assign (h_index h * int nss + int sr)
                       \<lparr>s_sender_id = node, s_index = h_index h, s_size = sz, s_buf = Some h\<rparr>
                       (locally_stable_sst_messages g sg))\<rparr>))\<lparr>received_intervals := iv\<rparr>) = Inr g4" and
    g': "g' = g4\<lparr>sst := (sst g4)\<lparr>num_received :=
                 set_cell (num_received (sst g4)) (member_index g4) (off + sr) new\<rparr>\<rparr>"
    unfolding sst_receive_handler_def Let_def
    by (auto simp: and_then_Inr case_prod_beta)
  let ?g1 = "g\<lparr>locally_stable_sst_messages := (locally_stable_sst_messages g)
                    (sg := map_assign (h_index h * int nss + int sr)
                       \<lparr>s_sender_id = node, s_index = h_index h, s_size = sz, s_buf = Some h\<rparr>
                       (locally_stable_sst_messages g sg))\<rparr>"
  let ?g2 = "skipped_turns_sst sg node nss (h_index h * int nss + int sr) (h_index h)
               (pause_sending_turns h) ?g1"
  have "settings (?g2\<lparr>received_intervals := iv\<rparr>) = settings g"
    using skipped_turns_sst_frame [of sg node nss "h_index h * int nss + int sr" "h_index h"
        "pause_sending_turns h" ?g1]
    by (simp add: settings_def)
  then have mode: "subgroup_to_mode (?g2\<lparr>received_intervals := iv\<rparr>) sg = subgroup_to_mode g sg"
    by (simp add: settings_def)
  have "trace (?g2\<lparr>received_intervals := iv\<rparr>) = trace g"
    by (simp add: skipped_turns_sst_trace)
  with raw_mode_upcalls_trace [OF g4] mode obtain ups where
    "trace g4 = trace g @ ups" "puts ups = []" "subgroup_to_mode g sg \<noteq> Some RAW \<longrightarrow> ups = []"
    by auto
  then have "trace g' = trace g @ ups \<and> puts ups = []
      \<and> (subgroup_to_mode g sg \<noteq> Some RAW \<longrightarrow> ups = [])"
    unfolding g' by simp
  then show ?thesis ..
qed

lemma receive_from_senders_trace:
  "receive_from_senders resolve sg ms ranks nss off js g = Inr g' \<Longrightarrow>
     \<exists>ups. trace g' = trace g @ ups \<and> puts ups = []
       \<and> (subgroup_to_mode g sg \<noteq> Some RAW \<longrightarrow> ups = [])"
proof (induction js arbitrary: g)
  case Nil
  then show ?case by (simp add: puts_def)
next
  case (Cons j js)
  from Cons.prems obtain ready n sl where
    slot: "next_slot sg ms ranks off j g = Inr (ready, n, sl)"
    by (auto split: sum.splits)
  show ?case
  proof (cases ready)
    case False
    with Cons.prems slot have "receive_from_senders resolve sg ms ranks nss off js g = Inr g'"
      by simp
    from Cons.IH [OF this] show ?thesis .
  next
    case True
    with Cons.prems slot obtain g0 where
      h: "sst_receive_handler resolve sg ms ranks nss off j (slot_buf sl) (slot_size sl) g = Inr g0" and
      rest: "receive_from_senders resolve sg ms ranks nss off js
               (g0\<lparr>sst := (sst g0)\<lparr>num_received_sst :=
                   set_cell (num_received_sst (sst g0)) (member_index g0) (off + j) n\<rparr>\<rparr>) = Inr g'"
      by (auto simp: and_then_Inr split: sum.splits)
    from sst_receive_handler_frame [OF h] have mode: "subgroup_to_mode g0 sg = subgroup_to_mode g sg"
      by (simp add: settings_def)
    from sst_receive_handler_trace [OF h] obtain ups1 where
      ups1: "trace g0 = trace g @ ups1" "puts ups1 = []"
        "subgroup_to_mode g sg \<noteq> Some RAW \<longrightarrow> ups1 = []"
      by blast
    from Cons.IH [OF rest] mode obtain ups2 where
      ups2: "trace g' = trace g0 @ ups2" "puts ups2 = []"
        "subgroup_to_mode g sg \<noteq> Some RAW \<longrightarrow> ups2 = []"
      by auto
    from ups1 ups2 have "trace g' = trace g @ (ups1 @ ups2) \<and> puts (ups1 @ ups2) = []
        \<and> (subgroup_to_mode g sg \<noteq> Some RAW \<longrightarrow> ups1 @ ups2 = [])"
      by (simp add: puts_append)
    then show ?thesis ..
  qed
qed

lemma receive_rounds_trace:
  "receive_rounds resolve sg ms ranks nss off n g = Inr g' \<Longrightarrow>
     \<exists>ups. trace g' = trace g @ ups \<and> puts ups = []
       \<and> (subgroup_to_mode g sg \<noteq> Some RAW \<longrightarrow> ups = [])"
proof (induction n arbitrary: g)
  case 0
  then show ?case by (simp add: puts_def)
next
  case (Suc n)
  from Suc.prems obtain g1 where
    one: "receive_from_senders resolve sg ms ranks nss off [0..<nss] g = Inr g1" and
    rest: "receive_rounds resolve sg ms ranks nss off n g1 = Inr g'"
    by (auto split: sum.splits)
  from receive_from_senders_frame [OF one] have mode: "subgroup_to_mode g1 sg = subgroup_to_mode g sg"
    by (simp add: settings_def)
  from receive_from_senders_trace [OF one] obtain ups1 where
    ups1: "trace g1 = trace g @ ups1" "puts ups1 = []"
      "subgroup_to_mode g sg \<noteq> Some RAW \<longrightarrow> ups1 = []"
    by blast
  from Suc.IH [OF rest] mode obtain ups2 where
    ups2: "trace g' = trace g1 @ ups2" "puts ups2 = []"
      "subgroup_to_mode g sg \<noteq> Some RAW \<longrightarrow> ups2 = []"
    by auto
  from ups1 ups2 have "trace g' = trace g @ (ups1 @ ups2) \<and> puts (ups1 @ ups2) = []
      \<and> (subgroup_to_mode g sg \<noteq> Some RAW \<longrightarrow> ups1 @ ups2 = [])"
    by (simp add: puts_append)
  then show ?case ..
qed

lemma publish_num_received_advance:
  assumes "0 < nss" and "num_received (sst g) (member_index g) (off + sr) < new"
    and g'_def: "g' = publish_num_received sg off sr nss idx new g"
  shows "\<exists>min_index. first_least (num_received (sst g') (member_index g)) off nss min_index
          \<and> sst g' = (sst g)
              \<lparr>num_received := set_cell (num_received (sst g)) (member_index g) (off + sr) new,
               seq_num := set_cell (seq_num (sst g)) (member_index g) sg
                 (max (seq_num (sst g) (member_index g) sg)
                    (spec_seq_num (num_received (sst g') (member_index g)) off nss min_index))\<rparr>
          \<and> trace g' = trace g
              @ (if seq_num (sst g) (member_index g) sg
                     < spec_seq_num (num_received (sst g') (member_index g)) off nss min_index
                 then [Put (Some idx) (Seq_num sg)] else [])
              @ [Put (Some idx) (Num_received (off + sr) 1)]"
proof -
  let ?g2 = "g\<lparr>sst := (sst g)\<lparr>num_received :=
                set_cell (num_received (sst g)) (member_index g) (off + sr) new\<rparr>\<rparr>"
  from new_seq_num_of_spec [OF assms(1), of ?g2 off] obtain min_index where
    m: "first_least (num_received (sst ?g2) (member_index ?g2)) off nss min_index"
    "new_seq_num_of off nss ?g2 = spec_seq_num (num_received (sst ?g2) (member_index ?g2)) off nss min_index"
    by blast
  have rows: "num_received (sst g') = num_received (sst ?g2)"
    using assms(2) by (simp add: g'_def publish_num_received_def Let_def)
  have "sst g' = (sst g)
      \<lparr>num_received := set_cell (num_received (sst g)) (member_index g) (off + sr) new,
       seq_num := set_cell (seq_num (sst g)) (member_index g) sg
         (max (seq_num (sst g) (member_index g) sg) (new_seq_num_of off nss ?g2))\<rparr>"
    using assms(2)
    by (simp add: g'_def publish_num_received_def Let_def max_def set_cell_same)
  moreover have "trace g' = trace g
      @ (if seq_num (sst g) (member_index g) sg < new_seq_num_of off nss ?g2
         then [Put (Some idx) (Seq_num sg)] else [])
      @ [Put (Some idx) (Num_received (off + sr) 1)]"
    using assms(2) by (simp add: g'_def publish_num_received_def Let_def)
  ultimately have "first_least (num_received (sst g') (member_index g)) off nss min_index
      \<and> sst g' = (sst g)
          \<lparr>num_received := set_cell (num_received (sst g)) (member_index g) (off + sr) new,
           seq_num := set_cell (seq_num (sst g)) (member_index g) sg
             (max (seq_num (sst g) (member_index g) sg)
                (spec_seq_num (num_received (sst g') (member_index g)) off nss min_index))\<rparr>
      \<and> trace g' = trace g
          @ (if seq_num (sst g) (member_index g) sg
                 < spec_seq_num (num_received (sst g') (member_index g)) off nss min_index
             then [Put (Some idx) (Seq_num sg)] else [])
          @ [Put (Some idx) (Num_received (off + sr) 1)]"
    using m unfolding rows by simp
  then show ?thesis ..
qed

lemma publish_received_slots_spec:
  assumes "0 < nss" and g'_def: "g' = publish_received_slots sg off nss g"
  shows "\<exists>min_index. first_least (num_received (sst g') (member_index g)) off nss min_index
          \<and> sst g' = (sst g)
              \<lparr>seq_num := set_cell (seq_num (sst g)) (member_index g) sg
                 (max (seq_num (sst g) (member_index g) sg)
                    (spec_seq_num (num_received (sst g') (member_index g)) off nss min_index))\<rparr>
          \<and> trace g' = trace g @ [Put None (Num_received_sst off nss)]
              @ (if seq_num (sst g) (member_index g) sg
                     < spec_seq_num (num_received (sst g') (member_index g)) off nss min_index
                 then [Put None (Seq_num sg)] else [])
              @ [Put None (Num_received off nss)]"
proof -
  let ?g1 = "g\<lparr>trace := trace g @ [Put None (Num_received_sst off nss)]\<rparr>"
  from new_seq_num_of_spec [OF assms(1), of ?g1 off] obtain min_index where
    m: "first_least (num_received (sst g) (member_index g)) off nss min_index"
    "new_seq_num_of off nss ?g1 = spec_seq_num (num_received (sst g) (member_index g)) off nss min_index"
    by auto
  have rows: "num_received (sst g') = num_received (sst g)"
    by (simp add: g'_def publish_received_slots_def Let_def)
  have "sst g' = (sst g)
      \<lparr>seq_num := set_cell (seq_num (sst g)) (member_index g) sg
         (max (seq_num (sst g) (member_index g) sg) (new_seq_num_of off nss ?g1))\<rparr>"
    by (simp add: g'_def publish_received_slots_def Let_def max_def set_cell_same)
  moreover have "trace g' = trace g @ [Put None (Num_received_sst off nss)]
      @ (if seq_num (sst g) (member_index g) sg < new_seq_num_of off nss ?g1
         then [Put None (Seq_num sg)] else [])
      @ [Put None (Num_received off nss)]"
    by (simp add: g'_def publish_received_slots_def Let_def)
  ultimately have "first_least (num_received (sst g') (member_index g)) off nss min_index
      \<and> sst g' = (sst g)
          \<lparr>seq_num := set_cell (seq_num (sst g)) (member_index g) sg
             (max (seq_num (sst g) (member_index g) sg)
                (spec_seq_num (num_received (sst g') (member_index g)) off nss min_index))\<rparr>
      \<and> trace g' = trace g @ [Put None (Num_received_sst off nss)]
          @ (if seq_num (sst g) (member_index g) sg
                 < spec_seq_num (num_received (sst g') (member_index g)) off nss min_index
             then [Put None (Seq_num sg)] else [])
          @ [Put None (Num_received off nss)]"
    using m unfolding rows by simp
  then show ?thesis ..
qed

lemma publish_num_received_same:
  "\<not> num_received (sst g) (member_index g) (off + sr) < new
     \<Longrightarrow> publish_num_received sg off sr nss idx new g = g"
  by (simp add: publish_num_received_def Let_def)

text \<open>
  C2, as the code has it, for a shard with at least one sender. The RDMC receive
  handler takes the new value \<open>new\<close> of the sender's entry of \<open>num_received\<close> from
  \<^verbatim>\<open>resolve_num_received\<close>, called on the group in which the message and the skipped
  turns are locally stable. Before it publishes anything it makes the upcalls \<open>ups\<close>
  of raw mode, none of which is a write to the table; in the other modes there are
  none. When \<open>new\<close> is above the entry,
  the handler stores it, computes the new sequence number from the first least entry
  of the senders of the shard as the spec says, raises \<open>seq_num\<close> to it when it is
  greater, writes the \<open>seq_num\<close> column to the shard members only in that case, and
  then writes the entry of \<open>num_received\<close>; nothing else in the table changes. When
  \<open>new\<close> is not above the entry, the table stays as it is and nothing is written. The
  receiver trigger of the slot path computes the same sequence number from the row
  that its receives leave, at the end of every firing; after the upcalls of its
  receives it writes the \<open>num_received_sst\<close> column, the \<open>seq_num\<close> column only when
  \<open>seq_num\<close> grew, and the \<open>num_received\<close> column.
\<close>

theorem seq_num_recomputation:
  assumes "0 < nss"
  shows "(rdmc_receive_handler resolve sg sr node nss idx h g = Inr g'
          \<and> subgroup_to_num_received_offset g sg = Some off
          \<longrightarrow> (\<exists>g1 ups new.
                move_to_locally_stable sg node (h_index h * int nss + int sr) h g = Inr g1
                \<and> new = fst (resolve (h_index h) (h_index h + int (pause_sending_turns h)) (off + sr)
                          (skipped_turns_rdmc sg node nss (h_index h * int nss + int sr) (h_index h)
                             (pause_sending_turns h) g1))
                \<and> puts ups = [] \<and> (subgroup_to_mode g sg \<noteq> Some RAW \<longrightarrow> ups = [])
                \<and> (if num_received (sst g) (member_index g) (off + sr) < new
                    then \<exists>min_index.
                           first_least (num_received (sst g') (member_index g)) off nss min_index
                           \<and> sst g' = (sst g)
                               \<lparr>num_received :=
                                  set_cell (num_received (sst g)) (member_index g) (off + sr) new,
                                seq_num := set_cell (seq_num (sst g)) (member_index g) sg
                                  (max (seq_num (sst g) (member_index g) sg)
                                     (spec_seq_num (num_received (sst g') (member_index g)) off nss
                                        min_index))\<rparr>
                           \<and> trace g' = trace g @ ups
                               @ (if seq_num (sst g) (member_index g) sg
                                      < spec_seq_num (num_received (sst g') (member_index g)) off nss
                                          min_index
                                  then [Put (Some idx) (Seq_num sg)] else [])
                               @ [Put (Some idx) (Num_received (off + sr) 1)]
                    else sst g' = sst g \<and> trace g' = trace g @ ups)))
     \<and> (receiver_trig resolve sg ms ranks nss off2 g = Inr g''
          \<longrightarrow> (\<exists>ups min_index.
                puts ups = [] \<and> (subgroup_to_mode g sg \<noteq> Some RAW \<longrightarrow> ups = [])
                \<and> first_least (num_received (sst g'') (member_index g)) off2 nss min_index
                \<and> seq_num (sst g'') = set_cell (seq_num (sst g)) (member_index g) sg
                     (max (seq_num (sst g) (member_index g) sg)
                        (spec_seq_num (num_received (sst g'') (member_index g)) off2 nss min_index))
                \<and> trace g'' = trace g @ ups @ [Put None (Num_received_sst off2 nss)]
                    @ (if seq_num (sst g) (member_index g) sg
                           < spec_seq_num (num_received (sst g'') (member_index g)) off2 nss
                               min_index
                       then [Put None (Seq_num sg)] else [])
                    @ [Put None (Num_received off2 nss)]))"
proof (intro conjI impI)
  assume a: "rdmc_receive_handler resolve sg sr node nss idx h g = Inr g'
      \<and> subgroup_to_num_received_offset g sg = Some off"
  let ?seq = "h_index h * int nss + int sr"
  from a obtain g1 g4 where
    g1: "move_to_locally_stable sg node ?seq h g = Inr g1" and
    g4: "raw_mode_upcalls sg nss sr (off + sr)
           (fst (resolve (h_index h) (h_index h + int (pause_sending_turns h)) (off + sr)
                  (skipped_turns_rdmc sg node nss ?seq (h_index h) (pause_sending_turns h) g1)))
           ((skipped_turns_rdmc sg node nss ?seq (h_index h) (pause_sending_turns h) g1)
              \<lparr>received_intervals :=
                 snd (resolve (h_index h) (h_index h + int (pause_sending_turns h)) (off + sr)
                   (skipped_turns_rdmc sg node nss ?seq (h_index h) (pause_sending_turns h) g1))\<rparr>)
         = Inr g4" and
    g': "g' = publish_num_received sg off sr nss idx
           (fst (resolve (h_index h) (h_index h + int (pause_sending_turns h)) (off + sr)
                  (skipped_turns_rdmc sg node nss ?seq (h_index h) (pause_sending_turns h) g1))) g4"
    unfolding rdmc_receive_handler_def Let_def
    by (auto simp: and_then_Inr map_at_Inr case_prod_beta)
  let ?g2 = "skipped_turns_rdmc sg node nss ?seq (h_index h) (pause_sending_turns h) g1"
  let ?new = "fst (resolve (h_index h) (h_index h + int (pause_sending_turns h)) (off + sr) ?g2)"
  let ?g3 = "?g2\<lparr>received_intervals :=
               snd (resolve (h_index h) (h_index h + int (pause_sending_turns h)) (off + sr) ?g2)\<rparr>"
  have g2: "sst ?g2 = sst g \<and> settings ?g2 = settings g"
    using move_to_locally_stable_frame [OF g1]
      skipped_turns_rdmc_frame [of sg node nss ?seq "h_index h" "pause_sending_turns h" g1]
    by simp
  then have g3: "settings ?g3 = settings g" "sst ?g3 = sst g"
    by (simp_all add: settings_def)
  have g3_trace: "trace ?g3 = trace g"
    using move_to_locally_stable_trace [OF g1] by (simp add: skipped_turns_rdmc_trace)
  from g3(1) have g3_mode: "subgroup_to_mode ?g3 sg = subgroup_to_mode g sg"
    by (simp add: settings_def)
  from raw_mode_upcalls_frame [OF g4] g3
  have g4_same: "sst g4 = sst g" "settings g4 = settings g"
    by simp_all
  then have me: "member_index g4 = member_index g"
    by (simp add: settings_def)
  from raw_mode_upcalls_trace [OF g4] obtain ups where
    ups: "trace g4 = trace g @ ups" "puts ups = []" "subgroup_to_mode g sg \<noteq> Some RAW \<longrightarrow> ups = []"
    unfolding g3_trace g3_mode by blast
  have "if num_received (sst g) (member_index g) (off + sr) < ?new
      then \<exists>min_index.
             first_least (num_received (sst g') (member_index g)) off nss min_index
             \<and> sst g' = (sst g)
                 \<lparr>num_received := set_cell (num_received (sst g)) (member_index g) (off + sr) ?new,
                  seq_num := set_cell (seq_num (sst g)) (member_index g) sg
                    (max (seq_num (sst g) (member_index g) sg)
                       (spec_seq_num (num_received (sst g') (member_index g)) off nss min_index))\<rparr>
             \<and> trace g' = trace g @ ups
                 @ (if seq_num (sst g) (member_index g) sg
                        < spec_seq_num (num_received (sst g') (member_index g)) off nss min_index
                    then [Put (Some idx) (Seq_num sg)] else [])
                 @ [Put (Some idx) (Num_received (off + sr) 1)]
      else sst g' = sst g \<and> trace g' = trace g @ ups"
  proof (cases "num_received (sst g) (member_index g) (off + sr) < ?new")
    case True
    then have "num_received (sst g4) (member_index g4) (off + sr) < ?new"
      using g4_same me by simp
    from publish_num_received_advance [OF assms this g'] True show ?thesis
      unfolding me g4_same ups(1) by simp
  next
    case False
    then have "\<not> num_received (sst g4) (member_index g4) (off + sr) < ?new"
      using g4_same me by simp
    from publish_num_received_same [OF this] False g4_same(1) ups(1) show ?thesis
      unfolding g' by simp
  qed
  with g1 ups(2,3) show "\<exists>g1 ups new.
      move_to_locally_stable sg node (h_index h * int nss + int sr) h g = Inr g1
      \<and> new = fst (resolve (h_index h) (h_index h + int (pause_sending_turns h)) (off + sr)
                (skipped_turns_rdmc sg node nss (h_index h * int nss + int sr) (h_index h)
                   (pause_sending_turns h) g1))
      \<and> puts ups = [] \<and> (subgroup_to_mode g sg \<noteq> Some RAW \<longrightarrow> ups = [])
      \<and> (if num_received (sst g) (member_index g) (off + sr) < new
          then \<exists>min_index.
                 first_least (num_received (sst g') (member_index g)) off nss min_index
                 \<and> sst g' = (sst g)
                     \<lparr>num_received :=
                        set_cell (num_received (sst g)) (member_index g) (off + sr) new,
                      seq_num := set_cell (seq_num (sst g)) (member_index g) sg
                        (max (seq_num (sst g) (member_index g) sg)
                           (spec_seq_num (num_received (sst g') (member_index g)) off nss
                              min_index))\<rparr>
                 \<and> trace g' = trace g @ ups
                     @ (if seq_num (sst g) (member_index g) sg
                            < spec_seq_num (num_received (sst g') (member_index g)) off nss
                                min_index
                        then [Put (Some idx) (Seq_num sg)] else [])
                     @ [Put (Some idx) (Num_received (off + sr) 1)]
          else sst g' = sst g \<and> trace g' = trace g @ ups)"
    by (intro exI [of _ g1] exI [of _ ups] exI [of _ ?new] conjI refl)
next
  assume "receiver_trig resolve sg ms ranks nss off2 g = Inr g''"
  then obtain n g1 where
    rounds: "receive_rounds resolve sg ms ranks nss off2 n g = Inr g1" and
    g'': "g'' = publish_received_slots sg off2 nss g1"
    unfolding receiver_trig_def Let_def by (auto simp: and_then_Inr)
  from receive_rounds_frame [OF rounds]
  have same: "seq_num (sst g1) = seq_num (sst g)" "member_index g1 = member_index g"
    by (simp_all add: settings_def)
  from receive_rounds_trace [OF rounds] obtain ups where
    ups: "trace g1 = trace g @ ups" "puts ups = []"
      "subgroup_to_mode g sg \<noteq> Some RAW \<longrightarrow> ups = []"
    by blast
  from publish_received_slots_spec [OF assms g''] obtain min_index where
    m: "first_least (num_received (sst g'') (member_index g1)) off2 nss min_index"
      "sst g'' = (sst g1)
         \<lparr>seq_num := set_cell (seq_num (sst g1)) (member_index g1) sg
            (max (seq_num (sst g1) (member_index g1) sg)
               (spec_seq_num (num_received (sst g'') (member_index g1)) off2 nss min_index))\<rparr>"
      "trace g'' = trace g1 @ [Put None (Num_received_sst off2 nss)]
         @ (if seq_num (sst g1) (member_index g1) sg
                < spec_seq_num (num_received (sst g'') (member_index g1)) off2 nss min_index
            then [Put None (Seq_num sg)] else [])
         @ [Put None (Num_received off2 nss)]"
    by blast
  from m(2) have "seq_num (sst g'') = set_cell (seq_num (sst g1)) (member_index g1) sg
      (max (seq_num (sst g1) (member_index g1) sg)
         (spec_seq_num (num_received (sst g'') (member_index g1)) off2 nss min_index))"
    by (metis DerechoSST.select_convs(1) DerechoSST.surjective DerechoSST.update_convs(1))
  with m(1,3) ups
  show "\<exists>ups min_index.
      puts ups = [] \<and> (subgroup_to_mode g sg \<noteq> Some RAW \<longrightarrow> ups = [])
      \<and> first_least (num_received (sst g'') (member_index g)) off2 nss min_index
      \<and> seq_num (sst g'') = set_cell (seq_num (sst g)) (member_index g) sg
           (max (seq_num (sst g) (member_index g) sg)
              (spec_seq_num (num_received (sst g'') (member_index g)) off2 nss min_index))
      \<and> trace g'' = trace g @ ups @ [Put None (Num_received_sst off2 nss)]
          @ (if seq_num (sst g) (member_index g) sg
                 < spec_seq_num (num_received (sst g'') (member_index g)) off2 nss
                     min_index
             then [Put None (Seq_num sg)] else [])
          @ [Put None (Num_received off2 nss)]"
    unfolding same by (intro exI [of _ ups] exI [of _ min_index]) simp
qed

theorem seq_num_recomputation_witness:
  "\<exists>g g' g''.
     run resolve_in_order [Rdmc_incoming 0 1 0 1 27, Remote_write peer_wrote_slot]
       (example_group [0, 1] (- 1) False) = Inr g
     \<and> rdmc_receive_handler resolve_in_order 0 0 1 1 [0, 1] (fill_header 0 0 False) g = Inr g'
     \<and> subgroup_to_num_received_offset g 0 = Some 0
     \<and> receiver_trig resolve_in_order 0 [0, 1] (shard_ranks_by_sender_rank [0, 1] 2) 1 0 g = Inr g''
     \<and> num_received (sst g) 0 0 = - 1 \<and> seq_num (sst g) 0 0 = - 1
     \<and> num_received (sst g') 0 0 = 0 \<and> seq_num (sst g') 0 0 = 0
     \<and> trace g' = trace g @ [Put (Some [0, 1]) (Seq_num 0), Put (Some [0, 1]) (Num_received 0 1)]
     \<and> num_received (sst g'') 0 0 = 0 \<and> seq_num (sst g'') 0 0 = 0
     \<and> trace g'' = trace g @ [Put None (Num_received_sst 0 1), Put None (Seq_num 0),
                              Put None (Num_received 0 1)]"
proof -
  have "\<exists>g. run resolve_in_order [Rdmc_incoming 0 1 0 1 27, Remote_write peer_wrote_slot]
            (example_group [0, 1] (- 1) False) = Inr g
      \<and> subgroup_to_num_received_offset g 0 = Some 0
      \<and> num_received (sst g) 0 0 = - 1 \<and> seq_num (sst g) 0 0 = - 1 \<and> member_index g = 0
      \<and> subgroup_to_mode g 0 = Some ORDERED
      \<and> (\<exists>g'. rdmc_receive_handler resolve_in_order 0 0 1 1 [0, 1] (fill_header 0 0 False) g
                 = Inr g')
      \<and> (\<exists>g''. receiver_trig resolve_in_order 0 [0, 1] (shard_ranks_by_sender_rank [0, 1] 2) 1 0 g
                  = Inr g''
             \<and> num_received (sst g'') 0 0 = 0)"
    by (simp add: run_defs peer_wrote_slot_def example_sst_def)
  then obtain g g' g'' where
    run: "run resolve_in_order [Rdmc_incoming 0 1 0 1 27, Remote_write peer_wrote_slot]
            (example_group [0, 1] (- 1) False) = Inr g"
    and off: "subgroup_to_num_received_offset g 0 = Some 0"
    and before: "num_received (sst g) 0 0 = - 1" "seq_num (sst g) 0 0 = - 1" "member_index g = 0"
      "subgroup_to_mode g 0 = Some ORDERED"
    and rdmc: "rdmc_receive_handler resolve_in_order 0 0 1 1 [0, 1] (fill_header 0 0 False) g = Inr g'"
    and slot: "receiver_trig resolve_in_order 0 [0, 1] (shard_ranks_by_sender_rank [0, 1] 2) 1 0 g
             = Inr g''"
    and received: "num_received (sst g'') 0 0 = 0"
    by blast
  have "(0::nat) < 1"
    by simp
  note both = seq_num_recomputation [of 1 resolve_in_order 0 0 1 "[0, 1]" "fill_header 0 0 False"
      g g' 0 "[0, 1]" "shard_ranks_by_sender_rank [0, 1] 2" 0 g'', OF this]
  note rdmc_part = both [THEN conjunct1, THEN mp, OF conjI, OF rdmc off]
  note slot_part = both [THEN conjunct2, THEN mp, OF slot]
  from before rdmc_part
  have "\<exists>g1. move_to_locally_stable 0 1 0 (fill_header 0 0 False) g = Inr g1
      \<and> (if - 1 < fst (resolve_in_order 0 0 0 (skipped_turns_rdmc 0 1 1 0 0 0 g1))
          then \<exists>min_index. first_least (num_received (sst g') 0) 0 1 min_index
                 \<and> sst g' = (sst g)
                     \<lparr>num_received := set_cell (num_received (sst g)) 0 0
                        (fst (resolve_in_order 0 0 0 (skipped_turns_rdmc 0 1 1 0 0 0 g1))),
                      seq_num := set_cell (seq_num (sst g)) 0 0
                        (max (- 1) (spec_seq_num (num_received (sst g') 0) 0 1 min_index))\<rparr>
                 \<and> trace g' = trace g
                     @ (if - 1 < spec_seq_num (num_received (sst g') 0) 0 1 min_index
                        then [Put (Some [0, 1]) (Seq_num 0)] else [])
                     @ [Put (Some [0, 1]) (Num_received 0 1)]
          else sst g' = sst g \<and> trace g' = trace g)"
    by (simp add: fill_header_def puts_def cong: if_cong split del: if_split)
  then obtain g1 where
    g1: "move_to_locally_stable 0 1 0 (fill_header 0 0 False) g = Inr g1" and
    new: "if - 1 < fst (resolve_in_order 0 0 0 (skipped_turns_rdmc 0 1 1 0 0 0 g1))
          then \<exists>min_index. first_least (num_received (sst g') 0) 0 1 min_index
                 \<and> sst g' = (sst g)
                     \<lparr>num_received := set_cell (num_received (sst g)) 0 0
                        (fst (resolve_in_order 0 0 0 (skipped_turns_rdmc 0 1 1 0 0 0 g1))),
                      seq_num := set_cell (seq_num (sst g)) 0 0
                        (max (- 1) (spec_seq_num (num_received (sst g') 0) 0 1 min_index))\<rparr>
                 \<and> trace g' = trace g
                     @ (if - 1 < spec_seq_num (num_received (sst g') 0) 0 1 min_index
                        then [Put (Some [0, 1]) (Seq_num 0)] else [])
                     @ [Put (Some [0, 1]) (Num_received 0 1)]
          else sst g' = sst g \<and> trace g' = trace g"
    by (elim exE conjE) (rule that)
  from move_to_locally_stable_frame [OF g1] skipped_turns_rdmc_frame [of 0 1 1 0 0 0 g1] before
  have "fst (resolve_in_order 0 0 0 (skipped_turns_rdmc 0 1 1 0 0 0 g1)) = 0"
    by (simp add: resolve_in_order_def settings_def)
  with new obtain min_index where
    least: "first_least (num_received (sst g') 0) 0 1 min_index" and
    table: "sst g' = (sst g)
        \<lparr>num_received := set_cell (num_received (sst g)) 0 0 0,
         seq_num := set_cell (seq_num (sst g)) 0 0
           (max (- 1) (spec_seq_num (num_received (sst g') 0) 0 1 min_index))\<rparr>" and
    puts: "trace g' = trace g
        @ (if - 1 < spec_seq_num (num_received (sst g') 0) 0 1 min_index
           then [Put (Some [0, 1]) (Seq_num 0)] else [])
        @ [Put (Some [0, 1]) (Num_received 0 1)]"
    by auto
  from least have first: "min_index = 0"
    by (simp add: first_least_def)
  from table [THEN arg_cong, of num_received] have entry: "num_received (sst g') 0 0 = 0"
    by (simp add: set_cell_def)
  then have "spec_seq_num (num_received (sst g') 0) 0 1 0 = 0"
    by (simp add: spec_seq_num_def)
  with table [THEN arg_cong, of seq_num] puts first entry
  have after: "num_received (sst g') 0 0 = 0 \<and> seq_num (sst g') 0 0 = 0
      \<and> trace g' = trace g @ [Put (Some [0, 1]) (Seq_num 0), Put (Some [0, 1]) (Num_received 0 1)]"
    by (simp add: set_cell_def)
  from before slot_part
  have "\<exists>min_index. first_least (num_received (sst g'') 0) 0 1 min_index
      \<and> seq_num (sst g'') = set_cell (seq_num (sst g)) 0 0
           (max (- 1) (spec_seq_num (num_received (sst g'') 0) 0 1 min_index))
      \<and> trace g'' = trace g @ [Put None (Num_received_sst 0 1)]
          @ (if - 1 < spec_seq_num (num_received (sst g'') 0) 0 1 min_index
             then [Put None (Seq_num 0)] else [])
          @ [Put None (Num_received 0 1)]"
    by (simp add: puts_def cong: if_cong split del: if_split)
  then obtain slot_index where
    slot_least: "first_least (num_received (sst g'') 0) 0 1 slot_index" and
    grown: "seq_num (sst g'') = set_cell (seq_num (sst g)) 0 0
        (max (- 1) (spec_seq_num (num_received (sst g'') 0) 0 1 slot_index))" and
    slot_puts: "trace g'' = trace g @ [Put None (Num_received_sst 0 1)]
        @ (if - 1 < spec_seq_num (num_received (sst g'') 0) 0 1 slot_index
           then [Put None (Seq_num 0)] else [])
        @ [Put None (Num_received 0 1)]"
    by (elim exE conjE) (rule that)
  from slot_least have "slot_index = 0"
    by (simp add: first_least_def)
  with grown slot_puts received have "seq_num (sst g'') 0 0 = 0
      \<and> trace g'' = trace g @ [Put None (Num_received_sst 0 1), Put None (Seq_num 0),
                                Put None (Num_received 0 1)]"
    by (simp add: spec_seq_num_def set_cell_def)
  with run rdmc off slot before(1,2) after received show ?thesis
    by blast
qed

text \<open>
  C2 as stated fails when the sender whose entry advanced is not the one with the least
  entry. In the example group in which both nodes send, node 0 receives message 0 of
  node 1 first: the entry of node 1 advances from -1 to 0, the least entry is still the
  -1 of node 0, the new sequence number is -1, and only the entry of \<open>num_received\<close> is
  written to the shard members. On the slot path the trigger writes the two columns of
  the counts and not the \<open>seq_num\<close> column.
\<close>

theorem seq_num_column_not_written_counterexample:
  "(case run resolve_in_order second_sender_first_run (example_group [1, 1] 0 False) of
      Inl e \<Rightarrow> False
    | Inr g \<Rightarrow>
        num_received (sst (example_group [1, 1] 0 False)) 0 1 = - 1
        \<and> num_received (sst g) 0 1 = 0
        \<and> seq_num (sst g) 0 0 = - 1
        \<and> trace g = trace (example_group [1, 1] 0 False) @ [Put (Some [0, 1]) (Num_received 1 1)])
   \<and> (case run resolve_in_order second_sender_first_slot_run (example_group [1, 1] 0 False) of
        Inl e \<Rightarrow> False
      | Inr g \<Rightarrow>
          num_received (sst g) 0 1 = 0
          \<and> seq_num (sst g) 0 0 = - 1
          \<and> trace g = trace (example_group [1, 1] 0 False)
              @ [Put None (Num_received_sst 0 2), Put None (Num_received 0 2)])"
  by (simp add: second_sender_first_run_def second_sender_first_slot_run_def run_defs
      peer_wrote_slot_def example_sst_def)


end
